(* ===== verification/Prelude.thy ===== *)
theory Prelude
  imports Main "HOL-Library.Word"
begin

text \<open>
  The prelude of the Gordion VPN development: the value types every component shares
  (gRPC status codes, Go error values, results, instants of time, metric calls), Go's
  fixed-width integer conversions written out over \<^typ>\<open>int\<close>, and the generic lemmas
  the component theories rely on.

  Conventions. A Go function that returns \<open>(T, error)\<close> returns a value of
  \<open>'a result\<close>: \<open>Inl\<close> is the error. A Go function that returns only \<open>error\<close> returns a
  \<open>go_error option\<close>: \<open>None\<close> is \<open>nil\<close>. An instant (\<open>time.Time\<close>) and a \<open>time.Duration\<close>
  are integers counting nanoseconds; the code reads the clock with \<open>time.Now()\<close>, and the
  model takes the value read as an argument. Go's \<open>string\<close> is a list of bytes, as is
  HOL's \<^typ>\<open>string\<close>.
\<close>

section \<open>Fact collections\<close>

named_theorems wrap_simps \<open>fixed-width integer conversions on values in range\<close>
named_theorems go_std \<open>facts about the modelled part of Go's standard library\<close>
named_theorems op_defs \<open>definitions of the operations of the component at hand\<close>

section \<open>Errors and results\<close>

text \<open>The status codes of \<open>google.golang.org/grpc/codes\<close>, in their numeric order.\<close>

datatype code = OK | Canceled | Unknown | InvalidArgument | DeadlineExceeded | NotFound
  | AlreadyExists | PermissionDenied | ResourceExhausted | FailedPrecondition | Aborted
  | OutOfRange | Unimplemented | Internal | Unavailable | DataLoss | Unauthenticated

text \<open>
  A Go error value. \<open>Plain m\<close> is \<open>fmt.Errorf(m)\<close>; \<open>Wrapped m e\<close> is
  \<open>fmt.Errorf("m: %w", e)\<close>; \<open>Status c m None\<close> is \<open>status.Error(c, m)\<close> and
  \<open>Status c m (Some e)\<close> is \<open>status.Errorf(c, "m: %v", e)\<close>.
\<close>

datatype go_error = Plain string | Wrapped string go_error | Status code string "go_error option"

type_synonym 'a result = "go_error + 'a"

fun status_code :: "go_error \<Rightarrow> code option" where
  "status_code (Status c _ _) = Some c"
| "status_code _ = None"

abbreviation is_ok :: "'a result \<Rightarrow> bool" where
  "is_ok r \<equiv> (\<exists>x. r = Inr x)"

lemma not_is_ok [simp]: "(\<nexists>x. r = Inr x) \<longleftrightarrow> (\<exists>e. r = Inl e)"
  by (cases r) auto

section \<open>Time\<close>

type_synonym instant = int
type_synonym duration = int

definition time_Second :: duration where
  "time_Second = 1000000000"

definition time_Minute :: duration where
  "time_Minute = 60 * time_Second"

definition time_Hour :: duration where
  "time_Hour = 60 * time_Minute"

text \<open>\<open>time.Time.Unix()\<close> and \<open>time.Unix(sec, 0)\<close>.\<close>

definition unix :: "instant \<Rightarrow> int" where
  "unix t = t div time_Second"

definition from_unix :: "int \<Rightarrow> instant" where
  "from_unix s = s * time_Second"

lemma time_Second_pos [simp]: "0 < time_Second"
  by (simp add: time_Second_def)

lemma time_Hour_pos [simp]: "0 < time_Hour"
  by (simp add: time_Hour_def time_Minute_def)

lemma unix_from_unix [simp]: "unix (from_unix s) = s"
  by (simp add: unix_def from_unix_def time_Second_def)

lemma from_unix_le: "from_unix (unix t) \<le> t"
proof -
  have "unix t * time_Second + t mod time_Second = t"
    by (simp add: unix_def mult_div_mod_eq mult.commute)
  moreover have "0 \<le> t mod time_Second"
    by (simp add: time_Second_def)
  ultimately show ?thesis
    unfolding from_unix_def by linarith
qed

lemma less_from_unix: "t < from_unix (unix t) + time_Second"
proof -
  have "unix t * time_Second + t mod time_Second = t"
    by (simp add: unix_def mult_div_mod_eq mult.commute)
  moreover have "t mod time_Second < time_Second"
    by (simp add: time_Second_def)
  ultimately show ?thesis
    unfolding from_unix_def by linarith
qed

lemma unix_mono: "s \<le> t \<Longrightarrow> unix s \<le> unix t"
  by (simp add: unix_def time_Second_def zdiv_mono1)

section \<open>Fixed-width integers\<close>

text \<open>
  Go's \<open>int\<close> and \<open>int64\<close> have 64 bits and \<open>int32\<close> has 32; a conversion or an operation
  that leaves the range wraps around in two's complement.
\<close>

definition int32 :: "int \<Rightarrow> int" where
  "int32 x = signed_take_bit 31 x"

definition int64 :: "int \<Rightarrow> int" where
  "int64 x = signed_take_bit 63 x"

lemma int32_id [wrap_simps]: "-(2 ^ 31) \<le> x \<Longrightarrow> x < 2 ^ 31 \<Longrightarrow> int32 x = x"
  by (simp add: int32_def signed_take_bit_int_eq_self)

lemma int64_id [wrap_simps]: "-(2 ^ 63) \<le> x \<Longrightarrow> x < 2 ^ 63 \<Longrightarrow> int64 x = x"
  by (simp add: int64_def signed_take_bit_int_eq_self)

lemma int32_bounds: "-(2 ^ 31) \<le> int32 x \<and> int32 x < 2 ^ 31"
  by (simp add: int32_def signed_take_bit_int_greater_eq_minus_exp signed_take_bit_int_less_exp
      del: power_numeral)

section \<open>Metric calls\<close>

text \<open>
  The services report to Prometheus through the collectors of \<open>src/pkg/metrics\<close>. A call is
  recorded as a value: the collector's name, its label values, and the method. Durations
  and gauge values are integers here.
\<close>

datatype metric_call =
    Inc string "string list"
  | Dec string "string list"
  | SetGauge string "string list" int
  | Observe string "string list" duration

section \<open>Lists and maps\<close>

lemma length_filter_partition:
  "length (filter P xs) + length (filter (\<lambda>x. \<not> P x) xs) = length xs"
  by (induction xs) auto

lemma map_fst_filter_zip:
  "length xs = length ys \<Longrightarrow> map fst (filter (\<lambda>c. P (fst c)) (zip xs ys)) = filter P xs"
  by (induction xs ys rule: list_induct2) auto

lemma map_of_filter_fst:
  "map_of (filter (\<lambda>(k, v). P k v) (zip ks (map f ks))) k
     = (if k \<in> set ks \<and> P k (f k) then Some (f k) else None)"
  by (induction ks) auto

lemma funpow_induct_step: "(f ^^ Suc n) x = (f ^^ n) (f x)"
  by (simp add: funpow_swap1)

end
