(* ===== verification/Circuit_Breaker.thy ===== *)
theory Circuit_Breaker
  imports Prelude
begin

text \<open>
  The circuit breaker of \<open>src/pkg/circuitbreaker/circuitbreaker.go\<close>, which guards every
  control-plane call of the agent. Each exported method takes the mutex for its whole body,
  so a method is one function on the breaker's record; the one exception, the window in
  which \<open>transition\<close> releases the mutex around the callback, is the step relation
  \<open>cb_step\<close>. The callback \<open>OnStateChange\<close> is code of the breaker's user: the record
  says whether it is set and logs its calls.
\<close>

section \<open>Data\<close>

datatype State = StateClosed | StateOpen | StateHalfOpen

fun State_String :: "State \<Rightarrow> string" where
  "State_String StateClosed = ''CLOSED''"
| "State_String StateOpen = ''OPEN''"
| "State_String StateHalfOpen = ''HALF_OPEN''"

record cb_Config =
  MaxFailures :: int
  OpenTimeout :: duration
  HalfOpenMax :: int
  OnStateChange :: bool

definition cb_DefaultConfig :: cb_Config where
  "cb_DefaultConfig =
     \<lparr>MaxFailures = 5, OpenTimeout = 30 * time_Second, HalfOpenMax = 1, OnStateChange = False\<rparr>"

record CircuitBreaker =
  cb_name :: string
  cb_cfg :: cb_Config
  cb_state :: State
  failures :: int
  successes :: int
  lastFailure :: instant
  halfOpenReq :: int
  callbacks :: "(string \<times> State \<times> State) list"

section \<open>Operations\<close>

definition cb_New :: "string \<Rightarrow> cb_Config \<Rightarrow> CircuitBreaker" where
  "cb_New nm cfg =
     (let cfg1 = (if MaxFailures cfg \<le> 0
                  then cfg\<lparr>MaxFailures := MaxFailures cb_DefaultConfig\<rparr> else cfg);
          cfg2 = (if OpenTimeout cfg1 \<le> 0
                  then cfg1\<lparr>OpenTimeout := OpenTimeout cb_DefaultConfig\<rparr> else cfg1);
          cfg3 = (if HalfOpenMax cfg2 \<le> 0
                  then cfg2\<lparr>HalfOpenMax := HalfOpenMax cb_DefaultConfig\<rparr> else cfg2)
      in \<lparr>cb_name = nm, cb_cfg = cfg3, cb_state = StateClosed, failures = 0, successes = 0,
          lastFailure = 0, halfOpenReq = 0, callbacks = []\<rparr>)"

definition cb_CurrentState :: "CircuitBreaker \<Rightarrow> State" where
  "cb_CurrentState cb = cb_state cb"

definition cb_transition :: "State \<Rightarrow> CircuitBreaker \<Rightarrow> CircuitBreaker" where
  "cb_transition to cb =
     (let from = cb_state cb in
      if from = to then cb
      else let cb1 = cb\<lparr>cb_state := to\<rparr> in
        if OnStateChange (cb_cfg cb1)
        then cb1\<lparr>callbacks := callbacks cb1 @ [(cb_name cb1, from, to)]\<rparr>
        else cb1)"

definition cb_Allow :: "instant \<Rightarrow> CircuitBreaker \<Rightarrow> bool \<times> CircuitBreaker" where
  "cb_Allow now cb =
     (case cb_state cb of
        StateClosed \<Rightarrow> (True, cb)
      | StateOpen \<Rightarrow>
          if now - lastFailure cb \<ge> OpenTimeout (cb_cfg cb)
          then (True, (cb_transition StateHalfOpen cb)\<lparr>halfOpenReq := 1\<rparr>)
          else (False, cb)
      | StateHalfOpen \<Rightarrow>
          if halfOpenReq cb < HalfOpenMax (cb_cfg cb)
          then (True, cb\<lparr>halfOpenReq := halfOpenReq cb + 1\<rparr>)
          else (False, cb))"

definition cb_RecordSuccess :: "CircuitBreaker \<Rightarrow> CircuitBreaker" where
  "cb_RecordSuccess cb =
     (let cb1 = cb\<lparr>failures := 0\<rparr> in
      if cb_state cb1 = StateHalfOpen
      then let cb2 = cb1\<lparr>successes := successes cb1 + 1\<rparr> in
        if successes cb2 \<ge> HalfOpenMax (cb_cfg cb2)
        then cb_transition StateClosed (cb2\<lparr>successes := 0, halfOpenReq := 0\<rparr>)
        else cb2
      else cb1)"

definition cb_RecordFailure :: "instant \<Rightarrow> CircuitBreaker \<Rightarrow> CircuitBreaker" where
  "cb_RecordFailure now cb =
     (let cb1 = cb\<lparr>lastFailure := now\<rparr> in
      case cb_state cb1 of
        StateClosed \<Rightarrow>
          let cb2 = cb1\<lparr>failures := failures cb1 + 1\<rparr> in
          if failures cb2 \<ge> MaxFailures (cb_cfg cb2)
          then cb_transition StateOpen (cb2\<lparr>successes := 0, halfOpenReq := 0\<rparr>)
          else cb2
      | StateHalfOpen \<Rightarrow>
          cb_transition StateOpen
            (cb1\<lparr>failures := failures cb1 + 1, successes := 0, halfOpenReq := 0\<rparr>)
      | StateOpen \<Rightarrow> cb1)"

text \<open>
  \<open>Execute(fn)\<close>. The guarded call \<open>fn\<close> acts on a state of its own and returns an error or
  nil. \<open>FromError\<close> stands for grpc's \<open>status.FromError\<close>: the status code, when the error
  is a status error. The text of the rejection is its fixed part; the source appends the
  open timeout. \<open>t1\<close> and \<open>t2\<close> are the clock readings before and after the call.
\<close>

definition cb_Execute ::
  "(go_error \<Rightarrow> code option) \<Rightarrow> instant \<Rightarrow> instant \<Rightarrow> ('s \<Rightarrow> go_error option \<times> 's)
   \<Rightarrow> CircuitBreaker \<times> 's \<Rightarrow> go_error option \<times> CircuitBreaker \<times> 's" where
  "cb_Execute FromError t1 t2 fn = (\<lambda>(cb, s).
     (case cb_Allow t1 cb of
        (False, cb1) \<Rightarrow>
          (Some (Status Unavailable (''circuit breaker ['' @ cb_name cb @ ''] is OPEN'') None),
           cb1, s)
      | (True, cb1) \<Rightarrow>
          (case fn s of
             (Some e, s1) \<Rightarrow>
               (case FromError e of
                  Some c \<Rightarrow>
                    if c = Canceled \<or> c = DeadlineExceeded then (Some e, cb1, s1)
                    else (Some e, cb_RecordFailure t2 cb1, s1)
                | None \<Rightarrow> (Some e, cb_RecordFailure t2 cb1, s1))
           | (None, s1) \<Rightarrow> (None, cb_RecordSuccess cb1, s1))))"

text \<open>\<open>UnaryClientInterceptor\<close> runs the invoker under \<open>Execute\<close>.\<close>

definition cb_UnaryClientInterceptor ::
  "(go_error \<Rightarrow> code option) \<Rightarrow> instant \<Rightarrow> instant \<Rightarrow> ('q \<Rightarrow> 's \<Rightarrow> go_error option \<times> 's) \<Rightarrow> 'q
   \<Rightarrow> CircuitBreaker \<times> 's \<Rightarrow> go_error option \<times> CircuitBreaker \<times> 's" where
  "cb_UnaryClientInterceptor FromError t1 t2 invoker req =
     cb_Execute FromError t1 t2 (invoker req)"

lemmas cb_defs = cb_Allow_def cb_RecordSuccess_def cb_RecordFailure_def cb_transition_def Let_def

section \<open>The breaker's invariant\<close>

definition cb_inv :: "CircuitBreaker \<Rightarrow> bool" where
  "cb_inv cb \<longleftrightarrow>
     0 < MaxFailures (cb_cfg cb) \<and> 0 < OpenTimeout (cb_cfg cb) \<and> 0 < HalfOpenMax (cb_cfg cb)
     \<and> 0 \<le> failures cb
     \<and> (case cb_state cb of
          StateClosed \<Rightarrow> failures cb < MaxFailures (cb_cfg cb) \<and> successes cb = 0 \<and> halfOpenReq cb = 0
        | StateOpen \<Rightarrow> successes cb = 0 \<and> halfOpenReq cb = 0
        | StateHalfOpen \<Rightarrow> 1 \<le> halfOpenReq cb \<and> halfOpenReq cb \<le> HalfOpenMax (cb_cfg cb)
            \<and> 0 \<le> successes cb \<and> successes cb < HalfOpenMax (cb_cfg cb))"

lemma cb_New_inv: "cb_inv (cb_New nm cfg)"
  by (simp add: cb_New_def cb_inv_def cb_DefaultConfig_def Let_def)

lemma cb_Allow_inv: "cb_inv cb \<Longrightarrow> cb_inv (snd (cb_Allow now cb))"
  by (auto simp: cb_defs cb_inv_def split: State.splits)

lemma cb_RecordSuccess_inv: "cb_inv cb \<Longrightarrow> cb_inv (cb_RecordSuccess cb)"
  by (auto simp: cb_defs cb_inv_def split: State.splits)

lemma cb_RecordFailure_inv: "cb_inv cb \<Longrightarrow> cb_inv (cb_RecordFailure now cb)"
  by (auto simp: cb_defs cb_inv_def split: State.splits)

lemma cb_cfg_const [simp]:
  "cb_cfg (cb_transition to cb) = cb_cfg cb"
  "cb_cfg (snd (cb_Allow now cb)) = cb_cfg cb"
  "cb_cfg (cb_RecordSuccess cb) = cb_cfg cb"
  "cb_cfg (cb_RecordFailure now cb) = cb_cfg cb"
  by (auto simp: cb_defs split: State.splits)

text \<open>A history of calls: any sequence of the three methods the users of a breaker call.\<close>

datatype cb_event = CallAllow instant | CallSuccess | CallFailure instant

fun cb_apply :: "cb_event \<Rightarrow> CircuitBreaker \<Rightarrow> CircuitBreaker" where
  "cb_apply (CallAllow t) cb = snd (cb_Allow t cb)"
| "cb_apply CallSuccess cb = cb_RecordSuccess cb"
| "cb_apply (CallFailure t) cb = cb_RecordFailure t cb"

abbreviation cb_run :: "cb_event list \<Rightarrow> CircuitBreaker \<Rightarrow> CircuitBreaker" where
  "cb_run evs cb \<equiv> fold cb_apply evs cb"

lemma cb_apply_inv: "cb_inv cb \<Longrightarrow> cb_inv (cb_apply ev cb)"
  by (cases ev) (simp_all add: cb_Allow_inv cb_RecordSuccess_inv cb_RecordFailure_inv)

lemma cb_run_inv: "cb_inv cb \<Longrightarrow> cb_inv (cb_run evs cb)"
  by (induction evs arbitrary: cb) (simp_all add: cb_apply_inv)

section \<open>Opening\<close>

lemma cb_failures_below:
  assumes "cb_state cb = StateClosed" and "failures cb + int (length ts) < MaxFailures (cb_cfg cb)"
  shows "cb_state (cb_run (map CallFailure ts) cb) = StateClosed
           \<and> failures (cb_run (map CallFailure ts) cb) = failures cb + int (length ts)
           \<and> cb_cfg (cb_run (map CallFailure ts) cb) = cb_cfg cb"
  using assms
proof (induction ts arbitrary: cb)
  case (Cons t ts)
  let ?cb = "cb_RecordFailure t cb"
  from Cons.prems have st: "cb_state ?cb = StateClosed" "failures ?cb = failures cb + 1"
    by (auto simp: cb_defs)
  from Cons.prems st have "failures ?cb + int (length ts) < MaxFailures (cb_cfg ?cb)"
    by simp
  from Cons.IH [OF st(1) this] st show ?case
    by auto
qed simp

lemma cb_failure_trips:
  assumes "cb_state cb = StateClosed" and "failures cb + 1 = MaxFailures (cb_cfg cb)"
  shows "cb_state (cb_RecordFailure t cb) = StateOpen \<and> lastFailure (cb_RecordFailure t cb) = t"
  using assms by (simp add: cb_defs)

section \<open>Interleavings around the callback\<close>

text \<open>
  \<open>transition\<close> releases the mutex while the callback runs. In \<open>RecordSuccess\<close> and
  \<open>RecordFailure\<close> the transition is the last action, so their bodies stay atomic; in
  \<open>Allow\<close> the assignment \<open>halfOpenReq = 1\<close> comes after it. The system state counts the
  \<open>Allow\<close> calls that wait for the callback to return, and the probes: the calls admitted
  since the breaker last left \<open>StateOpen\<close>.
\<close>

record cb_sys =
  brk :: CircuitBreaker
  resuming :: nat
  probes :: nat

datatype cb_label = LAllow instant | LResume | LSuccess | LFailure instant

definition cb_times_out :: "instant \<Rightarrow> CircuitBreaker \<Rightarrow> bool" where
  "cb_times_out now cb \<longleftrightarrow>
     cb_state cb = StateOpen \<and> now - lastFailure cb \<ge> OpenTimeout (cb_cfg cb)"

fun cb_do :: "cb_label \<Rightarrow> cb_sys \<Rightarrow> cb_sys option" where
  "cb_do (LAllow now) s =
     (if cb_times_out now (brk s) \<and> OnStateChange (cb_cfg (brk s))
      then Some (s\<lparr>brk := cb_transition StateHalfOpen (brk s), resuming := Suc (resuming s),
                   probes := 0\<rparr>)
      else Some (s\<lparr>brk := snd (cb_Allow now (brk s)),
                   probes := (if cb_times_out now (brk s) then 1
                              else if cb_state (brk s) = StateHalfOpen \<and> fst (cb_Allow now (brk s))
                              then Suc (probes s) else probes s)\<rparr>))"
| "cb_do LResume s =
     (if resuming s = 0 then None
      else Some (s\<lparr>brk := (brk s)\<lparr>halfOpenReq := 1\<rparr>, resuming := resuming s - 1,
                   probes := Suc (probes s)\<rparr>))"
| "cb_do LSuccess s = Some (s\<lparr>brk := cb_RecordSuccess (brk s)\<rparr>)"
| "cb_do (LFailure now) s = Some (s\<lparr>brk := cb_RecordFailure now (brk s)\<rparr>)"

inductive cb_reach :: "string \<Rightarrow> cb_Config \<Rightarrow> cb_sys \<Rightarrow> bool" for nm cfg where
  cb_start: "cb_reach nm cfg \<lparr>brk = cb_New nm cfg, resuming = 0, probes = 0\<rparr>"
| cb_step: "cb_reach nm cfg s \<Longrightarrow> cb_do l s = Some t \<Longrightarrow> cb_reach nm cfg t"

fun cb_dos :: "cb_label list \<Rightarrow> cb_sys \<Rightarrow> cb_sys option" where
  "cb_dos [] s = Some s"
| "cb_dos (l # ls) s = (case cb_do l s of None \<Rightarrow> None | Some t \<Rightarrow> cb_dos ls t)"

lemma cb_reach_dos: "cb_reach nm cfg s \<Longrightarrow> cb_dos ls s = Some t \<Longrightarrow> cb_reach nm cfg t"
  by (induction ls arbitrary: s) (auto split: option.splits intro: cb_step)

lemma cb_RecordSuccess_half:
  "cb_state (cb_RecordSuccess cb) = StateHalfOpen \<Longrightarrow>
     cb_state cb = StateHalfOpen \<and> halfOpenReq (cb_RecordSuccess cb) = halfOpenReq cb"
  by (auto simp: cb_defs split: if_splits)

lemma cb_RecordFailure_not_half: "cb_state (cb_RecordFailure now cb) \<noteq> StateHalfOpen"
  by (cases "cb_state cb") (auto simp: cb_defs)

lemma cb_reach_no_callback:
  assumes "cb_reach nm cfg s" and "\<not> OnStateChange cfg"
  shows "cb_inv (brk s) \<and> resuming s = 0 \<and> \<not> OnStateChange (cb_cfg (brk s))
           \<and> (cb_state (brk s) = StateHalfOpen \<longrightarrow> int (probes s) = halfOpenReq (brk s))"
  using assms
proof (induction rule: cb_reach.induct)
  case cb_start
  then show ?case
    using cb_New_inv [of nm cfg]
    by (auto simp: cb_New_def Let_def)
next
  case (cb_step s l t)
  then have IH: "cb_inv (brk s)" "resuming s = 0" "\<not> OnStateChange (cb_cfg (brk s))"
    "cb_state (brk s) = StateHalfOpen \<longrightarrow> int (probes s) = halfOpenReq (brk s)"
    by auto
  show ?case
  proof (cases l)
    case (LAllow now)
    with cb_step.hyps(2) IH cb_Allow_inv [OF IH(1), of now] show ?thesis
      by (auto simp: cb_times_out_def cb_defs split: State.splits if_splits)
  next
    case LResume
    with cb_step.hyps(2) IH show ?thesis by simp
  next
    case LSuccess
    with cb_step.hyps(2) IH cb_RecordSuccess_inv [OF IH(1)] show ?thesis
      using cb_RecordSuccess_half [of "brk s"] by auto
  next
    case (LFailure now)
    with cb_step.hyps(2) IH cb_RecordFailure_inv [OF IH(1), of now] show ?thesis
      by (auto simp: cb_RecordFailure_not_half)
  qed
qed

section \<open>Calls through the breaker\<close>

text \<open>The contract a caller of \<open>Execute\<close> relies on: the guarded call runs at most once, its
  result is returned as it is, and a rejection leaves the caller's state alone.\<close>

locale call_guard =
  fixes guard :: "('s \<Rightarrow> go_error option \<times> 's) \<Rightarrow> 'b \<times> 's \<Rightarrow> go_error option \<times> 'b \<times> 's"
  assumes guard_runs_or_rejects:
    "guard fn (b, s) = (e, b', s') \<Longrightarrow>
       (e, s') = fn s \<or> (s' = s \<and> (\<exists>m. e = Some (Status Unavailable m None)))"
begin

lemma guard_success: "guard fn (b, s) = (None, b', s') \<Longrightarrow> fn s = (None, s')"
  using guard_runs_or_rejects [of fn b s None b' s'] by auto

lemma guard_pure_error:
  assumes "guard fn (b, s) = (e, b', s')" and "\<And>x. snd (fn x) = x"
  shows "s' = s"
  using guard_runs_or_rejects [OF assms(1)] assms(2) [of s] by (auto dest: arg_cong [of _ _ snd])

end

interpretation cbg: call_guard "cb_Execute FromError t1 t2" for FromError t1 t2
  by unfold_locales
    (auto simp: cb_Execute_def split: prod.splits bool.splits option.splits if_splits)

fun cb_calls ::
  "(go_error \<Rightarrow> code option) \<Rightarrow> (instant \<times> instant \<times> ('s \<Rightarrow> go_error option \<times> 's)) list
   \<Rightarrow> CircuitBreaker \<times> 's \<Rightarrow> go_error option list \<times> CircuitBreaker \<times> 's" where
  "cb_calls FE [] x = ([], x)"
| "cb_calls FE ((t1, t2, fn) # cs) x =
     (case cb_Execute FE t1 t2 fn x of
        (e, x') \<Rightarrow> (case cb_calls FE cs x' of (es, x'') \<Rightarrow> (e # es, x'')))"

definition cb_rejection :: "CircuitBreaker \<Rightarrow> go_error option" where
  "cb_rejection cb =
     Some (Status Unavailable (''circuit breaker ['' @ cb_name cb @ ''] is OPEN'') None)"

lemma cb_Execute_rejects:
  "\<not> fst (cb_Allow t1 cb) \<Longrightarrow> cb_Execute FE t1 t2 fn (cb, s) = (cb_rejection cb, cb, s)"
  by (auto simp: cb_Execute_def cb_rejection_def cb_Allow_def split: State.splits if_splits)

lemma cb_calls_rejected:
  assumes "\<forall>(t1, t2, fn) \<in> set cs. \<not> fst (cb_Allow t1 cb)"
  shows "cb_calls FE cs (cb, s) = (replicate (length cs) (cb_rejection cb), cb, s)"
  using assms
proof (induction cs)
  case (Cons c cs)
  obtain t1 t2 fn where c: "c = (t1, t2, fn)" by (cases c)
  with Cons.prems have "\<not> fst (cb_Allow t1 cb)" by simp
  from cb_Execute_rejects [OF this, of FE t2 fn s] Cons c show ?case by simp
qed simp

lemma cb_probe_success:
  assumes "cb_inv cb" "cb_state cb = StateHalfOpen" "halfOpenReq cb = successes cb"
    and "fn s = (None, s')"
  shows "\<exists>cb'. cb_Execute FE t1 t2 fn (cb, s) = (None, cb', s') \<and> failures cb' = 0
    \<and> cb_cfg cb' = cb_cfg cb
    \<and> (if successes cb + 1 = HalfOpenMax (cb_cfg cb) then cb_state cb' = StateClosed
        else cb_state cb' = StateHalfOpen \<and> successes cb' = successes cb + 1
          \<and> halfOpenReq cb' = successes cb' \<and> cb_inv cb')"
  using assms by (auto simp: cb_Execute_def cb_defs cb_inv_def)

lemma cb_probes_close:
  assumes "cb_inv cb" "cb_state cb = StateHalfOpen" "halfOpenReq cb = successes cb"
    and "int (length cs) + successes cb = HalfOpenMax (cb_cfg cb)"
    and "\<forall>(t1, t2, fn) \<in> set cs. \<forall>s. fst (fn s) = None"
  shows "fst (cb_calls FE cs (cb, s)) = replicate (length cs) None
    \<and> cb_state (fst (snd (cb_calls FE cs (cb, s)))) = StateClosed
    \<and> failures (fst (snd (cb_calls FE cs (cb, s)))) = 0"
  using assms
proof (induction cs arbitrary: cb s)
  case Nil
  then show ?case by (auto simp: cb_inv_def)
next
  case (Cons c cs)
  obtain t1 t2 fn where c: "c = (t1, t2, fn)" by (cases c)
  with Cons.prems have "fst (fn s) = None" by simp
  then obtain s' where fn: "fn s = (None, s')" by (cases "fn s") auto
  obtain cb' where cb': "cb_Execute FE t1 t2 fn (cb, s) = (None, cb', s')" "failures cb' = 0"
    "cb_cfg cb' = cb_cfg cb"
    "if successes cb + 1 = HalfOpenMax (cb_cfg cb) then cb_state cb' = StateClosed
     else cb_state cb' = StateHalfOpen \<and> successes cb' = successes cb + 1
       \<and> halfOpenReq cb' = successes cb' \<and> cb_inv cb'"
    using cb_probe_success [where fn = fn and s = s, OF Cons.prems(1-3) fn] by blast
  show ?case
  proof (cases cs)
    case Nil
    with cb' c Cons.prems show ?thesis by simp
  next
    case (Cons d ds)
    with cb' Cons.prems have "cb_state cb' = StateHalfOpen" "successes cb' = successes cb + 1"
      "halfOpenReq cb' = successes cb'" "cb_inv cb'"
      by (auto split: if_splits)
    with Cons.IH [of cb' s'] cb' c Cons.prems show ?thesis
      by (auto split: prod.splits)
  qed
qed

lemma cb_first_probe:
  assumes "cb_inv cb" "cb_state cb = StateOpen" "lastFailure cb + OpenTimeout (cb_cfg cb) \<le> t1"
    and "fn s = (None, s')"
  shows "\<exists>cb'. cb_Execute FE t1 t2 fn (cb, s) = (None, cb', s') \<and> failures cb' = 0
    \<and> cb_cfg cb' = cb_cfg cb
    \<and> (if HalfOpenMax (cb_cfg cb) = 1 then cb_state cb' = StateClosed
        else cb_state cb' = StateHalfOpen \<and> successes cb' = 1 \<and> halfOpenReq cb' = 1 \<and> cb_inv cb')"
  using assms by (auto simp: cb_Execute_def cb_defs cb_inv_def)

section \<open>Properties\<close>

text \<open>C17. Every breaker that \<open>New\<close> builds keeps its invariant under every history of
  \<open>Allow\<close>, \<open>RecordSuccess\<close> and \<open>RecordFailure\<close> calls: the limits are positive, a closed
  breaker has fewer than \<open>MaxFailures\<close> failures, and a half-open one has admitted between one
  and \<open>HalfOpenMax\<close> probes and counted fewer than \<open>HalfOpenMax\<close> successes.\<close>

theorem cb_history_invariant: "cb_inv (cb_run evs (cb_New nm cfg))"
  by (rule cb_run_inv [OF cb_New_inv])



text \<open>While a breaker is open and its timeout has not passed, every call is rejected with
  \<open>Unavailable\<close>: the guarded functions are not run and neither the breaker nor the caller's state
  changes, however many calls are made.\<close>

theorem cb_open_fails_fast:
  assumes "cb_state cb = StateOpen"
    and "\<forall>(t1, t2, fn) \<in> set cs. t1 < lastFailure cb + OpenTimeout (cb_cfg cb)"
  shows "cb_calls FE cs (cb, s) = (replicate (length cs) (cb_rejection cb), cb, s)"
  using assms by (intro cb_calls_rejected) (auto simp: cb_Allow_def)

theorem cb_open_fails_fast_witness:
  "let cb = (cb_New ''id'' cb_DefaultConfig)\<lparr>cb_state := StateOpen, lastFailure := 7\<rparr> in
   cb_calls status_code [(8, 9, \<lambda>n. (None, Suc n)), (10, 11, \<lambda>n. (None, Suc n))] (cb, 0)
     = ([cb_rejection cb, cb_rejection cb], cb, 0)"
  using cb_open_fails_fast
    [of "(cb_New ''id'' cb_DefaultConfig)\<lparr>cb_state := StateOpen, lastFailure := 7\<rparr>"
        "[(8, 9, \<lambda>n. (None, Suc n)), (10, 11, \<lambda>n. (None, Suc n))]" status_code 0]
  by (simp add: cb_New_def cb_DefaultConfig_def Let_def time_Second_def numeral_2_eq_2)

text \<open>C27. Recovery: once the timeout of an open breaker has passed, \<open>HalfOpenMax\<close> calls that succeed
  one after the other are all admitted and close it, with the failure count back at zero.\<close>

theorem cb_recovers:
  assumes "cb_inv cb" and "cb_state cb = StateOpen"
    and "lastFailure cb + OpenTimeout (cb_cfg cb) \<le> t1"
    and "int (length cs) + 1 = HalfOpenMax (cb_cfg cb)"
    and "\<forall>(t, t', fn) \<in> set ((t1, t2, fn1) # cs). \<forall>s. fst (fn s) = None"
  shows "\<exists>cb' s'. cb_calls FE ((t1, t2, fn1) # cs) (cb, s) = (replicate (length cs + 1) None, cb', s')
           \<and> cb_CurrentState cb' = StateClosed \<and> failures cb' = 0"
proof -
  have "fst (fn1 s) = None" using assms(5) by simp
  then obtain s1 where fn: "fn1 s = (None, s1)" by (cases "fn1 s") auto
  obtain cb1 where cb1: "cb_Execute FE t1 t2 fn1 (cb, s) = (None, cb1, s1)" "failures cb1 = 0"
    "cb_cfg cb1 = cb_cfg cb"
    "if HalfOpenMax (cb_cfg cb) = 1 then cb_state cb1 = StateClosed
     else cb_state cb1 = StateHalfOpen \<and> successes cb1 = 1 \<and> halfOpenReq cb1 = 1 \<and> cb_inv cb1"
    using cb_first_probe [where fn = fn1 and s = s, OF assms(1-3) fn] by blast
  obtain es cb' s' where rest: "cb_calls FE cs (cb1, s1) = (es, cb', s')"
    by (cases "cb_calls FE cs (cb1, s1)") auto
  show ?thesis
  proof (cases cs)
    case Nil
    with cb1 assms show ?thesis by (simp add: cb_CurrentState_def)
  next
    case (Cons d ds)
    with cb1 assms have "cb_inv cb1" "cb_state cb1 = StateHalfOpen" "halfOpenReq cb1 = successes cb1"
      "int (length cs) + successes cb1 = HalfOpenMax (cb_cfg cb1)"
      by (auto split: if_splits)
    from cb_probes_close [OF this, of FE s1] assms(5) rest cb1(1) show ?thesis
      by (simp add: cb_CurrentState_def)
  qed
qed

theorem cb_recovers_witness:
  "\<exists>cb' s'. cb_calls status_code [(30000000007, 30000000008, \<lambda>n. (None, n + 1))]
      ((cb_New ''id'' cb_DefaultConfig)\<lparr>cb_state := StateOpen, failures := 5, lastFailure := 7\<rparr>, 0 :: nat)
      = ([None], cb', s') \<and> cb_CurrentState cb' = StateClosed \<and> failures cb' = 0"
  using cb_recovers
    [of "(cb_New ''id'' cb_DefaultConfig)\<lparr>cb_state := StateOpen, failures := 5, lastFailure := 7\<rparr>"
        30000000007 "[]" 30000000008 "\<lambda>n::nat. (None, n + 1)" status_code 0]
  by (simp add: cb_New_def cb_DefaultConfig_def Let_def time_Second_def cb_inv_def)

text \<open>C28. The ignored outcome: when \<open>HalfOpenMax\<close> is 1 and the probe that follows the timeout ends
  with \<open>Canceled\<close> or \<open>DeadlineExceeded\<close>, \<open>Execute\<close> records neither success nor failure, the
  probe's slot is never given back, and every later call is rejected whatever the time: the
  breaker does not leave \<open>StateHalfOpen\<close> again through \<open>Execute\<close>.\<close>

theorem cb_cancelled_probe_blocks:
  assumes "cb_state cb = StateOpen" and "HalfOpenMax (cb_cfg cb) = 1"
    and "lastFailure cb + OpenTimeout (cb_cfg cb) \<le> t1"
    and "fn s = (Some e, s1)" and "FE e = Some Canceled \<or> FE e = Some DeadlineExceeded"
  shows "\<exists>cb1. cb_Execute FE t1 t2 fn (cb, s) = (Some e, cb1, s1)
    \<and> cb_CurrentState cb1 = StateHalfOpen
    \<and> cb_calls FE cs (cb1, s1) = (replicate (length cs) (cb_rejection cb1), cb1, s1)"
proof -
  let ?cb1 = "(cb_transition StateHalfOpen cb)\<lparr>halfOpenReq := 1\<rparr>"
  have "cb_Execute FE t1 t2 fn (cb, s) = (Some e, ?cb1, s1)"
    using assms by (auto simp: cb_Execute_def cb_Allow_def)
  moreover have half: "cb_state ?cb1 = StateHalfOpen"
    using assms by (simp add: cb_transition_def Let_def)
  moreover from half have "\<forall>(t, t', fn) \<in> set cs. \<not> fst (cb_Allow t ?cb1)"
    using assms by (auto simp: cb_Allow_def)
  then have "cb_calls FE cs (?cb1, s1) = (replicate (length cs) (cb_rejection ?cb1), ?cb1, s1)"
    by (rule cb_calls_rejected)
  ultimately show ?thesis by (auto simp: cb_CurrentState_def)
qed

theorem cb_cancelled_probe_blocks_witness:
  "let cb = (cb_New ''id'' cb_DefaultConfig)\<lparr>cb_state := StateOpen, failures := 5, lastFailure := 7\<rparr> in
   \<exists>cb1. cb_Execute status_code 40000000000 40000000001
      (\<lambda>n. (Some (Status DeadlineExceeded '''' None), n)) (cb, 0 :: nat)
      = (Some (Status DeadlineExceeded '''' None), cb1, 0)
    \<and> cb_CurrentState cb1 = StateHalfOpen
    \<and> cb_calls status_code [(90000000000, 90000000001, \<lambda>n. (None, n + 1))] (cb1, 0 :: nat)
        = ([cb_rejection cb1], cb1, 0)"
  using cb_cancelled_probe_blocks
    [of "(cb_New ''id'' cb_DefaultConfig)\<lparr>cb_state := StateOpen, failures := 5, lastFailure := 7\<rparr>"
        40000000000 "\<lambda>n::nat. (Some (Status DeadlineExceeded '''' None), n)" 0
        "Status DeadlineExceeded '''' None" 0 status_code 40000000001
        "[(90000000000, 90000000001, \<lambda>n. (None, n + 1))]"]
  by (simp add: cb_New_def cb_DefaultConfig_def Let_def time_Second_def)


definition cb_trip :: "cb_label list" where
  "cb_trip = [LFailure 1, LFailure 2, LFailure 3, LFailure 4, LFailure 5]"

lemma cb_probe_example:
  "\<exists>s. cb_reach ''id'' cb_DefaultConfig s \<and> cb_state (brk s) = StateHalfOpen"
proof -
  let ?s0 = "\<lparr>brk = cb_New ''id'' cb_DefaultConfig, resuming = 0, probes = 0\<rparr>"
  have "\<exists>s. cb_dos (cb_trip @ [LAllow 40000000000]) ?s0 = Some s \<and> cb_state (brk s) = StateHalfOpen"
    by (simp add: cb_trip_def cb_New_def cb_DefaultConfig_def cb_defs time_Second_def cb_times_out_def)
  then show ?thesis
    using cb_reach_dos [OF cb_start] by blast
qed


text \<open>With a callback the limit can be exceeded: \<open>transition\<close> gives up the mutex before
  \<open>Allow\<close> sets \<open>halfOpenReq\<close>, and a second call that arrives in that window is admitted too.
  With the agent's limits (five failures, one probe) a reachable state has two probes.\<close>

theorem cb_callback_window_admits_two:
  "\<exists>s. cb_reach nm (cb_DefaultConfig\<lparr>OnStateChange := True\<rparr>) s
     \<and> cb_state (brk s) = StateHalfOpen \<and> HalfOpenMax (cb_cfg (brk s)) = 1 \<and> probes s = 2"
proof -
  let ?cfg = "cb_DefaultConfig\<lparr>OnStateChange := True\<rparr>"
  let ?s0 = "\<lparr>brk = cb_New nm ?cfg, resuming = 0, probes = 0\<rparr>"
  have "\<exists>s. cb_dos (cb_trip @ [LAllow 40000000000, LAllow 40000000001, LResume]) ?s0 = Some s
      \<and> cb_state (brk s) = StateHalfOpen \<and> HalfOpenMax (cb_cfg (brk s)) = 1 \<and> probes s = 2"
    by (simp add: cb_trip_def cb_New_def cb_DefaultConfig_def cb_defs time_Second_def cb_times_out_def)
  then show ?thesis
    using cb_reach_dos [OF cb_start] by blast
qed

end
