(* ===== verification/Rate_Limiter.thy ===== *)
theory Rate_Limiter
  imports Prelude
begin

text \<open>
  The per-client request limiter of \<open>src/pkg/ratelimit/ratelimit.go\<close>, the first interceptor
  of all three services. The limiter keeps one counting window per client key; \<open>Allow\<close> and
  the periodic \<open>cleanup\<close> hold the mutex for their whole bodies, so each is one function on
  the limiter. The background goroutine that \<open>New\<close> starts calls \<open>cleanup\<close> once per interval:
  a history is any interleaving of \<open>Allow\<close> and \<open>cleanup\<close> steps in clock order.
\<close>

section \<open>Data and operations\<close>

record window =
  win_count :: int
  win_resetAt :: instant

record Limiter =
  clients :: "string \<rightharpoonup> window"
  maxReqs :: int
  interval :: duration

definition rl_New :: "int \<Rightarrow> duration \<Rightarrow> Limiter" where
  "rl_New mx iv = \<lparr>clients = Map.empty, maxReqs = mx, interval = iv\<rparr>"

definition rl_Allow :: "instant \<Rightarrow> string \<Rightarrow> Limiter \<Rightarrow> bool \<times> Limiter" where
  "rl_Allow now clientIP l =
     (let fresh = l\<lparr>clients := (clients l)(clientIP \<mapsto>
                     \<lparr>win_count = 1, win_resetAt = now + interval l\<rparr>)\<rparr> in
      case clients l clientIP of
        None \<Rightarrow> (True, fresh)
      | Some w \<Rightarrow>
          if now > win_resetAt w then (True, fresh)
          else if win_count w \<ge> maxReqs l then (False, l)
          else (True, l\<lparr>clients := (clients l)(clientIP \<mapsto> w\<lparr>win_count := win_count w + 1\<rparr>)\<rparr>))"

definition rl_cleanup :: "instant \<Rightarrow> Limiter \<Rightarrow> Limiter" where
  "rl_cleanup now l =
     l\<lparr>clients := (\<lambda>ip. case clients l ip of
                     None \<Rightarrow> None
                   | Some w \<Rightarrow> if now > win_resetAt w then None else Some w)\<rparr>"

text \<open>
  \<open>UnaryInterceptor\<close>. \<open>peer_addr\<close> is what \<open>peer.FromContext\<close> finds in the call's context, the
  remote address as a string; the handler acts on a state of its own.
\<close>

definition rl_UnaryInterceptor ::
  "instant \<Rightarrow> string option \<Rightarrow> ('q \<Rightarrow> 's \<Rightarrow> 'a result \<times> 's) \<Rightarrow> 'q
   \<Rightarrow> Limiter \<times> 's \<Rightarrow> 'a result \<times> Limiter \<times> 's" where
  "rl_UnaryInterceptor now peer_addr handler req = (\<lambda>(l, s).
     (let clientIP = (case peer_addr of Some a \<Rightarrow> a | None \<Rightarrow> ''unknown'') in
      case rl_Allow now clientIP l of
        (False, l1) \<Rightarrow> (Inl (Status ResourceExhausted ''rate limit exceeded'' None), l1, s)
      | (True, l1) \<Rightarrow> (case handler req s of (r, s1) \<Rightarrow> (r, l1, s1))))"

lemmas rl_defs = rl_Allow_def rl_cleanup_def Let_def

lemma rl_const [simp]:
  "maxReqs (snd (rl_Allow now ip l)) = maxReqs l"
  "interval (snd (rl_Allow now ip l)) = interval l"
  "maxReqs (rl_cleanup now l) = maxReqs l"
  "interval (rl_cleanup now l) = interval l"
  by (auto simp: rl_defs split: option.splits)

lemma rl_Allow_other [simp]: "ip' \<noteq> ip \<Longrightarrow> clients (snd (rl_Allow now ip l)) ip' = clients l ip'"
  by (auto simp: rl_defs split: option.splits)

section \<open>Histories\<close>

datatype rl_event = Req instant string | Clean instant

fun ev_time :: "rl_event \<Rightarrow> instant" where
  "ev_time (Req t _) = t"
| "ev_time (Clean t) = t"

fun is_req :: "rl_event \<Rightarrow> bool" where
  "is_req (Req _ _) = True"
| "is_req (Clean _) = False"

text \<open>The answers a history of events gets, in order, with the limiter at its end.\<close>

fun rl_run :: "rl_event list \<Rightarrow> Limiter \<Rightarrow> bool list \<times> Limiter" where
  "rl_run [] l = ([], l)"
| "rl_run (Req t ip # evs) l =
     (case rl_Allow t ip l of (b, l1) \<Rightarrow> (case rl_run evs l1 of (bs, l2) \<Rightarrow> (b # bs, l2)))"
| "rl_run (Clean t # evs) l = rl_run evs (rl_cleanup t l)"

abbreviation rl_answers :: "rl_event list \<Rightarrow> Limiter \<Rightarrow> bool list" where
  "rl_answers evs l \<equiv> fst (rl_run evs l)"

abbreviation clock_ordered :: "rl_event list \<Rightarrow> bool" where
  "clock_ordered evs \<equiv> sorted_wrt (\<lambda>a b. ev_time a \<le> ev_time b) evs"

section \<open>Cleanup cannot be observed\<close>

text \<open>Two limiters agree from time \<open>t\<close> on when they have the same limits and their windows
  differ only where one of them is missing and the other is past its end at \<open>t\<close>.\<close>

definition rl_sim :: "instant \<Rightarrow> Limiter \<Rightarrow> Limiter \<Rightarrow> bool" where
  "rl_sim t l l' \<longleftrightarrow> maxReqs l = maxReqs l' \<and> interval l = interval l'
     \<and> (\<forall>ip. clients l ip = clients l' ip
          \<or> (clients l' ip = None \<and> (\<exists>w. clients l ip = Some w \<and> win_resetAt w < t)))"

lemma rl_sim_refl: "rl_sim t l l"
  by (simp add: rl_sim_def)

lemma rl_sim_later: "rl_sim t l l' \<Longrightarrow> t \<le> t' \<Longrightarrow> rl_sim t' l l'"
  unfolding rl_sim_def by (meson order.strict_trans2)

lemma rl_sim_cleanup:
  assumes "rl_sim t l l'"
  shows "rl_sim t l (rl_cleanup t l')"
proof -
  have "clients l ip = clients (rl_cleanup t l') ip
      \<or> (clients (rl_cleanup t l') ip = None \<and> (\<exists>w. clients l ip = Some w \<and> win_resetAt w < t))" for ip
    using assms unfolding rl_sim_def rl_cleanup_def
    by (cases "clients l' ip") (auto dest: spec [of _ ip])
  with assms show ?thesis by (simp add: rl_sim_def)
qed

lemma rl_sim_Allow:
  assumes "rl_sim t l l'"
  shows "fst (rl_Allow t ip l) = fst (rl_Allow t ip l') \<and>
         rl_sim t (snd (rl_Allow t ip l)) (snd (rl_Allow t ip l'))"
proof (cases "clients l ip = clients l' ip")
  case True
  with assms show ?thesis
    by (auto simp: rl_sim_def rl_defs split: option.splits)
next
  case False
  with assms obtain w where "clients l ip = Some w" "win_resetAt w < t" "clients l' ip = None"
    by (auto simp: rl_sim_def)
  with assms show ?thesis
    by (auto simp: rl_sim_def rl_defs)
qed

lemma rl_run_sim:
  assumes "rl_sim t l l'" "clock_ordered evs" "\<forall>e \<in> set evs. t \<le> ev_time e"
  shows "rl_answers (filter is_req evs) l = rl_answers evs l'"
  using assms
proof (induction evs arbitrary: t l l')
  case (Cons e evs)
  from Cons.prems have sim: "rl_sim (ev_time e) l l'"
    by (auto intro: rl_sim_later)
  from Cons.prems have rest: "clock_ordered evs" "\<forall>f \<in> set evs. ev_time e \<le> ev_time f"
    by auto
  show ?case
  proof (cases e)
    case (Req t' ip)
    with rl_sim_Allow [OF sim, of ip] Cons.IH [OF _ rest] show ?thesis
      by (auto simp: split_beta)
  next
    case (Clean t')
    with rl_sim_cleanup [OF sim] Cons.IH [OF _ rest] show ?thesis
      by auto
  qed
qed simp

section \<open>Counting inside one window\<close>

lemma rl_window_count:
  assumes "clients l ip = Some w" "\<forall>t \<in> set ts. t \<le> win_resetAt w" "win_count w \<le> maxReqs l"
  shows "length (filter id (rl_answers (map (\<lambda>t. Req t ip) ts) l))
           = min (length ts) (nat (maxReqs l - win_count w))"
  using assms
proof (induction ts arbitrary: l w)
  case (Cons t ts)
  show ?case
  proof (cases "win_count w \<ge> maxReqs l")
    case True
    with Cons.prems have "rl_Allow t ip l = (False, l)" by (simp add: rl_defs)
    with Cons.IH [OF Cons.prems(1)] Cons.prems True show ?thesis
      by (simp add: split_beta)
  next
    case False
    let ?w = "w\<lparr>win_count := win_count w + 1\<rparr>"
    let ?l = "l\<lparr>clients := (clients l)(ip \<mapsto> ?w)\<rparr>"
    from False Cons.prems have "rl_Allow t ip l = (True, ?l)" by (simp add: rl_defs)
    with Cons.IH [of ?l ?w] Cons.prems False show ?thesis
      by (simp add: split_beta nat_diff_distrib')
  qed
qed simp

section \<open>Clients do not interfere\<close>

fun req_of :: "string \<Rightarrow> rl_event \<Rightarrow> bool" where
  "req_of ip (Req _ ip') = (ip' = ip)"
| "req_of ip (Clean _) = True"

text \<open>The answers given to one client, picked out of a history.\<close>

fun answers_to :: "string \<Rightarrow> rl_event list \<Rightarrow> bool list \<Rightarrow> bool list" where
  "answers_to ip (Req t ip' # evs) (b # bs) =
     (if ip' = ip then b # answers_to ip evs bs else answers_to ip evs bs)"
| "answers_to ip (Clean t # evs) bs = answers_to ip evs bs"
| "answers_to ip _ _ = []"

definition same_for :: "string \<Rightarrow> Limiter \<Rightarrow> Limiter \<Rightarrow> bool" where
  "same_for ip l l' \<longleftrightarrow> clients l ip = clients l' ip \<and> maxReqs l = maxReqs l' \<and> interval l = interval l'"

lemma same_for_Allow:
  assumes "same_for ip l l'"
  shows "fst (rl_Allow t ip l) = fst (rl_Allow t ip l')
    \<and> same_for ip (snd (rl_Allow t ip l)) (snd (rl_Allow t ip l'))"
  using assms by (auto simp: same_for_def rl_defs split: option.splits)

lemma same_for_other: "same_for ip l l' \<Longrightarrow> ip' \<noteq> ip \<Longrightarrow> same_for ip (snd (rl_Allow t ip' l)) l'"
  by (simp add: same_for_def)

lemma same_for_cleanup: "same_for ip l l' \<Longrightarrow> same_for ip (rl_cleanup t l) (rl_cleanup t l')"
  by (simp add: same_for_def rl_cleanup_def)

lemma rl_run_other_clients:
  "same_for ip l l' \<Longrightarrow> answers_to ip evs (rl_answers evs l) = rl_answers (filter (req_of ip) evs) l'"
proof (induction evs arbitrary: l l')
  case (Cons e evs)
  show ?case
  proof (cases e)
    case (Req t ip')
    show ?thesis
    proof (cases "ip' = ip")
      case True
      with Req Cons.IH same_for_Allow [OF Cons.prems, of t] show ?thesis
        by (simp add: split_beta)
    next
      case False
      with Req Cons.IH [OF same_for_other [OF Cons.prems False]] show ?thesis
        by (simp add: split_beta)
    qed
  next
    case (Clean t)
    with Cons.IH [OF same_for_cleanup [OF Cons.prems]] show ?thesis by simp
  qed
qed simp

section \<open>Filling a window\<close>

definition put_window :: "string \<Rightarrow> int \<Rightarrow> instant \<Rightarrow> Limiter \<Rightarrow> Limiter" where
  "put_window ip c r l = l\<lparr>clients := (clients l)(ip \<mapsto> \<lparr>win_count = c, win_resetAt = r\<rparr>)\<rparr>"

lemma put_window_simps [simp]:
  "clients (put_window ip c r l) ip = Some \<lparr>win_count = c, win_resetAt = r\<rparr>"
  "maxReqs (put_window ip c r l) = maxReqs l"
  "interval (put_window ip c r l) = interval l"
  "put_window ip c r (put_window ip c' r' l) = put_window ip c r l"
  by (simp_all add: put_window_def)

lemma rl_Allow_counts:
  "u \<le> r \<Longrightarrow> c < maxReqs l \<Longrightarrow> rl_Allow u ip (put_window ip c r l) = (True, put_window ip (c + 1) r l)"
  by (simp add: put_window_def rl_Allow_def)

lemma rl_fill_window:
  assumes "u \<le> r" "c + int k \<le> maxReqs l"
  shows "rl_run (replicate k (Req u ip)) (put_window ip c r l)
    = (replicate k True, put_window ip (c + int k) r l)"
  using assms
proof (induction k arbitrary: c)
  case (Suc k)
  then show ?case
    using Suc.IH [of "c + 1"] by (simp add: rl_Allow_counts add.assoc)
qed simp

lemma rl_open_window:
  assumes "clients l ip = None \<or> (\<exists>w. clients l ip = Some w \<and> win_resetAt w < t)"
  shows "rl_Allow t ip l = (True, put_window ip 1 (t + interval l) l)"
  using assms by (auto simp: rl_defs put_window_def)

lemma rl_burst:
  assumes "clients l ip = None \<or> (\<exists>w. clients l ip = Some w \<and> win_resetAt w < t)"
    and "0 \<le> interval l" and "maxReqs l = 1 + int m"
  shows "rl_run (replicate (Suc m) (Req t ip)) l
    = (replicate (Suc m) True, put_window ip (1 + int m) (t + interval l) l)"
  using rl_open_window [OF assms(1)] rl_fill_window [of t "t + interval l" 1 m l ip] assms(2,3)
  by simp

lemma rl_run_append:
  "rl_run (xs @ ys) l =
     (case rl_run xs l of (bs, l1) \<Rightarrow> (case rl_run ys l1 of (cs, l2) \<Rightarrow> (bs @ cs, l2)))"
proof (induction xs arbitrary: l)
  case (Cons e xs)
  then show ?case by (cases e) (auto simp: split_beta)
qed simp

section \<open>Properties\<close>

text \<open>C10. Within one window a client gets \<open>maxReqs\<close> requests and no more: of any list of requests
  that follow the one that opened the window and come before its end, exactly the first
  \<open>maxReqs - 1\<close> are admitted.\<close>

theorem rl_window_limit:
  assumes "1 \<le> maxReqs l"
    and "clients l ip = None \<or> (\<exists>w. clients l ip = Some w \<and> win_resetAt w < t)"
    and "\<forall>u \<in> set ts. u \<le> t + interval l"
  shows "length (filter id (rl_answers (map (\<lambda>u. Req u ip) (t # ts)) l))
           = min (length ts + 1) (nat (maxReqs l))"
proof -
  let ?w = "\<lparr>win_count = 1, win_resetAt = t + interval l\<rparr>"
  let ?l = "l\<lparr>clients := (clients l)(ip \<mapsto> ?w)\<rparr>"
  have "rl_Allow t ip l = (True, ?l)"
    using assms(2) by (auto simp: rl_defs)
  moreover have "length (filter id (rl_answers (map (\<lambda>u. Req u ip) ts) ?l))
      = min (length ts) (nat (maxReqs l - 1))"
    using rl_window_count [of ?l ip ?w ts] assms by simp
  ultimately show ?thesis
    using assms(1) by (simp add: split_beta)
qed

theorem rl_window_limit_witness:
  "length (filter id (rl_answers (map (\<lambda>u. Req u ''a'') [0, 1, 2, 3]) (rl_New 2 10))) = 2"
  using rl_window_limit [of "rl_New 2 10" "''a''" 0 "[1, 2, 3]"]
  by (simp add: rl_New_def)

text \<open>C30. The cleanup goroutine is invisible: deleting expired windows at any moments of a history
  never changes an answer that \<open>Allow\<close> gives.\<close>

theorem rl_cleanup_invisible:
  assumes "clock_ordered evs"
  shows "rl_answers evs l = rl_answers (filter is_req evs) l"
proof (cases evs)
  case (Cons e es)
  with assms have "\<forall>f \<in> set evs. ev_time e \<le> ev_time f" by auto
  from rl_run_sim [OF rl_sim_refl assms this] show ?thesis by simp
qed simp

theorem rl_cleanup_invisible_witness:
  "rl_answers [Req 0 ''a'', Clean 5, Req 6 ''a'', Clean 20, Req 21 ''a''] (rl_New 1 10)
     = rl_answers [Req 0 ''a'', Req 6 ''a'', Req 21 ''a''] (rl_New 1 10)"
  using rl_cleanup_invisible [of "[Req 0 ''a'', Clean 5, Req 6 ''a'', Clean 20, Req 21 ''a'']" "rl_New 1 10"]
  by simp

text \<open>Clients do not affect each other: the answers one client gets in a history are those it
  would get alone, whatever requests other clients interleave.\<close>

theorem rl_clients_independent:
  "answers_to ip evs (rl_answers evs l) = rl_answers (filter (req_of ip) evs) l"
  by (rule rl_run_other_clients) (simp add: same_for_def)

text \<open>The window is fixed, not sliding: with a limit of \<open>n\<close> per interval, a client that opens
  a window at time 0, sends \<open>n - 1\<close> requests at the window's last instant and \<open>n\<close> more one
  nanosecond later has all \<open>2 n\<close> of them admitted, \<open>2 n - 1\<close> within that nanosecond.\<close>

theorem rl_boundary_burst:
  assumes "0 < n" and "0 < iv"
  shows "rl_answers (Req 0 ip # replicate (n - 1) (Req iv ip) @ replicate n (Req (iv + 1) ip))
           (rl_New (int n) iv) = replicate (2 * n) True"
proof -
  from assms(1) obtain m where n: "n = Suc m" by (cases n) auto
  let ?new = "rl_New (int n) iv"
  have new: "maxReqs ?new = 1 + int m" "interval ?new = iv" "clients ?new ip = None"
    by (simp_all add: rl_New_def n)
  have first: "rl_run (Req 0 ip # replicate m (Req iv ip)) ?new
      = (True # replicate m True, put_window ip (1 + int m) iv ?new)"
    using rl_open_window [of ?new ip 0] rl_fill_window [of iv iv 1 m ?new ip] new by simp
  have second: "rl_run (replicate n (Req (iv + 1) ip)) (put_window ip (1 + int m) iv ?new)
      = (replicate n True, put_window ip (1 + int m) (iv + 1 + iv) ?new)"
    using rl_burst [of "put_window ip (1 + int m) iv ?new" ip "iv + 1" m] new assms(2)
    by (simp add: n del: replicate_Suc)
  have "rl_run ((Req 0 ip # replicate m (Req iv ip)) @ replicate n (Req (iv + 1) ip)) ?new
      = (replicate (Suc m) True @ replicate n True, put_window ip (1 + int m) (iv + 1 + iv) ?new)"
    unfolding rl_run_append first prod.case second by simp
  moreover have "replicate (Suc m) True @ replicate n True = replicate (2 * n) True"
    by (simp only: n replicate_add [symmetric] mult_2)
  ultimately show ?thesis by (simp add: n)
qed

theorem rl_boundary_burst_witness:
  "rl_answers (Req 0 ''a'' # replicate 1 (Req 60 ''a'') @ replicate 2 (Req 61 ''a'')) (rl_New 2 60)
     = [True, True, True, True]"
  using rl_boundary_burst [of 2 60 "''a''"] by (simp add: numeral_eq_Suc)

text \<open>The interceptor refuses before the handler runs: a request beyond the limit is answered
  with \<open>ResourceExhausted\<close> and the handler's state is untouched; an admitted one returns exactly
  what the handler returns.\<close>

theorem rl_interceptor_gate:
  "rl_UnaryInterceptor now addr handler req (l, s) =
     (let ip = (case addr of Some a \<Rightarrow> a | None \<Rightarrow> ''unknown''); l1 = snd (rl_Allow now ip l) in
      if fst (rl_Allow now ip l) then (fst (handler req s), l1, snd (handler req s))
      else (Inl (Status ResourceExhausted ''rate limit exceeded'' None), l, s))"
  by (auto simp: rl_UnaryInterceptor_def rl_Allow_def Let_def split_beta split: option.splits)

end
