(* ===== verification/Net_IP.thy ===== *)
theory Net_IP
  imports Go_Std
begin

unbundle bit_operations_syntax

text \<open>
  The part of Go's package \<open>net\<close> that the address allocator and the agent use: addresses and
  masks as byte slices (four bytes for IPv4, sixteen for IPv6), \<open>To4\<close>, \<open>IPNet.Contains\<close>,
  \<open>IP.String\<close>, \<open>CIDRMask\<close>, \<open>IPMask.Size\<close>, \<open>ParseIP\<close> and \<open>ParseCIDR\<close>, for both
  families.
\<close>

type_synonym byte = "8 word"
type_synonym IP = "byte list"
type_synonym IPMask = "byte list"

record IPNet =
  net_IP :: IP
  net_Mask :: IPMask

section \<open>Families and masks\<close>

definition v4InV6Prefix :: "byte list" where
  "v4InV6Prefix = replicate 10 0 @ [255, 255]"

text \<open>\<open>IP.To4\<close>: \<open>None\<close> is nil.\<close>

definition To4 :: "IP \<Rightarrow> IP option" where
  "To4 ip =
     (if length ip = 4 then Some ip
      else if length ip = 16 \<and> take 12 ip = v4InV6Prefix then Some (drop 12 ip)
      else None)"

text \<open>\<open>CIDRMask(ones, bits)\<close> for \<open>bits\<close> 32 or 128.\<close>

fun cidr_bytes :: "nat \<Rightarrow> nat \<Rightarrow> IPMask" where
  "cidr_bytes 0 n = []"
| "cidr_bytes (Suc l) n =
     (if n \<ge> 8 then 255 # cidr_bytes l (n - 8)
      else NOT (drop_bit n (255 :: byte)) # cidr_bytes l 0)"

definition CIDRMask :: "nat \<Rightarrow> nat \<Rightarrow> IPMask" where
  "CIDRMask ones bits = cidr_bytes (bits div 8) ones"

text \<open>The leading ones of a byte, when the rest is zero.\<close>

definition byte_ones :: "byte \<Rightarrow> nat option" where
  "byte_ones b = find (\<lambda>n. NOT (drop_bit n (255 :: byte)) = b) [0, 1, 2, 3, 4, 5, 6, 7, 8]"

text \<open>\<open>simpleMaskLength\<close>: the number of leading ones of a mask, \<open>None\<close> for -1.\<close>

fun simpleMaskLength :: "IPMask \<Rightarrow> nat option" where
  "simpleMaskLength [] = Some 0"
| "simpleMaskLength (b # bs) =
     (if b = 255 then map_option (\<lambda>n. 8 + n) (simpleMaskLength bs)
      else case byte_ones b of
             None \<Rightarrow> None
           | Some n \<Rightarrow> if \<forall>x \<in> set bs. x = 0 then Some n else None)"

definition IPMask_Size :: "IPMask \<Rightarrow> nat \<times> nat" where
  "IPMask_Size m =
     (case simpleMaskLength m of None \<Rightarrow> (0, 0) | Some n \<Rightarrow> (n, 8 * length m))"

section \<open>Membership\<close>

text \<open>\<open>networkNumberAndMask\<close>: \<open>None\<close> where the source returns nil.\<close>

definition networkNumberAndMask :: "IPNet \<Rightarrow> (IP \<times> IPMask) option" where
  "networkNumberAndMask n =
     (let ip = (case To4 (net_IP n) of Some x \<Rightarrow> Some x
                | None \<Rightarrow> if length (net_IP n) = 16 then Some (net_IP n) else None);
          m = net_Mask n in
      case ip of
        None \<Rightarrow> None
      | Some ip \<Rightarrow>
          if length m = 4 then (if length ip \<noteq> 4 then None else Some (ip, m))
          else if length m = 16 then (if length ip = 4 then Some (ip, drop 12 m) else Some (ip, m))
          else None)"

definition masked_eq :: "IP \<Rightarrow> IPMask \<Rightarrow> IP \<Rightarrow> bool" where
  "masked_eq nn m ip \<longleftrightarrow> list_all2 (\<lambda>(a, k) b. a AND k = b AND k) (zip nn m) ip"

definition IPNet_Contains :: "IPNet \<Rightarrow> IP \<Rightarrow> bool" where
  "IPNet_Contains n ip =
     (let x = (case To4 ip of Some x \<Rightarrow> x | None \<Rightarrow> ip) in
      case networkNumberAndMask n of
        None \<Rightarrow> False
      | Some (nn, m) \<Rightarrow> length x = length nn \<and> masked_eq nn m x)"

section \<open>Printing\<close>

text \<open>The hexadecimal form of a 16-bit group, without leading zeros.\<close>

fun hex_nat :: "nat \<Rightarrow> string" where
  "hex_nat n = (if n < 16 then [hex_char n] else hex_nat (n div 16) @ [hex_char (n mod 16)])"

declare hex_nat.simps [simp del]

fun groups :: "byte list \<Rightarrow> nat list" where
  "groups (a # b # bs) = (256 * unat a + unat b) # groups bs"
| "groups _ = []"

definition zero_run :: "nat list \<Rightarrow> nat \<Rightarrow> nat" where
  "zero_run gs i = length (takeWhile (\<lambda>g. g = 0) (drop i gs))"

text \<open>The first longest run of at least two zero groups: its start and its end.\<close>

definition best_run :: "nat list \<Rightarrow> (nat \<times> nat) option" where
  "best_run gs =
     fold (\<lambda>i best. let l = zero_run gs i in
             if l \<ge> 2 \<and> (case best of None \<Rightarrow> True | Some (s, e) \<Rightarrow> l > e - s) then Some (i, i + l)
             else best) [0..<length gs] None"

definition v6_string :: "IP \<Rightarrow> string" where
  "v6_string ip =
     (let gs = groups ip in
      case best_run gs of
        None \<Rightarrow> Join '':'' (map hex_nat gs)
      | Some (s, e) \<Rightarrow>
          Join '':'' (map hex_nat (take s gs)) @ ''::'' @ Join '':'' (map hex_nat (drop e gs)))"

definition v4_string :: "IP \<Rightarrow> string" where
  "v4_string ip = Join ''.'' (map (\<lambda>b. dec_nat (unat b)) ip)"

definition IP_String :: "IP \<Rightarrow> string" where
  "IP_String ip =
     (if ip = [] then ''<nil>''
      else case To4 ip of
             Some p \<Rightarrow> v4_string p
           | None \<Rightarrow> if length ip = 16 then v6_string ip else ''?'' @ hex_encode ip)"

section \<open>Parsing\<close>

text \<open>One decimal field of an IPv4 address: no leading zero, at most 255.\<close>

definition parse_octet :: "string \<Rightarrow> byte option" where
  "parse_octet s =
     (if s = [] \<or> (length s > 1 \<and> hd s = CHR ''0'') then None
      else case read_digits 0 s of
             None \<Rightarrow> None
           | Some n \<Rightarrow> if n \<le> 255 then Some (of_nat n) else None)"

definition parseIPv4 :: "string \<Rightarrow> IP option" where
  "parseIPv4 s =
     (let parts = split_on (CHR ''.'') s in
      if length parts = 4 then those (map parse_octet parts) else None)"

text \<open>The hexadecimal digits at the front of a string: their number, their value, the rest.
  A fifth digit is an error.\<close>

fun take_hex :: "nat \<Rightarrow> nat \<Rightarrow> string \<Rightarrow> (nat \<times> nat \<times> string) option" where
  "take_hex k acc [] = Some (k, acc, [])"
| "take_hex k acc (c # cs) =
     (case hex_digit c of
        None \<Rightarrow> Some (k, acc, c # cs)
      | Some d \<Rightarrow> if k > 3 then None else take_hex (Suc k) (16 * acc + d) cs)"

text \<open>
  The loop of \<open>netip.parseIPv6\<close>: \<open>ip\<close> holds the bytes read so far, \<open>el\<close> the position of the
  ellipsis. It returns the bytes, the ellipsis and the unread text. Each turn adds two bytes
  or stops, so eight turns of fuel are enough for the sixteen bytes.
\<close>

fun v6_loop :: "nat \<Rightarrow> IP \<Rightarrow> nat option \<Rightarrow> string \<Rightarrow> (IP \<times> nat option \<times> string) option" where
  "v6_loop 0 ip el s = Some (ip, el, s)"
| "v6_loop (Suc k) ip el s =
     (case take_hex 0 0 s of
        None \<Rightarrow> None
      | Some (off, acc, rest) \<Rightarrow>
          if off = 0 then None
          else if rest \<noteq> [] \<and> hd rest = CHR ''.'' then
            (if (el = None \<and> length ip \<noteq> 12) \<or> length ip + 4 > 16 then None
             else case parseIPv4 s of None \<Rightarrow> None | Some q \<Rightarrow> Some (ip @ q, el, []))
          else let ip1 = ip @ [of_nat (acc div 256), of_nat (acc mod 256)] in
            (case rest of
               [] \<Rightarrow> Some (ip1, el, [])
             | c # r1 \<Rightarrow>
                 if c \<noteq> CHR '':'' \<or> r1 = [] then None
                 else if hd r1 = CHR '':'' then
                   (if el \<noteq> None then None
                    else if tl r1 = [] then Some (ip1, Some (length ip1), [])
                    else v6_loop k ip1 (Some (length ip1)) (tl r1))
                 else v6_loop k ip1 el r1))"

definition parseIPv6 :: "string \<Rightarrow> IP option" where
  "parseIPv6 s0 =
     (let lead = (take 2 s0 = ''::''); s = (if lead then drop 2 s0 else s0) in
      if lead \<and> s = [] then Some (replicate 16 0)
      else case v6_loop 8 [] (if lead then Some 0 else None) s of
             None \<Rightarrow> None
           | Some (ip, el, rest) \<Rightarrow>
               if rest \<noteq> [] then None
               else if length ip < 16 then
                 (case el of
                    None \<Rightarrow> None
                  | Some e \<Rightarrow> Some (take e ip @ replicate (16 - length ip) 0 @ drop e ip))
               else if el \<noteq> None then None
               else Some ip)"

text \<open>\<open>netip.ParseAddr\<close> without a zone, which \<open>ParseIP\<close> and \<open>ParseCIDR\<close> reject: the address
  bytes in their own family.\<close>

definition ParseAddr :: "string \<Rightarrow> IP option" where
  "ParseAddr s =
     (case find (\<lambda>c. c = CHR ''.'' \<or> c = CHR '':'' \<or> c = CHR ''%'') s of
        None \<Rightarrow> None
      | Some c \<Rightarrow>
          if c = CHR ''.'' then parseIPv4 s
          else if c = CHR '':'' then (if CHR ''%'' \<in> set s then None else parseIPv6 s)
          else None)"

text \<open>\<open>net.ParseIP\<close> returns the sixteen-byte form.\<close>

definition ParseIP :: "string \<Rightarrow> IP option" where
  "ParseIP s =
     map_option (\<lambda>ip. if length ip = 4 then v4InV6Prefix @ ip else ip) (ParseAddr s)"

text \<open>\<open>dtoi\<close> of the prefix length: all of the text must be digits and the value below
  \<open>0xFFFFFF\<close>.\<close>

definition parse_prefix :: "string \<Rightarrow> nat option" where
  "parse_prefix s =
     (if s = [] then None
      else case read_digits 0 s of None \<Rightarrow> None | Some n \<Rightarrow> if n < 16777215 then Some n else None)"

definition mask_ip :: "IP \<Rightarrow> IPMask \<Rightarrow> IP" where
  "mask_ip ip m = map2 (\<lambda>a k. a AND k) ip m"

text \<open>The network that \<open>net.ParseCIDR\<close> returns; its first result, the address, is not used by
  the program.\<close>

definition ParseCIDR :: "string \<Rightarrow> IPNet option" where
  "ParseCIDR s =
     (if CHR ''/'' \<notin> set s then None
      else let addr = takeWhile (\<lambda>c. c \<noteq> CHR ''/'') s;
               msk = tl (dropWhile (\<lambda>c. c \<noteq> CHR ''/'') s) in
        case ParseAddr addr of
          None \<Rightarrow> None
        | Some ip \<Rightarrow>
            (case parse_prefix msk of
               None \<Rightarrow> None
             | Some n \<Rightarrow>
                 if n > 8 * length ip then None
                 else let m = CIDRMask n (8 * length ip)
                      in Some \<lparr>net_IP = mask_ip ip m, net_Mask = m\<rparr>))"

section \<open>Round trips\<close>

lemma find_first_sep: "\<forall>x \<in> set xs. \<not> P x \<Longrightarrow> P c \<Longrightarrow> find P (xs @ c # ys) = Some c"
  by (induction xs) auto

lemma parse_octet_dec_nat [simp]: "parse_octet (dec_nat (unat b)) = Some b"
proof -
  have "unat b < 256" using unsigned_less [of b] by simp
  moreover have "length (dec_nat (unat b)) > 1 \<Longrightarrow> hd (dec_nat (unat b)) \<noteq> CHR ''0''"
    by (cases "unat b = 0") (simp_all add: dec_nat.simps [of 0] hd_dec_nat_nonzero)
  ultimately show ?thesis by (auto simp: parse_octet_def)
qed

lemma split_v4_string: "ip \<noteq> [] \<Longrightarrow> split_on (CHR ''.'') (v4_string ip) = map (\<lambda>b. dec_nat (unat b)) ip"
  unfolding v4_string_def by (rule split_on_Join) auto

lemma those_map_Some: "(\<And>x. x \<in> set xs \<Longrightarrow> f x = Some (g x)) \<Longrightarrow> those (map f xs) = Some (map g xs)"
  by (induction xs) auto

lemma parseIPv4_v4_string [simp]: "length ip = 4 \<Longrightarrow> parseIPv4 (v4_string ip) = Some ip"
  using split_v4_string [of ip] those_map_Some [of ip "\<lambda>b. parse_octet (dec_nat (unat b))" id]
  by (cases ip) (auto simp: parseIPv4_def comp_def)

lemma v4_string_first_sep:
  assumes "length ip = 4"
  shows "find (\<lambda>c. c = CHR ''.'' \<or> c = CHR '':'' \<or> c = CHR ''%'') (v4_string ip) = Some (CHR ''.'')"
proof -
  from assms obtain a b c d where ip: "ip = [a, b, c, d]"
    by (auto simp: length_Suc_conv numeral_eq_Suc)
  have "CHR ''%'' \<notin> set (dec_nat (unat a))" by (rule dec_nat_no_char) simp
  then have no: "\<forall>x \<in> set (dec_nat (unat a)). \<not> (x = CHR ''.'' \<or> x = CHR '':'' \<or> x = CHR ''%'')"
    using dec_nat_no_sep [of "unat a"] by metis
  show ?thesis
    unfolding ip v4_string_def by (simp add: find_first_sep [OF no])
qed

lemma ParseAddr_v4_string: "length ip = 4 \<Longrightarrow> ParseAddr (v4_string ip) = Some ip"
  by (simp add: ParseAddr_def v4_string_first_sep)

lemma ParseIP_v4_string: "length ip = 4 \<Longrightarrow> ParseIP (v4_string ip) = Some (v4InV6Prefix @ ip)"
  by (simp add: ParseIP_def ParseAddr_v4_string)

lemma IP_String_v4 [simp]: "length ip = 4 \<Longrightarrow> IP_String ip = v4_string ip"
  by (auto simp: IP_String_def To4_def)

lemma v4_string_inject: "length ip = 4 \<Longrightarrow> length ip' = 4 \<Longrightarrow> v4_string ip = v4_string ip' \<longleftrightarrow> ip = ip'"
  by (metis ParseAddr_v4_string option.inject)

section \<open>Prefix masks\<close>

lemma length_cidr_bytes [simp]: "length (cidr_bytes l n) = l"
  by (induction l n rule: cidr_bytes.induct) auto

lemma cidr_bytes_numeral:
  "cidr_bytes (numeral l) n =
     (if n \<ge> 8 then 255 # cidr_bytes (pred_numeral l) (n - 8)
      else NOT (drop_bit n (255 :: byte)) # cidr_bytes (pred_numeral l) 0)"
  by (simp add: numeral_eq_Suc)

lemma cidr_bytes_0: "cidr_bytes l 0 = replicate l 0"
  by (induction l) auto

lemma low_byte_cases: "n < 8 \<Longrightarrow> n = 0 \<or> n = 1 \<or> n = 2 \<or> n = 3 \<or> n = 4 \<or> n = 5 \<or> n = 6 \<or> n = (7::nat)"
  by arith

lemma byte_ones_prefix: "n < 8 \<Longrightarrow> byte_ones (NOT (drop_bit n 255)) = Some n"
  by (drule low_byte_cases) (auto simp: byte_ones_def)

lemma prefix_byte_not_full: "n < 8 \<Longrightarrow> NOT (drop_bit n (255 :: byte)) \<noteq> 255"
  by (drule low_byte_cases) auto

lemma simpleMaskLength_cidr: "n \<le> 8 * l \<Longrightarrow> simpleMaskLength (cidr_bytes l n) = Some n"
proof (induction l n rule: cidr_bytes.induct)
  case (2 l n)
  show ?case
  proof (cases "n \<ge> 8")
    case True
    with 2 show ?thesis by simp
  next
    case False
    then have "n < 8" by simp
    with False show ?thesis
      using byte_ones_prefix [of n] prefix_byte_not_full [of n] by (simp add: cidr_bytes_0)
  qed
qed simp

lemma IPMask_Size_CIDRMask: "n \<le> 32 \<Longrightarrow> IPMask_Size (CIDRMask n 32) = (n, 32)"
  by (simp add: IPMask_Size_def CIDRMask_def simpleMaskLength_cidr)

section \<open>Addresses as numbers\<close>

definition ip_val :: "IP \<Rightarrow> nat" where
  "ip_val ip = foldl (\<lambda>acc b. 256 * acc + unat b) 0 ip"

lemma ip_val_snoc [simp]: "ip_val (ip @ [b]) = 256 * ip_val ip + unat b"
  by (simp add: ip_val_def)

lemma ip_val_Nil [simp]: "ip_val [] = 0"
  by (simp add: ip_val_def)

lemma unat_byte_less: "unat (b :: byte) < 256"
  using unsigned_less [of b] by simp

lemma ip_val_less: "ip_val ip < 256 ^ length ip"
proof (induction ip rule: rev_induct)
  case (snoc b ip)
  then have "ip_val ip + 1 \<le> 256 ^ length ip" by simp
  then have "256 * (ip_val ip + 1) \<le> 256 * 256 ^ length ip" by (rule mult_le_mono2)
  with unat_byte_less [of b] show ?case by simp
qed simp

lemma ip_val_inject: "length ip = length ip' \<Longrightarrow> ip_val ip = ip_val ip' \<Longrightarrow> ip = ip'"
proof (induction ip arbitrary: ip' rule: rev_induct)
  case (snoc b ip)
  then obtain c jp where ip': "ip' = jp @ [c]"
    by (cases ip' rule: rev_cases) auto
  with snoc.prems have eq: "256 * ip_val ip + unat b = 256 * ip_val jp + unat c" by simp
  then have "(256 * ip_val ip + unat b) div 256 = (256 * ip_val jp + unat c) div 256"
    and "(256 * ip_val ip + unat b) mod 256 = (256 * ip_val jp + unat c) mod 256" by simp_all
  then have "ip_val ip = ip_val jp" and "unat b = unat c"
    using unat_byte_less [of b] unat_byte_less [of c] by simp_all
  moreover from this have "b = c" by (simp add: word_unat_eq_iff)
  ultimately show ?case using snoc ip' by simp
qed simp

lemma ip_val_surj: "v < 256 ^ n \<Longrightarrow> \<exists>ip. length ip = n \<and> ip_val ip = v"
proof (induction n arbitrary: v)
  case (Suc n)
  then have "v div 256 < 256 ^ n" by (simp add: less_mult_imp_div_less mult.commute)
  with Suc.IH obtain ip where ip: "length ip = n" "ip_val ip = v div 256" by blast
  have "unat (of_nat (v mod 256) :: byte) = v mod 256"
    by (simp add: unat_of_nat)
  then have "ip_val (ip @ [of_nat (v mod 256)]) = v" using ip by simp
  with ip show ?case by (metis length_append_singleton)
qed simp

section \<open>Networks\<close>

lemma length_those: "those xs = Some ys \<Longrightarrow> length ys = length xs"
  by (induction xs arbitrary: ys) (auto split: option.splits)

lemma length_parseIPv4: "parseIPv4 s = Some ip \<Longrightarrow> length ip = 4"
  by (auto simp: parseIPv4_def Let_def split: if_splits dest: length_those)

lemma length_v6_loop: "v6_loop k ip el s = Some (ip', el', s') \<Longrightarrow> length ip + 2 * k \<le> 16 \<Longrightarrow> length ip' \<le> 16"
proof (induction k ip el s rule: v6_loop.induct)
  case (2 k ip el s)
  then show ?case
    by (auto simp: Let_def dest: length_parseIPv4 split: option.splits prod.splits if_splits list.splits)
qed simp

lemma length_parseIPv6:
  assumes "parseIPv6 s = Some ip"
  shows "length ip = 16"
proof -
  have fill: "length (take e a @ replicate (16 - length a) 0 @ drop e a) = 16"
    if "length a < 16" for e and a :: IP
    using that by (cases "e \<le> length a") auto
  have bound: "length a \<le> 16" if "v6_loop 8 [] el s' = Some (a, el', r)" for el s' a el' r
    using length_v6_loop [OF that] by simp
  show ?thesis using assms
    by (auto simp: parseIPv6_def Let_def fill split: if_splits option.splits simp del: length_append
        dest!: bound)
qed

lemma length_ParseAddr: "ParseAddr s = Some ip \<Longrightarrow> length ip = 4 \<or> length ip = 16"
  by (auto simp: ParseAddr_def dest: length_parseIPv4 length_parseIPv6 split: option.splits if_splits)

text \<open>An address and a mask of the same family.\<close>

definition net_wf :: "IPNet \<Rightarrow> bool" where
  "net_wf n \<longleftrightarrow> length (net_Mask n) = length (net_IP n) \<and> (length (net_IP n) = 4 \<or> length (net_IP n) = 16)"

lemma ParseCIDR_wf: "ParseCIDR s = Some n \<Longrightarrow> net_wf n"
  using length_ParseAddr
  by (fastforce simp: ParseCIDR_def Let_def net_wf_def mask_ip_def CIDRMask_def
      split: if_splits option.splits)

lemma masked_NOT: "a AND k = NOT a AND k \<Longrightarrow> k = (0 :: byte)"
proof -
  assume "a AND k = NOT a AND k"
  then have "a AND (a AND k) = a AND (NOT a AND k)" by simp
  then have "a AND k = 0" by (simp flip: and.assoc)
  moreover from \<open>a AND k = NOT a AND k\<close> have "NOT a AND (a AND k) = NOT a AND (NOT a AND k)" by simp
  then have "NOT a AND k = 0" by (simp flip: and.assoc)
  moreover have "k = (a AND k) OR (NOT a AND k)"
    by (simp flip: bit.conj_disj_distrib2)
  ultimately show "k = 0" by simp
qed

lemma masked_eq_NOT:
  assumes "length m = length nn" "masked_eq nn m (map NOT nn)"
  shows "\<forall>k \<in> set m. k = 0"
proof
  fix k assume "k \<in> set m"
  then obtain i where "i < length m" "m ! i = k" by (auto simp: in_set_conv_nth)
  with assms have "nn ! i AND k = NOT (nn ! i) AND k"
    by (auto simp: masked_eq_def list_all2_conv_all_nth)
  then show "k = 0" by (rule masked_NOT)
qed

text \<open>Unless its mask is empty, a network does not contain the complement of its address.\<close>

lemma complement_outside:
  assumes wf: "net_wf n" and m: "\<exists>k \<in> set (net_Mask n). k \<noteq> 0"
  shows "\<not> IPNet_Contains n (map NOT (net_IP n))"
proof
  assume c: "IPNet_Contains n (map NOT (net_IP n))"
  have "take 12 (map NOT (net_IP n)) \<noteq> v4InV6Prefix" if "take 12 (net_IP n) = v4InV6Prefix"
    using that by (simp add: take_map v4InV6Prefix_def numeral_eq_Suc)
  with c wf have "masked_eq (net_IP n) (net_Mask n) (map NOT (net_IP n))"
    by (auto simp: IPNet_Contains_def networkNumberAndMask_def To4_def net_wf_def Let_def
        split: if_splits option.splits)
  with wf m show False using masked_eq_NOT by (auto simp: net_wf_def)
qed

end
