(* ===== verification/Redis_Spec.thy ===== *)
theory Redis_Spec
  imports Go_Std
begin

text \<open>
  Redis, the store behind the config and the discovery service, is a service outside this
  repository, reached through the go-redis client. The model takes it as a parameter: a
  record of the client calls the program makes, each a function on an opaque server state.
  What the program relies on is the locale \<open>redis_laws\<close>: the documented meaning of the
  commands, for a server and a link that may fail. A command that reports an error may or may
  not have taken effect; a command that succeeds has. Calls take the server's clock as an
  argument, since keys may carry a time to live.

  The theory ends with an in-memory server with fault injection that satisfies the laws.
\<close>

section \<open>The client interface\<close>

datatype redis_err = RedisNil | RedisErr go_error

fun redis_error :: "redis_err \<Rightarrow> go_error" where
  "redis_error RedisNil = Plain ''redis: nil''"
| "redis_error (RedisErr e) = e"

record 'r redis =
  rPing :: "'r \<Rightarrow> go_error option \<times> 'r"
  rGet :: "instant \<Rightarrow> string \<Rightarrow> 'r \<Rightarrow> (redis_err + string) \<times> 'r"
  rSet :: "instant \<Rightarrow> string \<Rightarrow> string \<Rightarrow> duration \<Rightarrow> 'r \<Rightarrow> go_error option \<times> 'r"
  rDel :: "instant \<Rightarrow> string \<Rightarrow> 'r \<Rightarrow> go_error option \<times> 'r"
  rExists :: "instant \<Rightarrow> string \<Rightarrow> 'r \<Rightarrow> int result \<times> 'r"
  rExpire :: "instant \<Rightarrow> string \<Rightarrow> duration \<Rightarrow> 'r \<Rightarrow> go_error option \<times> 'r"
  rSAdd :: "instant \<Rightarrow> string \<Rightarrow> string \<Rightarrow> 'r \<Rightarrow> go_error option \<times> 'r"
  rSRem :: "instant \<Rightarrow> string \<Rightarrow> string \<Rightarrow> 'r \<Rightarrow> go_error option \<times> 'r"
  rSMembers :: "instant \<Rightarrow> string \<Rightarrow> 'r \<Rightarrow> string list result \<times> 'r"
  rSCard :: "instant \<Rightarrow> string \<Rightarrow> 'r \<Rightarrow> int result \<times> 'r"
  rPipeExists :: "instant \<Rightarrow> string list \<Rightarrow> 'r \<Rightarrow> redis_err option \<times> int list \<times> 'r"

text \<open>\<open>Cmd.Val()\<close>: the value of a reply, zero when the command failed.\<close>

fun cmd_val :: "int result \<Rightarrow> int" where
  "cmd_val (Inr n) = n"
| "cmd_val (Inl _) = 0"

section \<open>What a command does\<close>

text \<open>
  The laws speak about a server state through two views: \<open>live t r k\<close>, the string a read of
  key \<open>k\<close> at time \<open>t\<close> finds if nothing is written before, and \<open>mem r k\<close>, the members of the
  set at \<open>k\<close>. Time moves forward, so only times from the command's own on matter.
\<close>

type_synonym 'r live_view = "instant \<Rightarrow> 'r \<Rightarrow> string \<rightharpoonup> string"
type_synonym 'r set_view = "'r \<Rightarrow> string \<Rightarrow> string set"

definition unchanged :: "'r live_view \<Rightarrow> 'r set_view \<Rightarrow> instant \<Rightarrow> 'r \<Rightarrow> 'r \<Rightarrow> bool" where
  "unchanged live mem t r r' \<longleftrightarrow> (\<forall>u \<ge> t. live u r' = live u r) \<and> mem r' = mem r"

text \<open>A write: done when it reports success, done or not done when it reports an error.\<close>

definition outcome ::
  "'r live_view \<Rightarrow> 'r set_view \<Rightarrow> instant \<Rightarrow> 'r \<Rightarrow> 'r \<Rightarrow> bool \<Rightarrow> bool \<Rightarrow> bool" where
  "outcome live mem t r r' ok done \<longleftrightarrow> (if ok then done else done \<or> unchanged live mem t r r')"

definition written ::
  "'r live_view \<Rightarrow> 'r set_view \<Rightarrow> instant \<Rightarrow> string \<Rightarrow> (instant \<Rightarrow> string option) \<Rightarrow> 'r \<Rightarrow> 'r \<Rightarrow> bool" where
  "written live mem t k val r r' \<longleftrightarrow>
     (\<forall>u \<ge> t. live u r' = (live u r)(k := val u))
     \<and> (\<forall>k'. k' \<noteq> k \<longrightarrow> mem r' k' = mem r k') \<and> mem r' k \<subseteq> mem r k"

definition set_written ::
  "'r live_view \<Rightarrow> 'r set_view \<Rightarrow> instant \<Rightarrow> string \<Rightarrow> string set \<Rightarrow> 'r \<Rightarrow> 'r \<Rightarrow> bool" where
  "set_written live mem t k xs r r' \<longleftrightarrow>
     mem r' = (mem r)(k := xs) \<and> (\<forall>u \<ge> t. live u r' = live u r)"

lemmas redis_effects = unchanged_def outcome_def written_def set_written_def

locale redis_laws =
  fixes R :: "'r redis"
    and live :: "'r live_view"
    and mem :: "'r set_view"
    and up :: "'r \<Rightarrow> bool"
  assumes get_law: "rGet R t k r = (g, r') \<Longrightarrow>
      unchanged live mem t r r' \<and> (up r \<longrightarrow> up r')
      \<and> (\<forall>v. g = Inr v \<longrightarrow> live t r k = Some v) \<and> (g = Inl RedisNil \<longrightarrow> live t r k = None)
      \<and> (up r \<and> mem r k = {} \<longrightarrow> (\<forall>e. g \<noteq> Inl (RedisErr e)))"
    and set_law: "rSet R t k v ttl r = (x, r') \<Longrightarrow> 0 \<le> ttl \<Longrightarrow>
      outcome live mem t r r' (x = None)
        (written live mem t k (\<lambda>u. if ttl = 0 \<or> u < t + ttl then Some v else None) r r')
      \<and> (up r \<longrightarrow> x = None \<and> up r')"
    and del_law: "rDel R t k r = (x, r') \<Longrightarrow>
      outcome live mem t r r' (x = None) (written live mem t k (\<lambda>u. None) r r')
      \<and> (up r \<longrightarrow> x = None \<and> up r')"
    and exists_law: "rExists R t k r = (y, r') \<Longrightarrow>
      unchanged live mem t r r' \<and> (up r \<longrightarrow> is_ok y \<and> up r')
      \<and> (\<forall>n. y = Inr n \<longrightarrow> (n = 0 \<longleftrightarrow> live t r k = None \<and> mem r k = {}))"
    and expire_law: "rExpire R t k ttl r = (x, r') \<Longrightarrow> 0 < ttl \<Longrightarrow>
      outcome live mem t r r' (x = None)
        (written live mem t k (\<lambda>u. if u < t + ttl then live t r k else None) r r')
      \<and> (up r \<longrightarrow> x = None \<and> up r')"
    and sadd_law: "rSAdd R t k m r = (x, r') \<Longrightarrow>
      outcome live mem t r r' (x = None) (set_written live mem t k (insert m (mem r k)) r r')
      \<and> (up r \<longrightarrow> up r' \<and> (live t r k = None \<longrightarrow> x = None))"
    and srem_law: "rSRem R t k m r = (x, r') \<Longrightarrow>
      outcome live mem t r r' (x = None) (set_written live mem t k (mem r k - {m}) r r')
      \<and> (up r \<longrightarrow> up r' \<and> (live t r k = None \<longrightarrow> x = None))"
    and smembers_law: "rSMembers R t k r = (z, r') \<Longrightarrow>
      unchanged live mem t r r' \<and> (up r \<longrightarrow> up r' \<and> (live t r k = None \<longrightarrow> is_ok z))
      \<and> (\<forall>xs. z = Inr xs \<longrightarrow> set xs = mem r k \<and> distinct xs)"
    and scard_law: "rSCard R t k r = (y, r') \<Longrightarrow>
      unchanged live mem t r r' \<and> (up r \<longrightarrow> up r')
      \<and> (\<forall>n. y = Inr n \<longrightarrow> n = int (card (mem r k)))"
    and pipe_law: "rPipeExists R t ks r = (e, vs, r') \<Longrightarrow>
      unchanged live mem t r r' \<and> (up r \<longrightarrow> e = None \<and> up r')
      \<and> length vs = length ks
      \<and> (e = None \<longrightarrow> (\<forall>i < length ks. vs ! i = 0 \<longleftrightarrow> live t r (ks ! i) = None \<and> mem r (ks ! i) = {}))"

section \<open>An in-memory server\<close>

text \<open>
  A server that keeps its keys in two maps and drops commands as told by a list of faults:
  \<open>True\<close> makes the next command fail without effect. A string write replaces a set at the
  same key, a set command on a live string key is refused, as Redis does.
\<close>

record mem_db =
  db_str :: "string \<Rightarrow> (string \<times> instant option) option"
  db_set :: "string \<Rightarrow> string list"
  db_faults :: "bool list"

definition db_empty :: mem_db where
  "db_empty = \<lparr>db_str = Map.empty, db_set = (\<lambda>_. []), db_faults = []\<rparr>"

definition db_live :: "instant \<Rightarrow> mem_db \<Rightarrow> string \<rightharpoonup> string" where
  "db_live t r k =
     (case db_str r k of
        None \<Rightarrow> None
      | Some (v, None) \<Rightarrow> Some v
      | Some (v, Some d) \<Rightarrow> if t < d then Some v else None)"

definition db_mem :: "mem_db \<Rightarrow> string \<Rightarrow> string set" where
  "db_mem r k = set (db_set r k)"

definition db_up :: "mem_db \<Rightarrow> bool" where
  "db_up r \<longleftrightarrow> (\<forall>b \<in> set (db_faults r). \<not> b)"

definition link_down :: go_error where
  "link_down = Plain ''connection lost''"

definition wrong_type :: go_error where
  "wrong_type = Plain ''WRONGTYPE''"

definition next_faults :: "mem_db \<Rightarrow> mem_db" where
  "next_faults r = r\<lparr>db_faults := tl (db_faults r)\<rparr>"

definition attempt :: "'a \<Rightarrow> (mem_db \<Rightarrow> 'a \<times> mem_db) \<Rightarrow> mem_db \<Rightarrow> 'a \<times> mem_db" where
  "attempt err f r =
     (if db_faults r \<noteq> [] \<and> hd (db_faults r) then (err, next_faults r) else f (next_faults r))"

definition put_str :: "string \<Rightarrow> (string \<times> instant option) option \<Rightarrow> mem_db \<Rightarrow> mem_db" where
  "put_str k v r = r\<lparr>db_str := (db_str r)(k := v), db_set := (db_set r)(k := [])\<rparr>"

definition put_set :: "string \<Rightarrow> string list \<Rightarrow> mem_db \<Rightarrow> mem_db" where
  "put_set k xs r = r\<lparr>db_set := (db_set r)(k := xs)\<rparr>"

definition db_exists :: "instant \<Rightarrow> mem_db \<Rightarrow> string \<Rightarrow> int" where
  "db_exists t r k = (if db_live t r k = None \<and> db_set r k = [] then 0 else 1)"

definition mem_redis :: "mem_db redis" where
  "mem_redis = \<lparr>
     rPing = attempt (Some link_down) (\<lambda>r. (None, r)),
     rGet = (\<lambda>t k. attempt (Inl (RedisErr link_down)) (\<lambda>r.
        ((if db_set r k \<noteq> [] then Inl (RedisErr wrong_type)
          else case db_live t r k of Some v \<Rightarrow> Inr v | None \<Rightarrow> Inl RedisNil), r))),
     rSet = (\<lambda>t k v ttl. attempt (Some link_down) (\<lambda>r.
        (None, put_str k (Some (v, if ttl = 0 then None else Some (t + ttl))) r))),
     rDel = (\<lambda>t k. attempt (Some link_down) (\<lambda>r. (None, put_str k None r))),
     rExists = (\<lambda>t k. attempt (Inl link_down) (\<lambda>r. (Inr (db_exists t r k), r))),
     rExpire = (\<lambda>t k ttl. attempt (Some link_down) (\<lambda>r.
        (None, case db_live t r k of
                 None \<Rightarrow> r
               | Some v \<Rightarrow> put_str k (Some (v, Some (t + ttl))) r))),
     rSAdd = (\<lambda>t k m. attempt (Some link_down) (\<lambda>r.
        if db_live t r k \<noteq> None then (Some wrong_type, r)
        else (None, put_set k (List.insert m (db_set r k)) r))),
     rSRem = (\<lambda>t k m. attempt (Some link_down) (\<lambda>r.
        if db_live t r k \<noteq> None then (Some wrong_type, r)
        else (None, put_set k (filter (\<lambda>x. x \<noteq> m) (db_set r k)) r))),
     rSMembers = (\<lambda>t k. attempt (Inl link_down) (\<lambda>r.
        (if db_live t r k \<noteq> None then Inl wrong_type else Inr (remdups (db_set r k)), r))),
     rSCard = (\<lambda>t k. attempt (Inl link_down) (\<lambda>r. (Inr (int (card (set (db_set r k)))), r))),
     rPipeExists = (\<lambda>t ks r.
        (case attempt (Some (RedisErr link_down)) (\<lambda>r. (None, r)) r of
           (e, r') \<Rightarrow> (e, map (db_exists t r') ks, r')))
   \<rparr>"

lemma attempt_cases:
  assumes "attempt err f r = (x, r')"
  obtains (fault) "\<not> db_up r" "x = err" "r' = next_faults r"
  | (run) "f (next_faults r) = (x, r')"
proof (cases "db_faults r \<noteq> [] \<and> hd (db_faults r)")
  case True
  then have "\<not> db_up r" unfolding db_up_def using hd_in_set by blast
  moreover from True assms have "x = err" "r' = next_faults r" by (auto simp: attempt_def)
  ultimately show thesis by (rule fault)
next
  case False
  with assms have "f (next_faults r) = (x, r')" unfolding attempt_def by presburger
  then show thesis by (rule run)
qed

lemma next_faults_views [simp]:
  "db_live t (next_faults r) = db_live t r" "db_mem (next_faults r) = db_mem r"
  "db_set (next_faults r) = db_set r" "db_str (next_faults r) = db_str r"
  by (auto simp: next_faults_def db_live_def db_mem_def fun_eq_iff)

lemma next_faults_up: "db_up r \<Longrightarrow> db_up (next_faults r)"
  by (cases "db_faults r") (auto simp: db_up_def next_faults_def)

lemma db_exists_next [simp]: "db_exists t (next_faults r) = db_exists t r"
  by (simp add: db_exists_def fun_eq_iff)

section \<open>The in-memory server satisfies the laws\<close>

lemma db_unchanged_refl [simp]: "unchanged db_live db_mem t r r"
  by (simp add: unchanged_def)

lemma db_effects_next [simp]:
  "unchanged db_live db_mem t r (next_faults r)"
  "outcome db_live db_mem t (next_faults r) r' ok d = outcome db_live db_mem t r r' ok d"
  "written db_live db_mem t k val (next_faults r) r' = written db_live db_mem t k val r r'"
  "set_written db_live db_mem t k xs (next_faults r) r' = set_written db_live db_mem t k xs r r'"
  by (simp_all add: redis_effects)

lemma db_up_put [simp]: "db_up (put_str k v r) = db_up r" "db_up (put_set k xs r) = db_up r"
  by (simp_all add: db_up_def put_str_def put_set_def)

lemma db_written_put_str:
  assumes "\<And>u. t \<le> u \<Longrightarrow> db_live u (put_str k v r) k = val u"
  shows "written db_live db_mem t k val r (put_str k v r)"
proof -
  have "db_live u (put_str k v r) = (db_live u r)(k := val u)" if "t \<le> u" for u
    using assms [OF that] by (auto simp: fun_eq_iff put_str_def db_live_def)
  then show ?thesis by (simp add: written_def db_mem_def put_str_def)
qed

lemma db_live_put_str:
  "db_live u (put_str k (Some (v, None)) r) k = Some v"
  "db_live u (put_str k (Some (v, Some d)) r) k = (if u < d then Some v else None)"
  "db_live u (put_str k None r) k = None"
  by (simp_all add: db_live_def put_str_def)

lemma db_live_later: "db_live t r k = None \<Longrightarrow> t \<le> u \<Longrightarrow> db_live u r k = None"
  by (auto simp: db_live_def split: option.splits if_splits)

lemma db_set_written_put_set: "xs = set ys \<Longrightarrow> set_written db_live db_mem t k xs r (put_set k ys r)"
  by (auto simp: set_written_def put_set_def db_mem_def db_live_def fun_eq_iff)

lemma db_exists_0: "db_exists t r k = 0 \<longleftrightarrow> db_live t r k = None \<and> db_mem r k = {}"
  by (auto simp: db_exists_def db_mem_def)

lemma attempt_read:
  assumes "attempt (Inl e) f r = (y, r')" and "\<And>s. snd (f s) = s"
  shows "unchanged db_live db_mem t r r' \<and> (db_up r \<longrightarrow> db_up r')
    \<and> (y = fst (f (next_faults r)) \<or> (y = Inl e \<and> \<not> db_up r))"
  using assms(1)
proof (cases rule: attempt_cases)
  case fault
  then show ?thesis by simp
next
  case run
  with assms(2) [of "next_faults r"] have "r' = next_faults r" by simp
  with run show ?thesis by (simp add: next_faults_up)
qed

lemma mem_redis_sel:
  "rGet mem_redis t k = attempt (Inl (RedisErr link_down)) (\<lambda>r.
        ((if db_set r k \<noteq> [] then Inl (RedisErr wrong_type)
          else case db_live t r k of Some v \<Rightarrow> Inr v | None \<Rightarrow> Inl RedisNil), r))"
  "rSet mem_redis t k v ttl = attempt (Some link_down) (\<lambda>r.
        (None, put_str k (Some (v, if ttl = 0 then None else Some (t + ttl))) r))"
  "rDel mem_redis t k = attempt (Some link_down) (\<lambda>r. (None, put_str k None r))"
  "rExists mem_redis t k = attempt (Inl link_down) (\<lambda>r. (Inr (db_exists t r k), r))"
  "rExpire mem_redis t k ttl = attempt (Some link_down) (\<lambda>r.
        (None, case db_live t r k of
                 None \<Rightarrow> r
               | Some v \<Rightarrow> put_str k (Some (v, Some (t + ttl))) r))"
  "rSAdd mem_redis t k m = attempt (Some link_down) (\<lambda>r.
        if db_live t r k \<noteq> None then (Some wrong_type, r)
        else (None, put_set k (List.insert m (db_set r k)) r))"
  "rSRem mem_redis t k m = attempt (Some link_down) (\<lambda>r.
        if db_live t r k \<noteq> None then (Some wrong_type, r)
        else (None, put_set k (filter (\<lambda>x. x \<noteq> m) (db_set r k)) r))"
  "rSMembers mem_redis t k = attempt (Inl link_down) (\<lambda>r.
        (if db_live t r k \<noteq> None then Inl wrong_type else Inr (remdups (db_set r k)), r))"
  "rSCard mem_redis t k = attempt (Inl link_down) (\<lambda>r. (Inr (int (card (set (db_set r k)))), r))"
  "rPipeExists mem_redis t ks r =
        (case attempt (Some (RedisErr link_down)) (\<lambda>r. (None, r)) r of
           (e, r') \<Rightarrow> (e, map (db_exists t r') ks, r'))"
  by (simp_all add: mem_redis_def)

interpretation mem_store: redis_laws mem_redis db_live db_mem db_up
proof
  fix t k r g and r' :: mem_db
  assume "rGet mem_redis t k r = (g, r')"
  from attempt_read [where t = t, OF this [unfolded mem_redis_sel]]
  show "unchanged db_live db_mem t r r' \<and> (db_up r \<longrightarrow> db_up r')
      \<and> (\<forall>v. g = Inr v \<longrightarrow> db_live t r k = Some v) \<and> (g = Inl RedisNil \<longrightarrow> db_live t r k = None)
      \<and> (db_up r \<and> db_mem r k = {} \<longrightarrow> (\<forall>e. g \<noteq> Inl (RedisErr e)))"
    by (auto simp: db_mem_def split: option.splits if_splits)
next
  fix t k v ttl r x and r' :: mem_db
  assume "rSet mem_redis t k v ttl r = (x, r')"
  then show "outcome db_live db_mem t r r' (x = None)
        (written db_live db_mem t k (\<lambda>u. if ttl = 0 \<or> u < t + ttl then Some v else None) r r')
      \<and> (db_up r \<longrightarrow> x = None \<and> db_up r')"
    unfolding mem_redis_sel
  proof (cases rule: attempt_cases)
    case run
    then have "x = None" and r': "r' = put_str k (Some (v, if ttl = 0 then None else Some (t + ttl))) (next_faults r)"
      by auto
    have "written db_live db_mem t k (\<lambda>u. if ttl = 0 \<or> u < t + ttl then Some v else None) (next_faults r) r'"
      unfolding r' by (rule db_written_put_str) (simp add: db_live_put_str)
    with \<open>x = None\<close> r' show ?thesis by (simp add: outcome_def next_faults_up)
  qed (simp add: outcome_def)
next
  fix t k r x and r' :: mem_db
  assume "rDel mem_redis t k r = (x, r')"
  then show "outcome db_live db_mem t r r' (x = None) (written db_live db_mem t k (\<lambda>u. None) r r')
      \<and> (db_up r \<longrightarrow> x = None \<and> db_up r')"
    unfolding mem_redis_sel
  proof (cases rule: attempt_cases)
    case run
    then have "x = None" and r': "r' = put_str k None (next_faults r)" by auto
    have "written db_live db_mem t k (\<lambda>u. None) (next_faults r) r'"
      unfolding r' by (rule db_written_put_str) (simp add: db_live_put_str)
    with \<open>x = None\<close> r' show ?thesis by (simp add: outcome_def next_faults_up)
  qed (simp add: outcome_def)
next
  fix t k r y and r' :: mem_db
  assume "rExists mem_redis t k r = (y, r')"
  from attempt_read [where t = t, OF this [unfolded mem_redis_sel]]
  show "unchanged db_live db_mem t r r' \<and> (db_up r \<longrightarrow> is_ok y \<and> db_up r')
      \<and> (\<forall>n. y = Inr n \<longrightarrow> (n = 0 \<longleftrightarrow> db_live t r k = None \<and> db_mem r k = {}))"
    by (auto simp: db_exists_0)
next
  fix t k ttl r x and r' :: mem_db
  assume "rExpire mem_redis t k ttl r = (x, r')"
  then show "outcome db_live db_mem t r r' (x = None)
        (written db_live db_mem t k (\<lambda>u. if u < t + ttl then db_live t r k else None) r r')
      \<and> (db_up r \<longrightarrow> x = None \<and> db_up r')"
    unfolding mem_redis_sel
  proof (cases rule: attempt_cases)
    case run
    then have "x = None" and r': "r' = (case db_live t r k of None \<Rightarrow> next_faults r
        | Some v \<Rightarrow> put_str k (Some (v, Some (t + ttl))) (next_faults r))" by auto
    have "written db_live db_mem t k (\<lambda>u. if u < t + ttl then db_live t r k else None) (next_faults r) r'"
    proof (cases "db_live t r k")
      case None
      then show ?thesis using db_live_later [of t r k] by (auto simp: r' written_def fun_eq_iff)
    next
      case (Some v)
      show ?thesis unfolding r' Some option.case
        by (rule db_written_put_str) (simp add: db_live_put_str)
    qed
    with \<open>x = None\<close> r' show ?thesis
      by (simp add: outcome_def next_faults_up split: option.splits)
  qed (simp add: outcome_def)
next
  fix t k m r x and r' :: mem_db
  assume "rSAdd mem_redis t k m r = (x, r')"
  then show "outcome db_live db_mem t r r' (x = None)
        (set_written db_live db_mem t k (insert m (db_mem r k)) r r')
      \<and> (db_up r \<longrightarrow> db_up r' \<and> (db_live t r k = None \<longrightarrow> x = None))"
    unfolding mem_redis_sel
  proof (cases rule: attempt_cases)
    case run
    have "set_written db_live db_mem t k (insert m (db_mem r k)) (next_faults r)
        (put_set k (List.insert m (db_set r k)) (next_faults r))"
      by (rule db_set_written_put_set) (simp add: db_mem_def)
    with run show ?thesis by (auto simp: outcome_def next_faults_up split: if_splits)
  qed (simp add: outcome_def)
next
  fix t k m r x and r' :: mem_db
  assume "rSRem mem_redis t k m r = (x, r')"
  then show "outcome db_live db_mem t r r' (x = None)
        (set_written db_live db_mem t k (db_mem r k - {m}) r r')
      \<and> (db_up r \<longrightarrow> db_up r' \<and> (db_live t r k = None \<longrightarrow> x = None))"
    unfolding mem_redis_sel
  proof (cases rule: attempt_cases)
    case run
    have "set_written db_live db_mem t k (db_mem r k - {m}) (next_faults r)
        (put_set k (filter (\<lambda>x. x \<noteq> m) (db_set r k)) (next_faults r))"
      by (rule db_set_written_put_set) (auto simp: db_mem_def)
    with run show ?thesis by (auto simp: outcome_def next_faults_up split: if_splits)
  qed (simp add: outcome_def)
next
  fix t k r z and r' :: mem_db
  assume "rSMembers mem_redis t k r = (z, r')"
  from attempt_read [where t = t, OF this [unfolded mem_redis_sel]]
  show "unchanged db_live db_mem t r r' \<and> (db_up r \<longrightarrow> db_up r' \<and> (db_live t r k = None \<longrightarrow> is_ok z))
      \<and> (\<forall>xs. z = Inr xs \<longrightarrow> set xs = db_mem r k \<and> distinct xs)"
    by (auto simp: db_mem_def split: if_splits)
next
  fix t k r y and r' :: mem_db
  assume "rSCard mem_redis t k r = (y, r')"
  from attempt_read [where t = t, OF this [unfolded mem_redis_sel]]
  show "unchanged db_live db_mem t r r' \<and> (db_up r \<longrightarrow> db_up r')
      \<and> (\<forall>n. y = Inr n \<longrightarrow> n = int (card (db_mem r k)))"
    by (auto simp: db_mem_def)
next
  fix t ks r e vs and r' :: mem_db
  assume "rPipeExists mem_redis t ks r = (e, vs, r')"
  then obtain "attempt (Some (RedisErr link_down)) (\<lambda>r. (None, r)) r = (e, r')"
    and vs: "vs = map (db_exists t r') ks"
    by (auto simp: mem_redis_sel split: prod.splits)
  then have "r' = next_faults r \<and> (db_up r \<longrightarrow> e = None)"
    by (cases rule: attempt_cases) auto
  with vs show "unchanged db_live db_mem t r r' \<and> (db_up r \<longrightarrow> e = None \<and> db_up r')
      \<and> length vs = length ks
      \<and> (e = None \<longrightarrow> (\<forall>i < length ks. vs ! i = 0 \<longleftrightarrow> db_live t r (ks ! i) = None \<and> db_mem r (ks ! i) = {}))"
    by (simp add: next_faults_up db_exists_0)
qed

end
