(* ===== verification/Allocator.thy ===== *)
theory Allocator
  imports Net_IP Redis_Spec
begin

text \<open>
  The address allocator of the config service
  (\<open>src/services/config/internal/allocator/allocator.go\<close>). The set \<open>ip:allocated\<close> holds the
  addresses in use, the key \<open>ip:node:<id>\<close> the address of a node. Every operation holds the
  allocator's mutex from its first to its last command, so an operation is one function on the
  Redis server's state; the commands in it may still fail one by one. An operation returns its
  result, the server's state and the metric calls it made.

  The search loop of \<open>findAvailableIP\<close> is a partial function: \<open>None\<close> is a loop that never
  ends. \<open>find_loop_terminates\<close> shows when it does end.
\<close>

section \<open>The operations\<close>

definition allocatedSetKey :: string where
  "allocatedSetKey = ''ip:allocated''"

definition nodeIPKeyPrefix :: string where
  "nodeIPKeyPrefix = ''ip:node:''"

record Allocator =
  a_network :: IPNet
  a_gateway :: IP

text \<open>\<open>x[len(x)-1] = b\<close>; the source indexes a network address, which has 16 or 4 bytes.\<close>

definition set_last :: "IP \<Rightarrow> byte \<Rightarrow> IP" where
  "set_last ip b = ip[length ip - 1 := b]"

definition alloc_New :: "'r redis \<Rightarrow> string \<Rightarrow> 'r \<Rightarrow> Allocator result \<times> 'r" where
  "alloc_New R networkCIDR r =
     (case rPing R r of
        (Some err, r') \<Rightarrow> (Inl (Wrapped ''redis connection failed'' err), r')
      | (None, r') \<Rightarrow>
          (case ParseCIDR networkCIDR of
             None \<Rightarrow> (Inl (Wrapped ''invalid CIDR'' (Plain (''invalid CIDR address: '' @ networkCIDR))), r')
           | Some network \<Rightarrow>
               (Inr \<lparr>a_network = network, a_gateway = set_last (net_IP network) 1\<rparr>, r')))"

definition alloc_Ping :: "'r redis \<Rightarrow> 'r \<Rightarrow> go_error option \<times> 'r" where
  "alloc_Ping R r = rPing R r"

definition Gateway :: "Allocator \<Rightarrow> string" where
  "Gateway a = IP_String (a_gateway a)"

definition SubnetMask :: "Allocator \<Rightarrow> string" where
  "SubnetMask a =
     (let mask = net_Mask (a_network a); d = (\<lambda>i. dec_nat (unat (mask ! i)))
      in d 0 @ ''.'' @ d 1 @ ''.'' @ d 2 @ ''.'' @ d 3)"

text \<open>The loop of \<open>incrementIP\<close>: the first argument is \<open>i + 1\<close>.\<close>

fun increment_from :: "nat \<Rightarrow> IP \<Rightarrow> IP" where
  "increment_from 0 ip = ip"
| "increment_from (Suc i) ip =
     (let ip' = ip[i := ip ! i + 1] in if ip' ! i \<noteq> 0 then ip' else increment_from i ip')"

definition incrementIP :: "IP \<Rightarrow> IP" where
  "incrementIP ip = increment_from (length ip) ip"

partial_function (option) find_loop :: "IPNet \<Rightarrow> string list \<Rightarrow> IP \<Rightarrow> IP option option" where
  "find_loop network used ip =
     (if IPNet_Contains network ip then
        (if IP_String ip \<notin> set used then Some (Some ip)
         else find_loop network used (incrementIP ip))
      else Some None)"

definition first_candidate :: "Allocator \<Rightarrow> IP" where
  "first_candidate a = set_last (net_IP (a_network a)) 2"

definition findAvailableIP ::
  "'r redis \<Rightarrow> Allocator \<Rightarrow> instant \<Rightarrow> 'r \<Rightarrow> (IP result \<times> 'r) option" where
  "findAvailableIP R a now r =
     (case rSMembers R now allocatedSetKey r of
        (Inl err, r') \<Rightarrow> Some (Inl (Wrapped ''redis smembers error'' err), r')
      | (Inr allocated, r') \<Rightarrow>
          (case find_loop (a_network a) allocated (first_candidate a) of
             None \<Rightarrow> None
           | Some (Some ip) \<Rightarrow> Some (Inr ip, r')
           | Some None \<Rightarrow> Some (Inl (Plain ''no available IPs in network''), r')))"

text \<open>The count behind the gauge: \<open>SCard(...).Val()\<close>.\<close>

definition report_count :: "'r redis \<Rightarrow> instant \<Rightarrow> 'r \<Rightarrow> 'r \<times> metric_call list" where
  "report_count R now r =
     (case rSCard R now allocatedSetKey r of
        (y, r') \<Rightarrow> (r', [SetGauge ''gordion_allocated_ips_total'' [] (cmd_val y)]))"

text \<open>The second half of \<open>AllocateIP\<close>, from the address found to the return.\<close>

definition assign_ip ::
  "'r redis \<Rightarrow> instant \<Rightarrow> string \<Rightarrow> string \<Rightarrow> 'r \<Rightarrow> string result \<times> 'r \<times> metric_call list" where
  "assign_ip R now nodeID ipStr r =
     (case rSAdd R now allocatedSetKey ipStr r of
        (Some err, r1) \<Rightarrow> (Inl (Wrapped ''redis sadd error'' err), r1, [])
      | (None, r1) \<Rightarrow>
          (case rSet R now (nodeIPKeyPrefix @ nodeID) ipStr 0 r1 of
             (Some err, r2) \<Rightarrow> (Inl (Wrapped ''redis set error'' err), r2, [])
           | (None, r2) \<Rightarrow> (case report_count R now r2 of (r3, ms) \<Rightarrow> (Inr ipStr, r3, ms))))"

definition AllocateIP ::
  "'r redis \<Rightarrow> Allocator \<Rightarrow> instant \<Rightarrow> string \<Rightarrow> 'r \<Rightarrow> (string result \<times> 'r \<times> metric_call list) option" where
  "AllocateIP R a now nodeID r =
     (case rGet R now (nodeIPKeyPrefix @ nodeID) r of
        (Inr existing, r1) \<Rightarrow> Some (Inr existing, r1, [])
      | (Inl _, r1) \<Rightarrow>
          (case findAvailableIP R a now r1 of
             None \<Rightarrow> None
           | Some (Inl err, r2) \<Rightarrow> Some (Inl err, r2, [])
           | Some (Inr ip, r2) \<Rightarrow> Some (assign_ip R now nodeID (IP_String ip) r2)))"

definition ReleaseIP ::
  "'r redis \<Rightarrow> instant \<Rightarrow> string \<Rightarrow> string \<Rightarrow> 'r \<Rightarrow> go_error option \<times> 'r \<times> metric_call list" where
  "ReleaseIP R now nodeID ipAddress r =
     (case rSRem R now allocatedSetKey ipAddress r of
        (Some err, r1) \<Rightarrow> (Some (Wrapped ''redis srem error'' err), r1, [])
      | (None, r1) \<Rightarrow>
          (case rDel R now (nodeIPKeyPrefix @ nodeID) r1 of
             (Some err, r2) \<Rightarrow> (Some (Wrapped ''redis del error'' err), r2, [])
           | (None, r2) \<Rightarrow>
               (case report_count R now r2 of (r3, ms) \<Rightarrow> (None, r3, ms))))"

section \<open>Counting through the addresses\<close>

lemma increment_from_append: "increment_from (length xs) (xs @ ys) = incrementIP xs @ ys"
proof (induction xs arbitrary: ys rule: rev_induct)
  case (snoc b xs)
  show ?case using snoc.IH [of "(b + 1) # ys"] snoc.IH [of "[b + 1]"]
    by (auto simp: incrementIP_def nth_append list_update_append Let_def)
qed (simp add: incrementIP_def)

lemma incrementIP_snoc:
  "incrementIP (xs @ [b]) = (if b + 1 \<noteq> 0 then xs @ [b + 1] else incrementIP xs @ [0])"
  using increment_from_append [of xs "[b + 1]"]
  by (auto simp: incrementIP_def nth_append list_update_append Let_def)

lemma incrementIP_Nil [simp]: "incrementIP [] = []"
  by (simp add: incrementIP_def)

lemma length_incrementIP [simp]: "length (incrementIP ip) = length ip"
  by (induction ip rule: rev_induct) (auto simp: incrementIP_snoc)

lemma length_increments [simp]: "length ((incrementIP ^^ k) ip) = length ip"
  by (induction k) auto

lemma byte_carry: "b + 1 = (0 :: byte) \<longleftrightarrow> unat b = 255"
proof -
  have "b + 1 = 0 \<longleftrightarrow> (unat b + 1) mod 256 = 0"
    by (simp add: word_unat_eq_iff unat_word_ariths)
  also have "\<dots> \<longleftrightarrow> unat b = 255" using unat_byte_less [of b] by (auto simp: mod_Suc)
  finally show ?thesis .
qed

lemma ip_val_incrementIP: "ip_val (incrementIP ip) = (ip_val ip + 1) mod 256 ^ length ip"
proof (induction ip rule: rev_induct)
  case (snoc b ip)
  show ?case
  proof (cases "b + 1 = 0")
    case True
    then have b: "unat b = 255" by (simp add: byte_carry)
    have "256 * ((ip_val ip + 1) mod 256 ^ length ip) = (256 * ip_val ip + 255 + 1) mod (256 * 256 ^ length ip)"
      by (simp add: mult_mod_right algebra_simps)
    with True b snoc show ?thesis by (simp add: incrementIP_snoc)
  next
    case False
    then have b: "unat (b + 1) = unat b + 1" using unat_byte_less [of b]
      by (simp add: byte_carry unat_word_ariths)
    have "ip_val (ip @ [b + 1]) < 256 ^ length (ip @ [b + 1])" by (rule ip_val_less)
    with False b show ?thesis by (simp add: incrementIP_snoc)
  qed
qed simp

lemma ip_val_increments: "ip_val ((incrementIP ^^ k) ip) = (ip_val ip + k) mod 256 ^ length ip"
proof (induction k)
  case 0
  then show ?case using ip_val_less [of ip] by simp
next
  case (Suc k)
  then show ?case by (simp add: ip_val_incrementIP mod_Suc_eq)
qed

text \<open>Counting reaches every address of the same length.\<close>

lemma increments_reach:
  assumes "length ip = length ip'"
  shows "\<exists>k < 256 ^ length ip. (incrementIP ^^ k) ip = ip'"
proof -
  let ?N = "256 ^ length ip :: nat"
  let ?k = "(?N - ip_val ip + ip_val ip') mod ?N"
  have "(ip_val ip + ?k) mod ?N = ip_val ip'"
    using ip_val_less [of ip] ip_val_less [of ip'] assms by (simp add: mod_add_right_eq)
  then have "ip_val ((incrementIP ^^ ?k) ip) = ip_val ip'" by (simp add: ip_val_increments)
  then have "(incrementIP ^^ ?k) ip = ip'" using assms by (intro ip_val_inject) simp_all
  moreover have "?k < ?N" by simp
  ultimately show ?thesis by blast
qed

section \<open>The search loop\<close>

abbreviation taken :: "IPNet \<Rightarrow> string list \<Rightarrow> IP \<Rightarrow> bool" where
  "taken network used ip \<equiv> IPNet_Contains network ip \<and> IP_String ip \<in> set used"

lemma find_loop_at:
  "\<forall>j < k. taken n used ((incrementIP ^^ j) ip) \<Longrightarrow> \<not> taken n used ((incrementIP ^^ k) ip) \<Longrightarrow>
   find_loop n used ip =
     Some (if IPNet_Contains n ((incrementIP ^^ k) ip) then Some ((incrementIP ^^ k) ip) else None)"
proof (induction k arbitrary: ip)
  case 0
  then show ?case by (subst find_loop.simps) auto
next
  case (Suc k)
  have "\<forall>j < k. taken n used ((incrementIP ^^ j) (incrementIP ip))"
    using Suc.prems(1) by (metis Suc_mono funpow_induct_step)
  moreover have "\<not> taken n used ((incrementIP ^^ k) (incrementIP ip))"
    using Suc.prems(2) by (simp only: funpow_induct_step not_False_eq_True)
  ultimately have "find_loop n used (incrementIP ip) =
     Some (if IPNet_Contains n ((incrementIP ^^ Suc k) ip) then Some ((incrementIP ^^ Suc k) ip) else None)"
    unfolding funpow_induct_step by (rule Suc.IH)
  moreover have "taken n used ip" using Suc.prems(1) by force
  ultimately show ?case by (subst find_loop.simps) simp
qed

lemma find_loop_stops: "find_loop n used ip = Some y \<Longrightarrow> \<exists>k. \<not> taken n used ((incrementIP ^^ k) ip)"
proof (induction rule: find_loop.raw_induct [rotated, consumes 1])
  case (1 f n used ip y)
  show ?case
  proof (cases "taken n used ip")
    case True
    with 1 have "\<exists>k. \<not> taken n used ((incrementIP ^^ k) (incrementIP ip))" by simp
    then obtain k where "\<not> taken n used ((incrementIP ^^ k) (incrementIP ip))" by blast
    then have "\<not> taken n used ((incrementIP ^^ Suc k) ip)" by (simp only: funpow_induct_step not_False_eq_True)
    then show ?thesis by blast
  next
    case False
    then have "\<not> taken n used ((incrementIP ^^ 0) ip)" by simp
    then show ?thesis by blast
  qed
qed

lemma find_loop_least:
  assumes "\<not> taken n used ((incrementIP ^^ k) ip)"
  obtains m where "m \<le> k" "\<forall>j < m. taken n used ((incrementIP ^^ j) ip)"
    "\<not> taken n used ((incrementIP ^^ m) ip)"
    "find_loop n used ip =
       Some (if IPNet_Contains n ((incrementIP ^^ m) ip) then Some ((incrementIP ^^ m) ip) else None)"
proof -
  define m where "m = (LEAST m. \<not> taken n used ((incrementIP ^^ m) ip))"
  have le: "m \<le> k" unfolding m_def using assms by (rule Least_le)
  have st: "\<not> taken n used ((incrementIP ^^ m) ip)" unfolding m_def using assms by (rule LeastI)
  have be: "\<forall>j < m. taken n used ((incrementIP ^^ j) ip)" unfolding m_def using not_less_Least by blast
  show thesis by (rule that [OF le be st find_loop_at [OF be st]])
qed

text \<open>The address the loop returns is the first free one from its start, all of them before it
  being inside the network and in use.\<close>

lemma find_loop_found:
  assumes "find_loop n used ip = Some (Some x)"
  obtains k where "x = (incrementIP ^^ k) ip" "IPNet_Contains n x" "IP_String x \<notin> set used"
    "\<forall>j < k. taken n used ((incrementIP ^^ j) ip)"
proof -
  from find_loop_stops [OF assms] obtain k where "\<not> taken n used ((incrementIP ^^ k) ip)" by blast
  then obtain m where m: "\<forall>j < m. taken n used ((incrementIP ^^ j) ip)"
    "\<not> taken n used ((incrementIP ^^ m) ip)"
    "find_loop n used ip =
       Some (if IPNet_Contains n ((incrementIP ^^ m) ip) then Some ((incrementIP ^^ m) ip) else None)"
    by (rule find_loop_least)
  with assms show thesis by (intro that [of m]) (auto split: if_splits)
qed

lemma find_loop_exhausted:
  assumes "find_loop n used ip = Some None"
  obtains k where "\<not> IPNet_Contains n ((incrementIP ^^ k) ip)"
    "\<forall>j < k. taken n used ((incrementIP ^^ j) ip)"
proof -
  from find_loop_stops [OF assms] obtain k where "\<not> taken n used ((incrementIP ^^ k) ip)" by blast
  then obtain m where m: "\<forall>j < m. taken n used ((incrementIP ^^ j) ip)"
    "\<not> taken n used ((incrementIP ^^ m) ip)"
    "find_loop n used ip =
       Some (if IPNet_Contains n ((incrementIP ^^ m) ip) then Some ((incrementIP ^^ m) ip) else None)"
    by (rule find_loop_least)
  with assms show thesis by (intro that [of m]) (auto split: if_splits)
qed

lemma find_loop_terminates:
  assumes "length ip = length ip'" and "\<not> IPNet_Contains n ip'"
  shows "find_loop n used ip \<noteq> None"
proof -
  from increments_reach [OF assms(1)] obtain k where "(incrementIP ^^ k) ip = ip'" by blast
  with assms(2) have "\<not> taken n used ((incrementIP ^^ k) ip)" by simp
  then show ?thesis by (rule find_loop_least) auto
qed

section \<open>What the operations do to the store\<close>

lemma node_key_ne [simp]: "nodeIPKeyPrefix @ n \<noteq> allocatedSetKey" "allocatedSetKey \<noteq> nodeIPKeyPrefix @ n"
  by (simp_all add: nodeIPKeyPrefix_def allocatedSetKey_def)

text \<open>\<open>first_free a S s\<close>: \<open>s\<close> is the first address, counting from the first candidate, that is
  not in \<open>S\<close>; it and every address before it are inside the network.\<close>

definition first_free :: "Allocator \<Rightarrow> string set \<Rightarrow> string \<Rightarrow> bool" where
  "first_free a S s \<longleftrightarrow> s \<notin> S \<and>
     (\<exists>k. s = IP_String ((incrementIP ^^ k) (first_candidate a))
          \<and> IPNet_Contains (a_network a) ((incrementIP ^^ k) (first_candidate a))
          \<and> (\<forall>j < k. IPNet_Contains (a_network a) ((incrementIP ^^ j) (first_candidate a))
               \<and> IP_String ((incrementIP ^^ j) (first_candidate a)) \<in> S))"

text \<open>\<open>exhausted a S\<close>: every address from the first candidate to the end of the network is in
  \<open>S\<close>.\<close>

definition exhausted :: "Allocator \<Rightarrow> string set \<Rightarrow> bool" where
  "exhausted a S \<longleftrightarrow>
     (\<exists>k. \<not> IPNet_Contains (a_network a) ((incrementIP ^^ k) (first_candidate a))
          \<and> (\<forall>j < k. IPNet_Contains (a_network a) ((incrementIP ^^ j) (first_candidate a))
               \<and> IP_String ((incrementIP ^^ j) (first_candidate a)) \<in> S))"

context redis_laws
begin

lemma findAvailableIP_cases:
  assumes "findAvailableIP R a t r = Some (res, r')"
  obtains (found) ip where "res = Inr ip" "first_free a (mem r allocatedSetKey) (IP_String ip)"
      "unchanged live mem t r r'" "up r \<longrightarrow> up r'"
  | (full) "res = Inl (Plain ''no available IPs in network'')" "exhausted a (mem r allocatedSetKey)"
      "unchanged live mem t r r'"
  | (down) e where "res = Inl (Wrapped ''redis smembers error'' e)" "unchanged live mem t r r'"
      "\<not> (up r \<and> live t r allocatedSetKey = None)"
proof -
  obtain z r1 where z: "rSMembers R t allocatedSetKey r = (z, r1)" by fastforce
  note law = smembers_law [OF z]
  show thesis
  proof (cases z)
    case (Inl e)
    with z assms have "res = Inl (Wrapped ''redis smembers error'' e)" "r' = r1"
      by (auto simp: findAvailableIP_def)
    with law Inl show thesis by (intro down) auto
  next
    case (Inr used)
    with law have set: "set used = mem r allocatedSetKey" by simp
    from Inr z assms obtain y where y: "find_loop (a_network a) used (first_candidate a) = Some y"
      and res: "res = (case y of None \<Rightarrow> Inl (Plain ''no available IPs in network'') | Some ip \<Rightarrow> Inr ip)"
      and r': "r' = r1"
      by (auto simp: findAvailableIP_def split: option.splits)
    show thesis
    proof (cases y)
      case None
      from find_loop_exhausted [OF y [unfolded None]] set have "exhausted a (mem r allocatedSetKey)"
        unfolding exhausted_def by metis
      with None res r' law show thesis by (intro full) auto
    next
      case (Some ip)
      from find_loop_found [OF y [unfolded Some]] set
      have "first_free a (mem r allocatedSetKey) (IP_String ip)"
        unfolding first_free_def by metis
      with Some res r' law show thesis by (intro found) auto
    qed
  qed
qed

lemma report_count_unchanged:
  assumes "report_count R t r = (r', ms)"
  shows "unchanged live mem t r r' \<and> (up r \<longrightarrow> up r')"
proof -
  obtain y r1 where y: "rSCard R t allocatedSetKey r = (y, r1)" by fastforce
  with assms have "r' = r1" by (auto simp: report_count_def)
  with scard_law [OF y] show ?thesis by simp
qed

text \<open>How the second half may end: only the reservation is made, or both writes are.\<close>

lemma assign_ip_cases:
  assumes "assign_ip R t nid s r = (res, r', ms)"
  obtains (untouched) e where "res = Inl e" "unchanged live mem t r r'"
      "\<not> (up r \<and> live t r allocatedSetKey = None)"
  | (reserved) e where "res = Inl e" "\<not> (up r \<and> live t r allocatedSetKey = None)"
      "set_written live mem t allocatedSetKey (insert s (mem r allocatedSetKey)) r r'"
  | (assigned) "res = Inr s \<and> (up r \<longrightarrow> up r') \<or> (\<exists>e. res = Inl e) \<and> \<not> (up r \<and> live t r allocatedSetKey = None)"
      "mem r' allocatedSetKey = insert s (mem r allocatedSetKey)"
      "mem r' (nodeIPKeyPrefix @ nid) \<subseteq> mem r (nodeIPKeyPrefix @ nid)"
      "\<forall>u \<ge> t. live u r' = (live u r)(nodeIPKeyPrefix @ nid \<mapsto> s)"
proof -
  obtain x r1 where x: "rSAdd R t allocatedSetKey s r = (x, r1)" by fastforce
  note add = sadd_law [OF x]
  show thesis
  proof (cases x)
    case (Some e)
    with x assms have res: "res = Inl (Wrapped ''redis sadd error'' e)" and r': "r' = r1"
      by (auto simp: assign_ip_def)
    from add Some have down: "\<not> (up r \<and> live t r allocatedSetKey = None)" by auto
    show thesis
    proof (cases "unchanged live mem t r r'")
      case True
      with res down show thesis by (intro untouched)
    next
      case False
      with add Some r' have "set_written live mem t allocatedSetKey (insert s (mem r allocatedSetKey)) r r'"
        by (simp add: outcome_def)
      with res down show thesis by (intro reserved)
    qed
  next
    case None
    obtain w r2 where w: "rSet R t (nodeIPKeyPrefix @ nid) s 0 r1 = (w, r2)" by fastforce
    obtain r3 ms' where rc: "report_count R t r2 = (r3, ms')" by fastforce
    from x w rc None assms
    have res: "res = (case w of None \<Rightarrow> Inr s | Some e \<Rightarrow> Inl (Wrapped ''redis set error'' e))"
      and r': "r' = (if w = None then r3 else r2)"
      by (auto simp: assign_ip_def split: option.splits)
    from r' report_count_unchanged [OF rc] have r': "unchanged live mem t r2 r'" "up r2 \<longrightarrow> up r'"
      by (auto simp: unchanged_def)
    from add None have r1: "set_written live mem t allocatedSetKey (insert s (mem r allocatedSetKey)) r r1"
      "up r \<longrightarrow> up r1" by (simp_all add: outcome_def)
    note st = set_law [OF w, simplified]
    show thesis
    proof (cases "written live mem t (nodeIPKeyPrefix @ nid) (\<lambda>u. Some s) r1 r2")
      case True
      with r1 r' have "mem r' allocatedSetKey = insert s (mem r allocatedSetKey)"
        "mem r' (nodeIPKeyPrefix @ nid) \<subseteq> mem r (nodeIPKeyPrefix @ nid)"
        "\<forall>u \<ge> t. live u r' = (live u r)(nodeIPKeyPrefix @ nid \<mapsto> s)"
        by (auto simp: written_def set_written_def unchanged_def)
      then show thesis using res r1 r' st by (intro assigned) (auto split: option.splits)
    next
      case False
      with st have w: "w \<noteq> None" "unchanged live mem t r1 r2" "\<not> up r1"
        by (auto simp: outcome_def split: if_splits)
      with r1 r' have "set_written live mem t allocatedSetKey (insert s (mem r allocatedSetKey)) r r'"
        by (auto simp: set_written_def unchanged_def)
      then show thesis using w res r1 by (auto intro: reserved)
    qed
  qed
qed

text \<open>The four ways a call of \<open>AllocateIP\<close> may end, as seen by a later read.\<close>

lemma AllocateIP_cases:
  assumes "AllocateIP R a t nid r = Some (res, r', ms)"
  obtains (existing) s where "res = Inr s" "live t r (nodeIPKeyPrefix @ nid) = Some s"
      "unchanged live mem t r r'"
  | (untouched) e where "res = Inl e" "unchanged live mem t r r'"
  | (reserved) e s where "res = Inl e" "first_free a (mem r allocatedSetKey) s"
      "set_written live mem t allocatedSetKey (insert s (mem r allocatedSetKey)) r r'"
  | (assigned) s where "res = Inr s \<or> (\<exists>e. res = Inl e)" "first_free a (mem r allocatedSetKey) s"
      "mem r' allocatedSetKey = insert s (mem r allocatedSetKey)"
      "\<forall>u \<ge> t. live u r' = (live u r)(nodeIPKeyPrefix @ nid \<mapsto> s)"
proof -
  obtain g r1 where g: "rGet R t (nodeIPKeyPrefix @ nid) r = (g, r1)" by fastforce
  note get = get_law [OF g]
  show thesis
  proof (cases g)
    case (Inr s)
    with g assms have "res = Inr s" "r' = r1" by (auto simp: AllocateIP_def)
    with get Inr show thesis by (intro existing [of s]) auto
  next
    case (Inl ge)
    with g assms obtain fr r2 where f: "findAvailableIP R a t r1 = Some (fr, r2)"
      by (auto simp: AllocateIP_def split: option.splits)
    from get have same: "mem r1 = mem r" "\<forall>u \<ge> t. live u r1 = live u r"
      by (simp_all add: unchanged_def)
    from f have same2: "mem r2 = mem r" "\<forall>u \<ge> t. live u r2 = live u r"
      using same by (cases rule: findAvailableIP_cases; simp add: unchanged_def)+
    show thesis
    proof (cases fr)
      case (Inl e)
      with g f \<open>g = Inl ge\<close> assms have "res = Inl e" "r' = r2" by (auto simp: AllocateIP_def)
      moreover from this same2 have "unchanged live mem t r r'" by (simp add: unchanged_def)
      ultimately show thesis by (intro untouched)
    next
      case (Inr ip)
      from f Inr same have ff: "first_free a (mem r allocatedSetKey) (IP_String ip)"
        by (cases rule: findAvailableIP_cases) auto
      from g f \<open>g = Inl ge\<close> Inr assms have "assign_ip R t nid (IP_String ip) r2 = (res, r', ms)"
        by (auto simp: AllocateIP_def)
      then show thesis
      proof (cases rule: assign_ip_cases)
        case (untouched e)
        with same2 show thesis by (auto simp: unchanged_def intro: that(2))
      next
        case (reserved e)
        with same2 ff show thesis by (auto simp: set_written_def intro: that(3))
      next
        case assigned
        with same2 ff show thesis by (intro that(4)) auto
      qed
    qed
  qed
qed

end

section \<open>The allocation table\<close>

text \<open>The abstract state of the allocator is a table from nodes to addresses. The store holds a
  table when its node records, which have no time to live, are that table; the table is sound for
  a set of allocated addresses when its addresses are in the set and no two nodes share one.\<close>

definition holds_table :: "'r live_view \<Rightarrow> instant \<Rightarrow> 'r \<Rightarrow> (string \<rightharpoonup> string) \<Rightarrow> bool" where
  "holds_table live t r tbl \<longleftrightarrow> (\<forall>u \<ge> t. \<forall>n. live u r (nodeIPKeyPrefix @ n) = tbl n)"

definition table_sound :: "(string \<rightharpoonup> string) \<Rightarrow> string set \<Rightarrow> bool" where
  "table_sound tbl S \<longleftrightarrow> ran tbl \<subseteq> S \<and> inj_on tbl (dom tbl)"

definition alloc_inv :: "'r live_view \<Rightarrow> 'r set_view \<Rightarrow> instant \<Rightarrow> 'r \<Rightarrow> bool" where
  "alloc_inv live mem t r \<longleftrightarrow>
     (\<exists>tbl. holds_table live t r tbl \<and> table_sound tbl (mem r allocatedSetKey))"

lemma table_sound_update: "table_sound tbl S \<Longrightarrow> s \<notin> S \<Longrightarrow> table_sound (tbl(n \<mapsto> s)) (insert s S)"
  by (fastforce simp: table_sound_def ran_def inj_on_def dom_def)

lemma table_sound_remove: "table_sound tbl S \<Longrightarrow> tbl n = Some s \<Longrightarrow> table_sound (tbl(n := None)) (S - {s})"
  by (fastforce simp: table_sound_def ran_def inj_on_def dom_def)

lemma table_sound_mono: "table_sound tbl S \<Longrightarrow> S \<subseteq> S' \<Longrightarrow> table_sound tbl S'"
  by (auto simp: table_sound_def)

lemma table_sound_unique: "table_sound tbl S \<Longrightarrow> tbl n = Some s \<Longrightarrow> tbl m = Some s \<Longrightarrow> n = m"
  by (metis domI inj_onD table_sound_def)

text \<open>
  The states the allocator may reach: any call of \<open>AllocateIP\<close>, whatever it returns, and the
  calls of \<open>ReleaseIP\<close> that return no error and name the node's own address. Time does not
  go back.
\<close>

inductive alloc_reach ::
  "'r redis \<Rightarrow> 'r live_view \<Rightarrow> Allocator \<Rightarrow> instant \<Rightarrow> 'r \<Rightarrow> instant \<Rightarrow> 'r \<Rightarrow> bool"
  for R live a t0 r0 where
  reach_start: "alloc_reach R live a t0 r0 t0 r0"
| reach_allocate: "alloc_reach R live a t0 r0 t r \<Longrightarrow> t \<le> t' \<Longrightarrow>
     AllocateIP R a t' nid r = Some (res, r', ms) \<Longrightarrow> alloc_reach R live a t0 r0 t' r'"
| reach_release: "alloc_reach R live a t0 r0 t r \<Longrightarrow> t \<le> t' \<Longrightarrow>
     live t' r (nodeIPKeyPrefix @ nid) = Some ip \<Longrightarrow>
     ReleaseIP R t' nid ip r = (None, r', ms) \<Longrightarrow> alloc_reach R live a t0 r0 t' r'"

lemma alloc_inv_mono: "alloc_inv live mem t r \<Longrightarrow> t \<le> t' \<Longrightarrow> alloc_inv live mem t' r"
  unfolding alloc_inv_def holds_table_def by (meson order_trans)

context redis_laws
begin

text \<open>The table after \<open>AllocateIP\<close>: the old one, or the old one with a fresh address for the
  node.\<close>

lemma AllocateIP_table:
  assumes tbl: "holds_table live t r tbl" and run: "AllocateIP R a t nid r = Some (res, r', ms)"
  obtains (same) "holds_table live t r' tbl" "mem r allocatedSetKey \<subseteq> mem r' allocatedSetKey"
  | (assigned) s where "holds_table live t r' (tbl(nid \<mapsto> s))" "s \<notin> mem r allocatedSetKey"
      "mem r' allocatedSetKey = insert s (mem r allocatedSetKey)"
  using run
proof (cases rule: AllocateIP_cases)
  case (assigned s)
  from assigned(2) have "s \<notin> mem r allocatedSetKey" by (simp add: first_free_def)
  with assigned(3,4) tbl show ?thesis by (intro that(2) [of s]) (auto simp: holds_table_def)
qed (use tbl that(1) in \<open>auto simp: holds_table_def unchanged_def set_written_def\<close>)

lemma AllocateIP_keeps_inv:
  assumes inv: "alloc_inv live mem t r" and run: "AllocateIP R a t nid r = Some (res, r', ms)"
  shows "alloc_inv live mem t r'"
proof -
  from inv obtain tbl where tbl: "holds_table live t r tbl" "table_sound tbl (mem r allocatedSetKey)"
    by (auto simp: alloc_inv_def)
  from tbl(1) run show ?thesis
    by (cases rule: AllocateIP_table)
      (use tbl(2) in \<open>auto simp: alloc_inv_def intro: table_sound_mono table_sound_update\<close>)
qed

text \<open>A release that reports success has removed the address and the node's record.\<close>

lemma ReleaseIP_done:
  assumes "ReleaseIP R t nid ip r = (None, r', ms)"
  shows "mem r' allocatedSetKey = mem r allocatedSetKey - {ip}"
    and "\<forall>u \<ge> t. live u r' = (live u r)(nodeIPKeyPrefix @ nid := None)"
    and "\<forall>k. k \<noteq> nid \<longrightarrow> mem r' (nodeIPKeyPrefix @ k) = mem r (nodeIPKeyPrefix @ k)" and "up r \<longrightarrow> up r'"
proof -
  obtain x r1 where x: "rSRem R t allocatedSetKey ip r = (x, r1)" by fastforce
  obtain y r2 where y: "rDel R t (nodeIPKeyPrefix @ nid) r1 = (y, r2)" by fastforce
  obtain r3 ms' where rc: "report_count R t r2 = (r3, ms')" by fastforce
  from x y rc assms have "x = None" "y = None" "r' = r3"
    by (auto simp: ReleaseIP_def split: option.splits)
  with srem_law [OF x] del_law [OF y] report_count_unchanged [OF rc]
  show "mem r' allocatedSetKey = mem r allocatedSetKey - {ip}"
    and "\<forall>u \<ge> t. live u r' = (live u r)(nodeIPKeyPrefix @ nid := None)"
    and "\<forall>k. k \<noteq> nid \<longrightarrow> mem r' (nodeIPKeyPrefix @ k) = mem r (nodeIPKeyPrefix @ k)" and "up r \<longrightarrow> up r'"
    by (auto simp: outcome_def set_written_def written_def unchanged_def)
qed

lemma ReleaseIP_keeps_inv:
  assumes inv: "alloc_inv live mem t r" and own: "live t r (nodeIPKeyPrefix @ nid) = Some ip"
    and run: "ReleaseIP R t nid ip r = (None, r', ms)"
  shows "alloc_inv live mem t r'"
proof -
  from inv obtain tbl where tbl: "holds_table live t r tbl" "table_sound tbl (mem r allocatedSetKey)"
    by (auto simp: alloc_inv_def)
  with own have "tbl nid = Some ip" by (auto simp: holds_table_def)
  with tbl(2) have "table_sound (tbl(nid := None)) (mem r' allocatedSetKey)"
    unfolding ReleaseIP_done(1) [OF run] by (rule table_sound_remove)
  moreover have "holds_table live t r' (tbl(nid := None))"
    using tbl(1) ReleaseIP_done(2) [OF run] by (auto simp: holds_table_def)
  ultimately show ?thesis unfolding alloc_inv_def by blast
qed

lemma alloc_reach_inv:
  "alloc_reach R live a t0 r0 t r \<Longrightarrow> alloc_inv live mem t0 r0 \<Longrightarrow> alloc_inv live mem t r"
  by (induction rule: alloc_reach.induct)
    (blast intro: alloc_inv_mono AllocateIP_keeps_inv ReleaseIP_keeps_inv)+

end

section \<open>Termination\<close>

text \<open>Unless the network is the whole address space, the search ends.\<close>

lemma length_first_candidate [simp]: "length (first_candidate a) = length (net_IP (a_network a))"
  by (simp add: first_candidate_def set_last_def)

lemma search_terminates:
  assumes "net_wf (a_network a)" "\<exists>k \<in> set (net_Mask (a_network a)). k \<noteq> 0"
  shows "find_loop (a_network a) used (first_candidate a) \<noteq> None"
  using complement_outside [OF assms] by (intro find_loop_terminates) auto

lemma findAvailableIP_returns:
  assumes "net_wf (a_network a)" "\<exists>k \<in> set (net_Mask (a_network a)). k \<noteq> 0"
  shows "findAvailableIP R a t r \<noteq> None"
proof (cases "rSMembers R t allocatedSetKey r")
  case (Pair z r1)
  show ?thesis
  proof (cases z)
    case (Inr used)
    with Pair search_terminates [OF assms, of used] show ?thesis
      by (auto simp: findAvailableIP_def split: option.splits)
  qed (use Pair in \<open>simp add: findAvailableIP_def\<close>)
qed

lemma AllocateIP_returns:
  assumes "net_wf (a_network a)" "\<exists>k \<in> set (net_Mask (a_network a)). k \<noteq> 0"
  shows "AllocateIP R a t nid r \<noteq> None"
proof (cases "rGet R t (nodeIPKeyPrefix @ nid) r")
  case (Pair g r1)
  obtain fr r2 where f: "findAvailableIP R a t r1 = Some (fr, r2)"
    using findAvailableIP_returns [OF assms, of R t r1] by fastforce
  with Pair show ?thesis
    by (cases g; cases fr) (simp_all add: AllocateIP_def del: not_None_eq)
qed

section \<open>A server without faults\<close>

context redis_laws
begin

text \<open>With the server up and the two keys free of values of another type, a call of
  \<open>AllocateIP\<close> that returns gives the node's address, a fresh one, or reports a full network.\<close>

lemma AllocateIP_up:
  assumes run: "AllocateIP R a t nid r = Some (res, r', ms)" and up: "up r"
    and A: "live t r allocatedSetKey = None" and K: "mem r (nodeIPKeyPrefix @ nid) = {}"
  obtains (existing) s where "live t r (nodeIPKeyPrefix @ nid) = Some s" "res = Inr s"
      "unchanged live mem t r r'" "up r'"
  | (full) "live t r (nodeIPKeyPrefix @ nid) = None" "exhausted a (mem r allocatedSetKey)"
      "res = Inl (Plain ''no available IPs in network'')" "unchanged live mem t r r'"
  | (fresh) s where "live t r (nodeIPKeyPrefix @ nid) = None" "first_free a (mem r allocatedSetKey) s"
      "res = Inr s" "mem r' allocatedSetKey = insert s (mem r allocatedSetKey)"
      "\<forall>u \<ge> t. live u r' = (live u r)(nodeIPKeyPrefix @ nid \<mapsto> s)"
      "mem r' (nodeIPKeyPrefix @ nid) = {}" "up r'"
proof -
  obtain g r1 where g: "rGet R t (nodeIPKeyPrefix @ nid) r = (g, r1)" by fastforce
  note get = get_law [OF g]
  from get have same: "mem r1 = mem r" "\<forall>u \<ge> t. live u r1 = live u r" and up1: "up r1"
    using up by (simp_all add: unchanged_def)
  show thesis
  proof (cases g)
    case (Inr s)
    with g run have "res = Inr s" "r' = r1" by (auto simp: AllocateIP_def)
    with get Inr up1 show thesis by (intro existing [of s]) auto
  next
    case (Inl ge)
    with get up K have none: "live t r (nodeIPKeyPrefix @ nid) = None" by (cases ge) auto
    from Inl g run obtain fr r2 where f: "findAvailableIP R a t r1 = Some (fr, r2)"
      by (auto simp: AllocateIP_def split: option.splits)
    then show thesis
    proof (cases rule: findAvailableIP_cases)
      case (found ip)
      from g f Inl found(1) run have "assign_ip R t nid (IP_String ip) r2 = (res, r', ms)"
        by (auto simp: AllocateIP_def)
      moreover from found same up1 A have "up r2 \<and> live t r2 allocatedSetKey = None"
        and r2: "mem r2 = mem r" "\<forall>u \<ge> t. live u r2 = live u r"
        by (simp_all add: unchanged_def)
      ultimately have "res = Inr (IP_String ip) \<and> up r'
          \<and> mem r' allocatedSetKey = insert (IP_String ip) (mem r2 allocatedSetKey)
          \<and> mem r' (nodeIPKeyPrefix @ nid) \<subseteq> mem r2 (nodeIPKeyPrefix @ nid)
          \<and> (\<forall>u \<ge> t. live u r' = (live u r2)(nodeIPKeyPrefix @ nid \<mapsto> IP_String ip))"
        by (cases rule: assign_ip_cases) auto
      with found(2) r2 same none K show thesis by (intro fresh) auto
    next
      case full
      with g f Inl run have "res = Inl (Plain ''no available IPs in network'')" "r' = r2"
        by (auto simp: AllocateIP_def)
      moreover from full(3) same this have "unchanged live mem t r r'" by (simp add: unchanged_def)
      ultimately show thesis using full(2) same none by (intro that(2)) auto
    next
      case (down e)
      with up1 A same show thesis by simp
    qed
  qed
qed

end

section \<open>Properties\<close>

text \<open>The example allocator of the witnesses: the network 10.8.0.0/24 of the sample
  configuration.\<close>

definition demo_alloc :: Allocator where
  "demo_alloc = \<lparr>a_network = \<lparr>net_IP = [10, 8, 0, 0], net_Mask = [255, 255, 255, 0]\<rparr>, a_gateway = [10, 8, 0, 1]\<rparr>"

lemmas alloc_eval = AllocateIP_def findAvailableIP_def assign_ip_def report_count_def
  ReleaseIP_def mem_redis_sel attempt_def next_faults_def db_empty_def db_live_def put_set_def
  put_str_def first_candidate_def set_last_def nodeIPKeyPrefix_def allocatedSetKey_def
  IPNet_Contains_def networkNumberAndMask_def To4_def masked_eq_def v4_string_def dec_nat.simps
  incrementIP_def find_loop.simps

lemma demo_run: "AllocateIP mem_redis demo_alloc 0 ''a'' db_empty =
   Some (Inr ''10.8.0.2'',
     put_str ''ip:node:a'' (Some (''10.8.0.2'', None)) (put_set ''ip:allocated'' [''10.8.0.2''] db_empty),
     [SetGauge ''gordion_allocated_ips_total'' [] 1])"
  by (simp add: alloc_eval demo_alloc_def)

abbreviation demo_db :: mem_db where
  "demo_db \<equiv> put_str ''ip:node:a'' (Some (''10.8.0.2'', None)) (put_set ''ip:allocated'' [''10.8.0.2''] db_empty)"

lemma demo_views [simp]:
  "db_live u demo_db = [''ip:node:a'' \<mapsto> ''10.8.0.2'']"
  "db_mem demo_db = (\<lambda>_. {})(''ip:allocated'' := {''10.8.0.2''})"
  "db_live u db_empty = Map.empty" "db_mem db_empty = (\<lambda>_. {})"
  "db_up demo_db" "db_up db_empty"
  by (auto simp: fun_eq_iff db_live_def db_mem_def put_str_def put_set_def db_empty_def db_up_def)



text \<open>C14. What \<open>AllocateIP\<close> does when the server answers. It always returns; a node that has an
  address gets it again and nothing changes; a new node gets the first address from the network's
  \<open>.2\<close> upwards that nobody has, which is then on record for it and marked as allocated, and the
  record of every other node stays; if there is no such address the call reports it and changes
  nothing.\<close>

theorem alloc_first_free:
  assumes laws: "redis_laws R live mem up" and up: "up r"
    and A: "live t r allocatedSetKey = None" and K: "mem r (nodeIPKeyPrefix @ nid) = {}"
    and net: "net_wf (a_network a)" and mask: "\<exists>k \<in> set (net_Mask (a_network a)). k \<noteq> 0"
  shows "\<exists>res r' ms. AllocateIP R a t nid r = Some (res, r', ms) \<and>
    (case live t r (nodeIPKeyPrefix @ nid) of
       Some s \<Rightarrow> res = Inr s \<and> unchanged live mem t r r'
     | None \<Rightarrow>
         exhausted a (mem r allocatedSetKey) \<and> unchanged live mem t r r'
           \<and> res = Inl (Plain ''no available IPs in network'')
         \<or> (\<exists>s. first_free a (mem r allocatedSetKey) s \<and> res = Inr s
              \<and> mem r' allocatedSetKey = insert s (mem r allocatedSetKey)
              \<and> (\<forall>u \<ge> t. live u r' = (live u r)(nodeIPKeyPrefix @ nid \<mapsto> s))))"
proof -
  from AllocateIP_returns [OF net mask] obtain res r' ms
    where run: "AllocateIP R a t nid r = Some (res, r', ms)" by fastforce
  then show ?thesis
    using redis_laws.AllocateIP_up [OF laws run up A K] by (cases "live t r (nodeIPKeyPrefix @ nid)") auto
qed

theorem alloc_first_free_witness:
  "\<exists>res r' ms. AllocateIP mem_redis demo_alloc 0 ''a'' demo_db = Some (res, r', ms) \<and> res = Inr ''10.8.0.2''"
  using alloc_first_free [OF mem_store.redis_laws_axioms, of demo_db 0 "''a''" demo_alloc]
  by (auto simp: nodeIPKeyPrefix_def allocatedSetKey_def demo_alloc_def net_wf_def)

text \<open>An allocation is stable: the address that \<open>AllocateIP\<close> returned is returned to the same
  node by every later call, as long as the server answers it, without a change of the store.\<close>

theorem alloc_stable:
  assumes laws: "redis_laws R live mem up" and up: "up r" and A: "live t r allocatedSetKey = None"
    and K: "mem r (nodeIPKeyPrefix @ nid) = {}" and inv: "alloc_inv live mem t r"
    and run: "AllocateIP R a t nid r = Some (Inr s, r1, ms)" and later: "t \<le> t'"
  shows "\<exists>r2. AllocateIP R a t' nid r1 = Some (Inr s, r2, []) \<and> unchanged live mem t' r1 r2"
proof -
  have r1: "live t r1 (nodeIPKeyPrefix @ nid) = Some s \<and> up r1 \<and> mem r1 (nodeIPKeyPrefix @ nid) = {}"
    using run up A K by (rule redis_laws.AllocateIP_up [OF laws]) (use K in \<open>auto simp: unchanged_def\<close>)
  have "alloc_inv live mem t r1" using inv run by (rule redis_laws.AllocateIP_keeps_inv [OF laws])
  with later r1 have live: "live t' r1 (nodeIPKeyPrefix @ nid) = Some s"
    by (auto simp: alloc_inv_def holds_table_def)
  obtain g r2 where g: "rGet R t' (nodeIPKeyPrefix @ nid) r1 = (g, r2)" by fastforce
  from redis_laws.get_law [OF laws g] live r1 have "g = Inr s" "unchanged live mem t' r1 r2"
    by (cases g; auto intro: redis_err.exhaust)+
  with g show ?thesis by (simp add: AllocateIP_def)
qed

theorem alloc_stable_witness:
  "\<exists>r2. AllocateIP mem_redis demo_alloc 7 ''a'' demo_db = Some (Inr ''10.8.0.2'', r2, [])
     \<and> unchanged db_live db_mem 7 demo_db r2"
proof (rule alloc_stable [OF mem_store.redis_laws_axioms _ _ _ _ demo_run])
  show "alloc_inv db_live db_mem 0 db_empty"
    by (auto simp: alloc_inv_def holds_table_def table_sound_def intro!: exI [of _ Map.empty])
qed (simp_all add: nodeIPKeyPrefix_def)

text \<open>C15. \<open>AllocateIP\<close> always returns: for an allocator made by \<open>New\<close> from any CIDR other than a
  prefix of length 0, and any Redis server, the search loop ends.\<close>

theorem alloc_always_returns:
  assumes "alloc_New R0 cidr r0 = (Inr a, r1)" and "\<exists>k \<in> set (net_Mask (a_network a)). k \<noteq> 0"
  shows "\<exists>res r' ms. AllocateIP R a t nid r = Some (res, r', ms)"
proof -
  from assms(1) have "net_wf (a_network a)"
    by (auto simp: alloc_New_def ParseCIDR_wf split: prod.splits option.splits)
  with assms(2) AllocateIP_returns [of a R t nid r] show ?thesis by fastforce
qed

lemma demo_ParseCIDR: "ParseCIDR ''10.8.0.0/24'' = Some (a_network demo_alloc)"
proof -
  have "ParseAddr ''10.8.0.0'' = Some [10, 8, 0, 0]"
    using ParseAddr_v4_string [of "[10, 8, 0, 0]"] by (simp add: v4_string_def dec_nat.simps)
  moreover have "parse_prefix ''24'' = Some 24"
    by (simp add: parse_prefix_def char_digit_def)
  moreover have "CIDRMask 24 32 = [255, 255, 255, 0]"
    by (simp add: CIDRMask_def cidr_bytes_numeral)
  ultimately show ?thesis by (simp add: ParseCIDR_def demo_alloc_def mask_ip_def Let_def)
qed

lemma demo_New: "alloc_New mem_redis ''10.8.0.0/24'' db_empty = (Inr demo_alloc, db_empty)"
  by (simp add: alloc_New_def mem_redis_def attempt_def next_faults_def db_empty_def
      demo_ParseCIDR demo_alloc_def set_last_def)

theorem alloc_always_returns_witness:
  "\<exists>res r' ms. AllocateIP mem_redis demo_alloc 5 ''n'' db_empty = Some (res, r', ms)"
  by (rule alloc_always_returns [OF demo_New]) (simp add: demo_alloc_def)

lemma ip_val_4: "ip_val [x, y, z, w] = 256 * (256 * (256 * unat x + unat y) + unat z) + unat w"
  by (simp add: ip_val_def)

lemma gateway_before_first:
  assumes "length (net_IP (a_network a)) = 4" and "a_gateway a = set_last (net_IP (a_network a)) 1"
  shows "ip_val (first_candidate a) = ip_val (a_gateway a) + 1"
proof -
  from assms(1) obtain x y z w where "net_IP (a_network a) = [x, y, z, w]"
    by (auto simp: length_Suc_conv numeral_eq_Suc)
  with assms(2) show ?thesis by (simp add: first_candidate_def set_last_def ip_val_4)
qed

lemma first_free_not_gateway:
  assumes ff: "first_free a S s" and len: "length (net_IP (a_network a)) = 4"
    and gw: "a_gateway a = set_last (net_IP (a_network a)) 1"
    and wf: "net_wf (a_network a)" and mask: "\<exists>k \<in> set (net_Mask (a_network a)). k \<noteq> 0"
  shows "s \<noteq> Gateway a"
proof
  let ?fc = "first_candidate a"
  let ?N = "256 ^ 4 :: nat"
  assume s: "s = Gateway a"
  from ff obtain k where k: "s = IP_String ((incrementIP ^^ k) ?fc)"
    and C: "\<forall>j \<le> k. IPNet_Contains (a_network a) ((incrementIP ^^ j) ?fc)"
    by (auto simp: first_free_def order_le_less)
  have lg: "length (a_gateway a) = 4" using gw len by (simp add: set_last_def)
  with k s len have "(incrementIP ^^ k) ?fc = a_gateway a"
    using v4_string_inject [of "(incrementIP ^^ k) ?fc" "a_gateway a"] by (simp add: Gateway_def)
  then have "(ip_val ?fc + k) mod ?N = ip_val (a_gateway a)"
    using ip_val_increments [of k ?fc] len by simp
  moreover have "ip_val ?fc < ?N" using ip_val_less [of ?fc] len by simp
  ultimately have "?N \<le> k + 1"
    using gateway_before_first [OF len gw] by (cases "ip_val ?fc + k < ?N") (auto simp: mod_if split: if_splits)
  moreover obtain j where "j < ?N" "(incrementIP ^^ j) ?fc = map NOT (net_IP (a_network a))"
    using increments_reach [of ?fc "map NOT (net_IP (a_network a))"] len by auto
  ultimately have "IPNet_Contains (a_network a) (map NOT (net_IP (a_network a)))"
    using C [rule_format, of j] by simp
  with complement_outside [OF wf mask] show False by simp
qed

text \<open>The allocator never hands out the gateway's address: what \<open>AllocateIP\<close> returns to a new
  node of an IPv4 network is not the address that \<open>Gateway\<close> announces.\<close>

theorem alloc_never_gateway:
  assumes "alloc_New R0 cidr r0 = (Inr a, r1)" and "length (net_IP (a_network a)) = 4"
    and "\<exists>k \<in> set (net_Mask (a_network a)). k \<noteq> 0" and "redis_laws R live mem up"
    and run: "AllocateIP R a t nid r = Some (Inr s, r', ms)"
    and new: "live t r (nodeIPKeyPrefix @ nid) = None"
  shows "s \<noteq> Gateway a"
proof -
  from assms(1) have "net_wf (a_network a)" "a_gateway a = set_last (net_IP (a_network a)) 1"
    by (auto simp: alloc_New_def ParseCIDR_wf split: prod.splits option.splits)
  moreover from run new have "first_free a (mem r allocatedSetKey) s"
    by (cases rule: redis_laws.AllocateIP_cases [OF assms(4)]) auto
  ultimately show ?thesis using assms(2,3) by (intro first_free_not_gateway)
qed

theorem alloc_never_gateway_witness: "''10.8.0.2'' \<noteq> Gateway demo_alloc"
  by (rule alloc_never_gateway [OF demo_New _ _ mem_store.redis_laws_axioms demo_run])
    (simp_all add: demo_alloc_def)

text \<open>C31. \<open>ReleaseIP\<close> does not check that the address belongs to the node that gives it back. If
  node \<open>m\<close> releases the address of node \<open>n\<close>, here the first of the network, the next new node
  gets it as well, and both have it on record.\<close>

theorem release_foreign_address_reused:
  assumes laws: "redis_laws R live mem up" and up: "up r"
    and A: "live t r allocatedSetKey = None" and K: "mem r (nodeIPKeyPrefix @ k) = {}"
    and net: "net_wf (a_network a)" "\<exists>b \<in> set (net_Mask (a_network a)). b \<noteq> 0"
    and first: "IPNet_Contains (a_network a) (first_candidate a)" "ip = IP_String (first_candidate a)"
    and own: "live t r (nodeIPKeyPrefix @ n) = Some ip" and other: "m \<noteq> n" "k \<noteq> n" "k \<noteq> m"
    and new: "live t r (nodeIPKeyPrefix @ k) = None"
    and rel: "ReleaseIP R t m ip r = (None, r', ms)"
  shows "\<exists>r'' ms'. AllocateIP R a t k r' = Some (Inr ip, r'', ms')
    \<and> live t r'' (nodeIPKeyPrefix @ n) = Some ip \<and> live t r'' (nodeIPKeyPrefix @ k) = Some ip"
proof -
  note rel = redis_laws.ReleaseIP_done [OF laws rel]
  from rel(1) have free: "ip \<notin> mem r' allocatedSetKey" by simp
  from rel A K up other have r': "up r'" "live t r' allocatedSetKey = None" "mem r' (nodeIPKeyPrefix @ k) = {}"
    and recs: "live t r' (nodeIPKeyPrefix @ n) = Some ip" "live t r' (nodeIPKeyPrefix @ k) = None"
    using own new by auto
  from AllocateIP_returns [OF net] obtain res r'' ms'
    where run: "AllocateIP R a t k r' = Some (res, r'', ms')" by fastforce
  have never_full: "\<not> exhausted a (mem r' allocatedSetKey)"
    using free first by (auto simp: exhausted_def dest!: spec [of _ 0])
  have only: "s = ip" if "first_free a (mem r' allocatedSetKey) s" for s
    using that free first by (auto simp: first_free_def dest!: spec [of _ 0])
  obtain s where "first_free a (mem r' allocatedSetKey) s" "res = Inr s"
    "live t r'' = (live t r')(nodeIPKeyPrefix @ k \<mapsto> s)"
    using run r' by (rule redis_laws.AllocateIP_up [OF laws]) (use never_full recs in auto)
  with only run recs other show ?thesis by auto
qed

theorem release_foreign_address_reused_witness:
  "\<exists>r'' ms'. AllocateIP mem_redis demo_alloc 0 ''c''
        (put_str ''ip:node:b'' None (put_set ''ip:allocated'' [] demo_db)) = Some (Inr ''10.8.0.2'', r'', ms')
    \<and> db_live 0 r'' (nodeIPKeyPrefix @ ''a'') = Some ''10.8.0.2''
    \<and> db_live 0 r'' (nodeIPKeyPrefix @ ''c'') = Some ''10.8.0.2''"
proof (rule release_foreign_address_reused [OF mem_store.redis_laws_axioms])
  show "ReleaseIP mem_redis 0 ''b'' ''10.8.0.2'' demo_db =
     (None, put_str ''ip:node:b'' None (put_set ''ip:allocated'' [] demo_db),
      [SetGauge ''gordion_allocated_ips_total'' [] 0])"
    by (simp add: alloc_eval)
qed (simp_all add: demo_alloc_def net_wf_def alloc_eval db_up_def db_mem_def)

text \<open>A failure between the two commands of \<open>ReleaseIP\<close> breaks the table. Node \<open>a\<close> releases
  its own address and Redis loses the second command: the call reports an error, the record of
  \<open>a\<close> stays, its address is free, and the next node gets the same address.\<close>

theorem release_half_done_reused:
  "\<exists>r1 r2 r3 m1 m3 e.
     AllocateIP mem_redis demo_alloc 0 ''a''
       (db_empty\<lparr>db_faults := [False, False, False, False, False, False, True]\<rparr>) = Some (Inr ''10.8.0.2'', r1, m1)
     \<and> ReleaseIP mem_redis 1 ''a'' ''10.8.0.2'' r1 = (Some e, r2, [])
     \<and> AllocateIP mem_redis demo_alloc 2 ''b'' r2 = Some (Inr ''10.8.0.2'', r3, m3)
     \<and> db_live 2 r3 (nodeIPKeyPrefix @ ''a'') = Some ''10.8.0.2''
     \<and> db_live 2 r3 (nodeIPKeyPrefix @ ''b'') = Some ''10.8.0.2''"
  by (simp add: alloc_eval demo_alloc_def)

text \<open>In a network whose first address does not end in .0 to .2, such as 10.8.0.16/28, the search
  starts outside of it: \<open>AllocateIP\<close> reports a full network to every new node, however empty the
  network is.\<close>

theorem alloc_offset_network_full:
  assumes laws: "redis_laws R live mem up" and up: "up r"
    and A: "live t r allocatedSetKey = None" and K: "mem r (nodeIPKeyPrefix @ nid) = {}"
    and new: "live t r (nodeIPKeyPrefix @ nid) = None"
    and out: "\<not> IPNet_Contains (a_network a) (first_candidate a)"
  shows "\<exists>r'. AllocateIP R a t nid r = Some (Inl (Plain ''no available IPs in network''), r', [])"
proof -
  have none: "find_loop (a_network a) used (first_candidate a) = Some None" for used
    using out by (subst find_loop.simps) simp
  obtain g r1 where g: "rGet R t (nodeIPKeyPrefix @ nid) r = (g, r1)" by fastforce
  obtain z r2 where z: "rSMembers R t allocatedSetKey r1 = (z, r2)" by fastforce
  from redis_laws.get_law [OF laws g] up A new have "\<exists>e. g = Inl e" and r1: "up r1" "live t r1 allocatedSetKey = None"
    by (cases g; auto simp: unchanged_def)+
  moreover from redis_laws.smembers_law [OF laws z] r1 have "is_ok z" by simp
  ultimately show ?thesis using g z none by (auto simp: AllocateIP_def findAvailableIP_def)
qed

theorem alloc_offset_network_full_witness:
  "\<exists>r'. AllocateIP mem_redis
     (demo_alloc\<lparr>a_network := \<lparr>net_IP = [10, 8, 0, 16], net_Mask = [255, 255, 255, 240]\<rparr>\<rparr>) 0 ''a'' db_empty
     = Some (Inl (Plain ''no available IPs in network''), r', [])"
  by (rule alloc_offset_network_full [OF mem_store.redis_laws_axioms])
    (simp_all add: demo_alloc_def alloc_eval db_up_def db_mem_def)

end
