(* ===== verification/Proto.thy ===== *)
theory Proto
  imports Prelude
begin

text \<open>
  The request and response messages of the three gRPC services
  (\<open>src/pkg/proto/*/v1/*.pb.go\<close>), as records with the fields of the generated structs, less
  the fields of the protobuf runtime. \<open>int32\<close> and \<open>int64\<close> fields are integers; where a
  conversion may wrap around, the code that makes it is modelled with the wrap-around.
\<close>

section \<open>Config service\<close>

record GetConfigRequest =
  gcq_Token :: string
  gcq_ConfigVersion :: int

record GetConfigResponse =
  gcr_NetworkCidr :: string
  gcr_Mtu :: int
  gcr_DnsServers :: "string list"
  gcr_ConfigVersion :: int
  gcr_UpToDate :: bool

record RequestIPRequest =
  riq_Token :: string
  riq_NodeId :: string

record RequestIPResponse =
  rir_IpAddress :: string
  rir_SubnetMask :: string
  rir_Gateway :: string

record ReleaseIPRequest =
  rlq_Token :: string
  rlq_NodeId :: string
  rlq_IpAddress :: string

record ReleaseIPResponse =
  rlr_Success :: bool
  rlr_Message :: string

section \<open>Discovery service\<close>

record ProtoPeer =
  pp_NodeId :: string
  pp_IpAddress :: string
  pp_Port :: int
  pp_Region :: string
  pp_Bandwidth :: int
  pp_LastSeen :: int
  pp_PeerId :: string
  pp_P2PAddrs :: "string list"
  pp_IsExitNode :: bool

record ListPeersRequest =
  lpq_Region :: string
  lpq_Limit :: int

record ListPeersResponse =
  lpr_Peers :: "ProtoPeer list"

record RegisterPeerRequest =
  rpq_Token :: string
  rpq_IpAddress :: string
  rpq_Port :: int
  rpq_Region :: string
  rpq_Bandwidth :: int
  rpq_PeerId :: string
  rpq_P2PAddrs :: "string list"
  rpq_IsExitNode :: bool

record RegisterPeerResponse =
  rpr_Success :: bool
  rpr_Message :: string

record HeartbeatRequest =
  hbq_Token :: string
  hbq_Bandwidth :: int

record HeartbeatResponse =
  hbr_Success :: bool
  hbr_Ttl :: int

section \<open>Identity service\<close>

record RegisterNodeRequest =
  rnq_PublicKey :: string
  rnq_Version :: string
  rnq_PeerId :: string
  rnq_NetworkSecret :: string

record RegisterNodeResponse =
  rnr_NodeId :: string
  rnr_Token :: string
  rnr_ExpiresAt :: int

record ValidateTokenRequest =
  vtq_Token :: string

record ValidateTokenResponse =
  vtr_Valid :: bool
  vtr_NodeId :: string

record GetPublicKeyRequest =
  gpq_NodeId :: string

record GetPublicKeyResponse =
  gpr_PublicKey :: string

end
