(* ===== verification/Auth.thy ===== *)
theory Auth
  imports Proto Go_Std
begin

text \<open>
  The authentication client and interceptor that the services share (\<open>src/pkg/auth\<close>). The
  call of the identity service over gRPC is an argument: the reply to each request. A request's
  context is the incoming metadata and the values that interceptors add.
\<close>

section \<open>The client\<close>

type_synonym identity_rpc = "ValidateTokenRequest \<Rightarrow> ValidateTokenResponse result"

definition auth_ValidateToken :: "identity_rpc \<Rightarrow> string \<Rightarrow> string result" where
  "auth_ValidateToken identity token =
     (case identity \<lparr>vtq_Token = token\<rparr> of
        Inl err \<Rightarrow> Inl (Wrapped ''identity service error'' err)
      | Inr resp \<Rightarrow>
          if \<not> vtr_Valid resp then Inl (Plain ''invalid token'') else Inr (vtr_NodeId resp))"

section \<open>The request context\<close>

text \<open>Metadata keys are stored in lower case; a key has a list of values.\<close>

record rpc_context =
  ctx_metadata :: "(string \<Rightarrow> string list) option"
  ctx_value :: "string \<rightharpoonup> string"

definition NodeIDKey :: string where
  "NodeIDKey = ''node_id''"

definition extractToken :: "rpc_context \<Rightarrow> string" where
  "extractToken ctx =
     (case ctx_metadata ctx of
        None \<Rightarrow> ''''
      | Some md \<Rightarrow> (case md ''authorization'' of [] \<Rightarrow> '''' | t # _ \<Rightarrow> t))"

definition NodeIDFromContext :: "rpc_context \<Rightarrow> string" where
  "NodeIDFromContext ctx = (case ctx_value ctx NodeIDKey of None \<Rightarrow> '''' | Some nodeID \<Rightarrow> nodeID)"

definition AuthInterceptor ::
  "identity_rpc \<Rightarrow> (rpc_context \<Rightarrow> 's \<Rightarrow> 'a result \<times> 's) \<Rightarrow> rpc_context \<Rightarrow> 's \<Rightarrow> 'a result \<times> 's" where
  "AuthInterceptor identity handler ctx s =
     (let token = extractToken ctx in
      if token = '''' then handler ctx s
      else case auth_ValidateToken identity token of
             Inl err \<Rightarrow> (Inl (Status Unauthenticated ''authentication failed'' (Some err)), s)
           | Inr nodeID \<Rightarrow>
               handler (ctx\<lparr>ctx_value := (ctx_value ctx)(NodeIDKey \<mapsto> nodeID)\<rparr>) s)"

section \<open>Token resolution in the services\<close>

text \<open>\<open>resolveNodeID\<close> of the config and of the discovery handler: the identity service decides;
  without a client (development mode) the first eight bytes of the token are the node.\<close>

definition resolveNodeID :: "identity_rpc option \<Rightarrow> string \<Rightarrow> string result" where
  "resolveNodeID authClient token =
     (case authClient of
        Some identity \<Rightarrow> auth_ValidateToken identity token
      | None \<Rightarrow> if length token < 8 then Inl (Plain ''token too short'') else Inr (take 8 token))"

lemma auth_ValidateToken_ok:
  "auth_ValidateToken identity token = Inr n \<longleftrightarrow>
     (\<exists>resp. identity \<lparr>vtq_Token = token\<rparr> = Inr resp \<and> vtr_Valid resp \<and> n = vtr_NodeId resp)"
  by (auto simp: auth_ValidateToken_def split: sum.splits)

text \<open>A request that carries a token reaches the handler only as the node the identity service
  vouches for.\<close>

lemma AuthInterceptor_token:
  assumes "extractToken ctx \<noteq> ''''"
  shows "AuthInterceptor identity handler ctx s =
    (case identity \<lparr>vtq_Token = extractToken ctx\<rparr> of
       Inr resp \<Rightarrow>
         if vtr_Valid resp
         then handler (ctx\<lparr>ctx_value := (ctx_value ctx)(NodeIDKey \<mapsto> vtr_NodeId resp)\<rparr>) s
         else (Inl (Status Unauthenticated ''authentication failed'' (Some (Plain ''invalid token''))), s)
     | Inl err \<Rightarrow> (Inl (Status Unauthenticated ''authentication failed''
                    (Some (Wrapped ''identity service error'' err))), s))"
  using assms by (simp add: AuthInterceptor_def auth_ValidateToken_def split: sum.splits)

lemma NodeIDFromContext_set [simp]:
  "NodeIDFromContext (ctx\<lparr>ctx_value := (ctx_value ctx)(NodeIDKey \<mapsto> n)\<rparr>) = n"
  by (simp add: NodeIDFromContext_def)

end
