(* ===== verification/Config_Service.thy ===== *)
theory Config_Service
  imports Allocator Auth
begin

text \<open>
  The config service: its configuration file (\<open>src/services/config/internal/config/config.go\<close>),
  its gRPC handler (\<open>src/services/config/internal/grpc/handler.go\<close>) and the reaction to SIGHUP
  of its main program. The handler keeps the network settings, which a reload replaces, and a
  version number with 32 bits; the lock \<open>cfgMu\<close> makes each read or replacement of the settings
  one step. The allocator works on the Redis server's state.
\<close>

section \<open>The configuration file\<close>

record cfg_Config =
  cf_GRPCPort :: int
  cf_NetworkCIDR :: string
  cf_MTU :: int
  cf_DNSServers :: "string list"
  cf_RedisURL :: string
  cf_LogLevel :: string

definition cfg_setDefaults :: "cfg_Config \<Rightarrow> cfg_Config" where
  "cfg_setDefaults c = \<lparr>
     cf_GRPCPort = (if cf_GRPCPort c = 0 then 8003 else cf_GRPCPort c),
     cf_NetworkCIDR = (if cf_NetworkCIDR c = '''' then ''10.8.0.0/16'' else cf_NetworkCIDR c),
     cf_MTU = (if cf_MTU c = 0 then 1420 else cf_MTU c),
     cf_DNSServers = (if cf_DNSServers c = [] then [''1.1.1.1'', ''8.8.8.8''] else cf_DNSServers c),
     cf_RedisURL = (if cf_RedisURL c = '''' then ''localhost:6379'' else cf_RedisURL c),
     cf_LogLevel = (if cf_LogLevel c = '''' then ''debug'' else cf_LogLevel c)\<rparr>"

text \<open>\<open>Load\<close>: the file's contents, the YAML decoder (which leaves absent keys zero) and the
  environment are arguments.\<close>

definition cfg_Load ::
  "string result \<Rightarrow> (string \<Rightarrow> cfg_Config result) \<Rightarrow> (string \<Rightarrow> string) \<Rightarrow> cfg_Config result" where
  "cfg_Load file unmarshal getenv =
     (case file of
        Inl err \<Rightarrow> Inl (Wrapped ''config read error'' err)
      | Inr text \<Rightarrow>
          (case unmarshal text of
             Inl err \<Rightarrow> Inl (Wrapped ''config parse error'' err)
           | Inr cfg \<Rightarrow>
               let cfg = cfg_setDefaults cfg in
               Inr (if getenv ''REDIS_URL'' \<noteq> '''' then cfg\<lparr>cf_RedisURL := getenv ''REDIS_URL''\<rparr> else cfg)))"

section \<open>The handler\<close>

record ConfigHandler =
  h_allocator :: Allocator
  h_authClient :: "identity_rpc option"
  h_networkCIDR :: string
  h_mtu :: int
  h_dnsServers :: "string list"
  h_configVersion :: int

definition NewConfigHandler ::
  "Allocator \<Rightarrow> identity_rpc option \<Rightarrow> string \<Rightarrow> int \<Rightarrow> string list \<Rightarrow> ConfigHandler" where
  "NewConfigHandler alloc authClient networkCIDR mtu dnsServers =
     \<lparr>h_allocator = alloc, h_authClient = authClient, h_networkCIDR = networkCIDR,
      h_mtu = int32 mtu, h_dnsServers = dnsServers, h_configVersion = 1\<rparr>"

definition GetConfig :: "ConfigHandler \<Rightarrow> GetConfigRequest \<Rightarrow> GetConfigResponse result" where
  "GetConfig h req =
     (if gcq_Token req = '''' then Inl (Status InvalidArgument ''token is required'' None)
      else case resolveNodeID (h_authClient h) (gcq_Token req) of
        Inl err \<Rightarrow> Inl (Status Unauthenticated ''auth failed'' (Some err))
      | Inr _ \<Rightarrow>
          let version = h_configVersion h in
          if gcq_ConfigVersion req > 0 \<and> gcq_ConfigVersion req \<ge> version then
            Inr \<lparr>gcr_NetworkCidr = '''', gcr_Mtu = 0, gcr_DnsServers = [],
                 gcr_ConfigVersion = version, gcr_UpToDate = True\<rparr>
          else
            Inr \<lparr>gcr_NetworkCidr = h_networkCIDR h, gcr_Mtu = h_mtu h, gcr_DnsServers = h_dnsServers h,
                 gcr_ConfigVersion = version, gcr_UpToDate = False\<rparr>)"

definition ReloadConfig :: "string \<Rightarrow> int \<Rightarrow> string list \<Rightarrow> ConfigHandler \<Rightarrow> ConfigHandler" where
  "ReloadConfig networkCIDR mtu dnsServers h =
     h\<lparr>h_networkCIDR := networkCIDR, h_mtu := int32 mtu, h_dnsServers := dnsServers,
       h_configVersion := int32 (h_configVersion h + 1)\<rparr>"

text \<open>One SIGHUP: a file that does not load changes nothing.\<close>

definition cfg_on_SIGHUP :: "cfg_Config result \<Rightarrow> ConfigHandler \<Rightarrow> ConfigHandler" where
  "cfg_on_SIGHUP loaded h =
     (case loaded of
        Inl _ \<Rightarrow> h
      | Inr newCfg \<Rightarrow> ReloadConfig (cf_NetworkCIDR newCfg) (cf_MTU newCfg) (cf_DNSServers newCfg) h)"

text \<open>The result is \<open>None\<close> where the allocator's search does not end.\<close>

definition cfg_RequestIP ::
  "'r redis \<Rightarrow> ConfigHandler \<Rightarrow> instant \<Rightarrow> RequestIPRequest \<Rightarrow> 'r
    \<Rightarrow> (RequestIPResponse result \<times> 'r \<times> metric_call list) option" where
  "cfg_RequestIP R h now req r =
     (if riq_Token req = '''' then Some (Inl (Status InvalidArgument ''token is required'' None), r, [])
      else if riq_NodeId req = '''' then Some (Inl (Status InvalidArgument ''node_id is required'' None), r, [])
      else case resolveNodeID (h_authClient h) (riq_Token req) of
        Inl err \<Rightarrow> Some (Inl (Status Unauthenticated ''auth failed'' (Some err)), r, [])
      | Inr _ \<Rightarrow>
          (case AllocateIP R (h_allocator h) now (riq_NodeId req) r of
             None \<Rightarrow> None
           | Some (Inl err, r', ms) \<Rightarrow> Some (Inl (Status Internal ''IP allocation failed'' (Some err)), r', ms)
           | Some (Inr ip, r', ms) \<Rightarrow>
               Some (Inr \<lparr>rir_IpAddress = ip, rir_SubnetMask = SubnetMask (h_allocator h),
                          rir_Gateway = Gateway (h_allocator h)\<rparr>, r', ms)))"

definition cfg_ReleaseIP ::
  "'r redis \<Rightarrow> ConfigHandler \<Rightarrow> instant \<Rightarrow> ReleaseIPRequest \<Rightarrow> 'r
    \<Rightarrow> ReleaseIPResponse result \<times> 'r \<times> metric_call list" where
  "cfg_ReleaseIP R h now req r =
     (if rlq_Token req = '''' then (Inl (Status InvalidArgument ''token is required'' None), r, [])
      else if rlq_NodeId req = '''' then (Inl (Status InvalidArgument ''node_id is required'' None), r, [])
      else case resolveNodeID (h_authClient h) (rlq_Token req) of
        Inl err \<Rightarrow> (Inl (Status Unauthenticated ''auth failed'' (Some err)), r, [])
      | Inr _ \<Rightarrow>
          (case ReleaseIP R now (rlq_NodeId req) (rlq_IpAddress req) r of
             (Some err, r', ms) \<Rightarrow> (Inl (Status Internal ''IP release failed'' (Some err)), r', ms)
           | (None, r', ms) \<Rightarrow> (Inr \<lparr>rlr_Success = True, rlr_Message = ''IP released''\<rparr>, r', ms)))"

section \<open>Reloads and polls\<close>

text \<open>The handler after a sequence of reloads.\<close>

fun cfg_reloads :: "(string \<times> int \<times> string list) list \<Rightarrow> ConfigHandler \<Rightarrow> ConfigHandler" where
  "cfg_reloads [] h = h"
| "cfg_reloads ((c, m, d) # cs) h = cfg_reloads cs (ReloadConfig c m d h)"

lemma cfg_reloads_append: "cfg_reloads (xs @ ys) h = cfg_reloads ys (cfg_reloads xs h)"
  by (induction xs h rule: cfg_reloads.induct) auto

lemma cfg_reloads_fixed [simp]:
  "h_allocator (cfg_reloads cs h) = h_allocator h" "h_authClient (cfg_reloads cs h) = h_authClient h"
  by (induction cs h rule: cfg_reloads.induct) (auto simp: ReloadConfig_def)

lemma cfg_reloads_version:
  "0 \<le> h_configVersion h \<Longrightarrow> h_configVersion h + int (length cs) < 2 ^ 31 \<Longrightarrow>
   h_configVersion (cfg_reloads cs h) = h_configVersion h + int (length cs)"
  by (induction cs h rule: cfg_reloads.induct) (auto simp: ReloadConfig_def int32_id)

lemma cfg_reloads_last:
  assumes "cs \<noteq> []" and "last cs = (c, m, d)"
  shows "h_networkCIDR (cfg_reloads cs h) = c" "h_mtu (cfg_reloads cs h) = int32 m"
    "h_dnsServers (cfg_reloads cs h) = d"
proof -
  from assms have "cs = butlast cs @ [(c, m, d)]" by (metis append_butlast_last_id)
  then have "cfg_reloads cs h = ReloadConfig c m d (cfg_reloads (butlast cs) h)"
    by (metis cfg_reloads.simps cfg_reloads_append)
  then show "h_networkCIDR (cfg_reloads cs h) = c" "h_mtu (cfg_reloads cs h) = int32 m"
    "h_dnsServers (cfg_reloads cs h) = d" by (simp_all add: ReloadConfig_def)
qed

lemma GetConfig_ok_version:
  "GetConfig h q = Inr r \<Longrightarrow> gcr_ConfigVersion r = h_configVersion h \<and> is_ok (resolveNodeID (h_authClient h) (gcq_Token q))"
  by (auto simp: GetConfig_def Let_def split: if_splits sum.splits)

section \<open>Properties\<close>

text \<open>C32. A client that polls with the version of the configuration it holds learns of every reload.
  If it got its version after the reloads \<open>cs\<close> and polls after the further reloads \<open>ds\<close>, it is
  told that it is up to date exactly if \<open>ds\<close> is empty, and otherwise gets the settings of the
  last reload with their version. The version counts with 32 bits, so this holds for fewer than
  2^31 - 1 reloads.\<close>

theorem cfg_poll_sees_reloads:
  assumes h0: "h0 = NewConfigHandler alloc auth cidr mtu dns"
    and bound: "int (length (cs @ ds)) < 2 ^ 31 - 1"
    and first: "GetConfig (cfg_reloads cs h0) q = Inr r0"
    and poll: "GetConfig (cfg_reloads (cs @ ds) h0) (q\<lparr>gcq_ConfigVersion := gcr_ConfigVersion r0\<rparr>) = Inr r1"
  shows "gcr_ConfigVersion r1 = 1 + int (length (cs @ ds)) \<and> (gcr_UpToDate r1 \<longleftrightarrow> ds = [])
    \<and> (ds \<noteq> [] \<longrightarrow> (gcr_NetworkCidr r1, gcr_Mtu r1, gcr_DnsServers r1)
           = (case last ds of (c, m, d) \<Rightarrow> (c, int32 m, d)))"
proof -
  let ?h = "cfg_reloads (cs @ ds) h0"
  have v0: "h_configVersion h0 = 1" by (simp add: h0 NewConfigHandler_def)
  have "gcr_ConfigVersion r0 = 1 + int (length cs)"
    using GetConfig_ok_version [OF first] cfg_reloads_version [of h0 cs] v0 bound by simp
  moreover have v: "h_configVersion ?h = 1 + int (length (cs @ ds))"
    using cfg_reloads_version [of h0 "cs @ ds"] v0 bound by simp
  moreover have "is_ok (resolveNodeID (h_authClient ?h) (gcq_Token q))"
    using GetConfig_ok_version [OF poll] by simp
  ultimately have r1: "r1 = (if ds = [] then
        \<lparr>gcr_NetworkCidr = '''', gcr_Mtu = 0, gcr_DnsServers = [],
         gcr_ConfigVersion = h_configVersion ?h, gcr_UpToDate = True\<rparr>
      else \<lparr>gcr_NetworkCidr = h_networkCIDR ?h, gcr_Mtu = h_mtu ?h, gcr_DnsServers = h_dnsServers ?h,
         gcr_ConfigVersion = h_configVersion ?h, gcr_UpToDate = False\<rparr>)"
    using poll by (auto simp: GetConfig_def Let_def split: if_splits)
  have "gcr_ConfigVersion r1 = h_configVersion ?h" "gcr_UpToDate r1 \<longleftrightarrow> ds = []"
    unfolding r1 by simp_all
  moreover have "(gcr_NetworkCidr r1, gcr_Mtu r1, gcr_DnsServers r1)
      = (case last ds of (c, m, d) \<Rightarrow> (c, int32 m, d))" if "ds \<noteq> []"
  proof -
    obtain c m d where l: "last ds = (c, m, d)" by (metis prod_cases3)
    show ?thesis using r1 that l cfg_reloads_last [of ds c m d] by (simp add: cfg_reloads_append)
  qed
  ultimately show ?thesis using v by simp
qed

theorem cfg_poll_sees_reloads_witness:
  "\<exists>r1. GetConfig (cfg_reloads [(''10.9.0.0/16'', 1400, [])] (NewConfigHandler demo_alloc None ''10.8.0.0/16'' 1420 []))
      \<lparr>gcq_Token = ''12345678'', gcq_ConfigVersion = 1\<rparr> = Inr r1
    \<and> \<not> gcr_UpToDate r1 \<and> gcr_NetworkCidr r1 = ''10.9.0.0/16''"
proof -
  let ?h0 = "NewConfigHandler demo_alloc None ''10.8.0.0/16'' 1420 []"
  let ?q = "\<lparr>gcq_Token = ''12345678'', gcq_ConfigVersion = 0\<rparr>"
  obtain r0 where r0: "GetConfig (cfg_reloads [] ?h0) ?q = Inr r0" and v: "gcr_ConfigVersion r0 = 1"
    by (simp add: GetConfig_def resolveNodeID_def NewConfigHandler_def)
  obtain r1 where r1: "GetConfig (cfg_reloads ([] @ [(''10.9.0.0/16'', 1400, [])]) ?h0)
      (?q\<lparr>gcq_ConfigVersion := gcr_ConfigVersion r0\<rparr>) = Inr r1"
    by (simp add: GetConfig_def resolveNodeID_def NewConfigHandler_def ReloadConfig_def int32_id v)
  from cfg_poll_sees_reloads [OF refl _ r0 r1] r1 v show ?thesis by simp
qed

text \<open>No request without an accepted token touches the address table: \<open>GetConfig\<close>,
  \<open>RequestIP\<close> and \<open>ReleaseIP\<close> answer it with the code \<open>InvalidArgument\<close> or
  \<open>Unauthenticated\<close>, send nothing to Redis and report no metric.\<close>

theorem cfg_unauthenticated_no_effect:
  assumes "\<And>n. resolveNodeID (h_authClient h) tok \<noteq> Inr n"
  shows "(\<exists>e. GetConfig h \<lparr>gcq_Token = tok, gcq_ConfigVersion = v\<rparr> = Inl e
            \<and> status_code e \<in> {Some InvalidArgument, Some Unauthenticated})
    \<and> (\<exists>e. cfg_RequestIP R h now \<lparr>riq_Token = tok, riq_NodeId = nid\<rparr> r = Some (Inl e, r, [])
            \<and> status_code e \<in> {Some InvalidArgument, Some Unauthenticated})
    \<and> (\<exists>e. cfg_ReleaseIP R h now \<lparr>rlq_Token = tok, rlq_NodeId = nid, rlq_IpAddress = ip\<rparr> r = (Inl e, r, [])
            \<and> status_code e \<in> {Some InvalidArgument, Some Unauthenticated})"
proof -
  from assms obtain err where "resolveNodeID (h_authClient h) tok = Inl err"
    by (cases "resolveNodeID (h_authClient h) tok") auto
  then show ?thesis
    by (intro conjI) (auto simp: GetConfig_def cfg_RequestIP_def cfg_ReleaseIP_def)
qed

theorem cfg_unauthenticated_no_effect_witness:
  "\<exists>e. cfg_RequestIP mem_redis (NewConfigHandler demo_alloc None ''10.8.0.0/16'' 1420 []) 0
      \<lparr>riq_Token = ''short'', riq_NodeId = ''n''\<rparr> db_empty = Some (Inl e, db_empty, [])
    \<and> status_code e \<in> {Some InvalidArgument, Some Unauthenticated}"
  by (rule cfg_unauthenticated_no_effect [THEN conjunct2, THEN conjunct1])
    (simp add: resolveNodeID_def NewConfigHandler_def)

text \<open>The node named in a request need not be the node the token was issued to: with the token of
  any node \<open>m\<close>, \<open>RequestIP\<close> and \<open>ReleaseIP\<close> do for node \<open>n\<close> what they do with the
  token of \<open>n\<close> itself.\<close>

theorem cfg_any_token_serves:
  assumes "resolveNodeID (h_authClient h) tm = Inr m" and "resolveNodeID (h_authClient h) tn = Inr n"
    and "tm \<noteq> ''''" and "tn \<noteq> ''''"
  shows "cfg_RequestIP R h now \<lparr>riq_Token = tm, riq_NodeId = n\<rparr> r
       = cfg_RequestIP R h now \<lparr>riq_Token = tn, riq_NodeId = n\<rparr> r
     \<and> cfg_ReleaseIP R h now \<lparr>rlq_Token = tm, rlq_NodeId = n, rlq_IpAddress = ip\<rparr> r
       = cfg_ReleaseIP R h now \<lparr>rlq_Token = tn, rlq_NodeId = n, rlq_IpAddress = ip\<rparr> r"
  using assms by (simp_all add: cfg_RequestIP_def cfg_ReleaseIP_def)

theorem cfg_any_token_serves_witness:
  "cfg_ReleaseIP mem_redis (NewConfigHandler demo_alloc None ''10.8.0.0/16'' 1420 []) 0
     \<lparr>rlq_Token = ''attacker'', rlq_NodeId = ''victim-1'', rlq_IpAddress = ''10.8.0.2''\<rparr> demo_db
   = cfg_ReleaseIP mem_redis (NewConfigHandler demo_alloc None ''10.8.0.0/16'' 1420 []) 0
     \<lparr>rlq_Token = ''victim-1'', rlq_NodeId = ''victim-1'', rlq_IpAddress = ''10.8.0.2''\<rparr> demo_db"
  by (rule cfg_any_token_serves [THEN conjunct2]) (simp_all add: resolveNodeID_def NewConfigHandler_def)

text \<open>A reload changes the announced network but not the allocator's: whatever network the
  reloads announce, a new node still gets an address of the network the service was started
  with.\<close>

theorem cfg_reload_keeps_network:
  assumes "redis_laws R live mem up"
    and "cfg_RequestIP R (cfg_reloads cs h) now req r = Some (Inr resp, r', ms)"
    and "live now r (nodeIPKeyPrefix @ riq_NodeId req) = None"
  shows "\<exists>ip. rir_IpAddress resp = IP_String ip \<and> IPNet_Contains (a_network (h_allocator h)) ip"
proof -
  from assms(2) have "AllocateIP R (h_allocator h) now (riq_NodeId req) r = Some (Inr (rir_IpAddress resp), r', ms)"
    by (auto simp: cfg_RequestIP_def split: if_splits sum.splits option.splits)
  then have "first_free (h_allocator h) (mem r allocatedSetKey) (rir_IpAddress resp)"
    using assms(3) by (cases rule: redis_laws.AllocateIP_cases [OF assms(1)]) auto
  then show ?thesis by (auto simp: first_free_def)
qed

theorem cfg_reload_keeps_network_witness:
  "\<exists>ip. rir_IpAddress \<lparr>rir_IpAddress = ''10.8.0.2'', rir_SubnetMask = ''255.255.255.0'', rir_Gateway = ''10.8.0.1''\<rparr>
        = IP_String ip
     \<and> IPNet_Contains (a_network (h_allocator (NewConfigHandler demo_alloc None ''10.8.0.0/24'' 1420 []))) ip"
proof (rule cfg_reload_keeps_network [OF mem_store.redis_laws_axioms])
  have "SubnetMask demo_alloc = ''255.255.255.0''" "Gateway demo_alloc = ''10.8.0.1''"
    by (simp_all add: SubnetMask_def Gateway_def demo_alloc_def v4_string_def dec_nat.simps)
  then show "cfg_RequestIP mem_redis
      (cfg_reloads [(''192.168.0.0/16'', 1400, [])] (NewConfigHandler demo_alloc None ''10.8.0.0/24'' 1420 [])) 0
      \<lparr>riq_Token = ''12345678'', riq_NodeId = ''a''\<rparr> db_empty
    = Some (Inr \<lparr>rir_IpAddress = ''10.8.0.2'', rir_SubnetMask = ''255.255.255.0'', rir_Gateway = ''10.8.0.1''\<rparr>,
        demo_db, [SetGauge ''gordion_allocated_ips_total'' [] 1])"
    using demo_run by (simp add: cfg_RequestIP_def resolveNodeID_def NewConfigHandler_def ReloadConfig_def)
qed simp

end
