(* ===== verification/Json.thy ===== *)
theory Json
  imports Go_Std
begin

text \<open>
  The part of Go's \<open>encoding/json\<close> that the repository uses: compact encoding of values, with
  HTML escaping and the replacement of invalid UTF-8, and decoding of a text into a value.
  Strings are byte lists, so UTF-8 is written out. The program's structs become objects in the
  order of their fields; the component theories give the translations. The limit of 10000
  nested values of Go's scanner is left out.
\<close>

datatype json = JNull | JBool bool | JNum string | JStr string
  | JArr "json list" | JObj "(string \<times> json) list"

section \<open>UTF-8\<close>

abbreviation byte_of :: "char \<Rightarrow> nat" where
  "byte_of c \<equiv> of_char c"

definition cont :: "char \<Rightarrow> bool" where
  "cont c \<longleftrightarrow> 128 \<le> byte_of c \<and> byte_of c < 192"

text \<open>\<open>utf8.DecodeRune\<close>: the number of bytes of the valid sequence at the front of the text, 0
  if there is none.\<close>

definition second_ok :: "nat \<Rightarrow> char \<Rightarrow> bool" where
  "second_ok b c \<longleftrightarrow> cont c \<and> (b = 224 \<longrightarrow> 160 \<le> byte_of c) \<and> (b = 237 \<longrightarrow> byte_of c < 160)
     \<and> (b = 240 \<longrightarrow> 144 \<le> byte_of c) \<and> (b = 244 \<longrightarrow> byte_of c < 144)"

definition rune_len :: "string \<Rightarrow> nat" where
  "rune_len s =
     (case s of
        [] \<Rightarrow> 0
      | c # cs \<Rightarrow>
          let b = byte_of c in
          if b < 128 then 1
          else if 194 \<le> b \<and> b < 224 then
            (case cs of c1 # _ \<Rightarrow> if cont c1 then 2 else 0 | _ \<Rightarrow> 0)
          else if 224 \<le> b \<and> b < 240 then
            (case cs of c1 # c2 # _ \<Rightarrow> if second_ok b c1 \<and> cont c2 then 3 else 0 | _ \<Rightarrow> 0)
          else if 240 \<le> b \<and> b < 245 then
            (case cs of c1 # c2 # c3 # _ \<Rightarrow> if second_ok b c1 \<and> cont c2 \<and> cont c3 then 4 else 0 | _ \<Rightarrow> 0)
          else 0)"

lemma rune_len_le: "rune_len s \<le> length s"
  by (auto simp: rune_len_def Let_def split: list.splits)

text \<open>\<open>utf8.AppendRune\<close>.\<close>

definition utf8_rune :: "nat \<Rightarrow> string" where
  "utf8_rune u =
     (if u < 128 then [char_of u]
      else if u < 2048 then [char_of (192 + u div 64), char_of (128 + u mod 64)]
      else if u > 1114111 \<or> (55296 \<le> u \<and> u < 57344) then [char_of (239::nat), char_of (191::nat), char_of (189::nat)]
      else if u < 65536 then
        [char_of (224 + u div 4096), char_of (128 + u div 64 mod 64), char_of (128 + u mod 64)]
      else [char_of (240 + u div 262144), char_of (128 + u div 4096 mod 64),
            char_of (128 + u div 64 mod 64), char_of (128 + u mod 64)])"

definition rune_error :: string where
  "rune_error = utf8_rune 65533"

function utf8_valid :: "string \<Rightarrow> bool" where
  "utf8_valid [] = True"
| "utf8_valid (c # cs) =
     (case rune_len (c # cs) of 0 \<Rightarrow> False | Suc n \<Rightarrow> utf8_valid (drop n cs))"
  by pat_completeness auto
termination by (relation "measure length") auto

section \<open>Strings\<close>

text \<open>The escape of an ASCII byte.\<close>

definition u00 :: "nat \<Rightarrow> string" where
  "u00 n = [CHR 0x5C, CHR ''u'', CHR ''0'', CHR ''0'', hex_char (n div 16), hex_char (n mod 16)]"

definition esc_ascii :: "char \<Rightarrow> string" where
  "esc_ascii c =
     (let n = byte_of c in
      if n = 34 \<or> n = 92 then [CHR 0x5C, c]
      else if n = 8 then [CHR 0x5C, CHR ''b'']
      else if n = 12 then [CHR 0x5C, CHR ''f'']
      else if n = 10 then [CHR 0x5C, CHR ''n'']
      else if n = 13 then [CHR 0x5C, CHR ''r'']
      else if n = 9 then [CHR 0x5C, CHR ''t'']
      else if n < 32 \<or> n = 60 \<or> n = 62 \<or> n = 38 then u00 n
      else [c])"

text \<open>The line separators U+2028 and U+2029 are escaped too.\<close>

definition esc_wide :: "string \<Rightarrow> string" where
  "esc_wide s =
     (if s = utf8_rune 8232 then [CHR 0x5C, CHR ''u'', CHR ''2'', CHR ''0'', CHR ''2'', CHR ''8'']
      else if s = utf8_rune 8233 then [CHR 0x5C, CHR ''u'', CHR ''2'', CHR ''0'', CHR ''2'', CHR ''9'']
      else s)"

function escape :: "string \<Rightarrow> string" where
  "escape [] = []"
| "escape (c # cs) =
     (if byte_of c < 128 then esc_ascii c @ escape cs
      else case rune_len (c # cs) of
             0 \<Rightarrow> [CHR 0x5C] @ ''ufffd'' @ escape cs
           | Suc n \<Rightarrow> esc_wide (c # take n cs) @ escape (drop n cs))"
  by pat_completeness auto
termination by (relation "measure length") auto

definition quote :: "string \<Rightarrow> string" where
  "quote s = [CHR 0x22] @ escape s @ [CHR 0x22]"

definition hex4 :: "string \<Rightarrow> nat option" where
  "hex4 s =
     (case s of
        a # b # c # d # _ \<Rightarrow>
          (case (hex_digit a, hex_digit b, hex_digit c, hex_digit d) of
             (Some a, Some b, Some c, Some d) \<Rightarrow> Some (4096 * a + 256 * b + 16 * c + d)
           | _ \<Rightarrow> None)
      | _ \<Rightarrow> None)"

text \<open>The low surrogate of a pair, at the front of the text.\<close>

definition low_surrogate :: "string \<Rightarrow> nat option" where
  "low_surrogate s =
     (if take 2 s = [CHR 0x5C, CHR ''u''] then
        (case hex4 (drop 2 s) of
           Some u \<Rightarrow> if 56320 \<le> u \<and> u < 57344 then Some u else None
         | None \<Rightarrow> None)
      else None)"

definition simple_escape :: "char \<Rightarrow> char option" where
  "simple_escape c =
     (if c = CHR 0x22 \<or> c = CHR 0x5C \<or> c = CHR ''/'' then Some c
      else if c = CHR ''b'' then Some (char_of (8::nat))
      else if c = CHR ''f'' then Some (char_of (12::nat))
      else if c = CHR ''n'' then Some (char_of (10::nat))
      else if c = CHR ''r'' then Some (char_of (13::nat))
      else if c = CHR ''t'' then Some (char_of (9::nat))
      else None)"

definition prepend :: "string \<Rightarrow> (string \<times> string) option \<Rightarrow> (string \<times> string) option" where
  "prepend p x = map_option (\<lambda>(s, r). (p @ s, r)) x"

text \<open>Reading a string from behind its opening quote: its contents and the rest.\<close>

function unquote :: "string \<Rightarrow> (string \<times> string) option" where
  "unquote [] = None"
| "unquote (c # cs) =
     (if c = CHR 0x22 then Some ([], cs)
      else if byte_of c < 32 then None
      else if c = CHR 0x5C then
        (case cs of
           [] \<Rightarrow> None
         | e # r \<Rightarrow>
             if e = CHR ''u'' then
               (case hex4 r of
                  None \<Rightarrow> None
                | Some u \<Rightarrow>
                    if 55296 \<le> u \<and> u < 57344 then
                      (case (if u < 56320 then low_surrogate (drop 4 r) else None) of
                         Some l \<Rightarrow> prepend (utf8_rune (65536 + 1024 * (u - 55296) + (l - 56320))) (unquote (drop 10 r))
                       | None \<Rightarrow> prepend rune_error (unquote (drop 4 r)))
                    else prepend (utf8_rune u) (unquote (drop 4 r)))
             else (case simple_escape e of None \<Rightarrow> None | Some b \<Rightarrow> prepend [b] (unquote r)))
      else if byte_of c < 128 then prepend [c] (unquote cs)
      else case rune_len (c # cs) of
             0 \<Rightarrow> prepend rune_error (unquote cs)
           | Suc n \<Rightarrow> prepend (c # take n cs) (unquote (drop n cs)))"
  by pat_completeness auto
termination by (relation "measure length") auto

section \<open>Values\<close>

primrec encode :: "json \<Rightarrow> string" where
  "encode JNull = ''null''"
| "encode (JBool b) = (if b then ''true'' else ''false'')"
| "encode (JNum s) = s"
| "encode (JStr s) = quote s"
| "encode (JArr vs) = [CHR ''[''] @ Join '','' (map encode vs) @ [CHR '']'']"
| "encode (JObj ms) =
     [CHR 0x7B] @ Join '','' (map (\<lambda>(k, e). quote k @ CHR '':'' # e) (map (map_prod id encode) ms)) @ [CHR 0x7D]"

definition skip_ws :: "string \<Rightarrow> string" where
  "skip_ws s = dropWhile (\<lambda>c. c = CHR '' '' \<or> byte_of c = 9 \<or> byte_of c = 10 \<or> byte_of c = 13) s"

definition is_digit :: "char \<Rightarrow> bool" where
  "is_digit c \<longleftrightarrow> 48 \<le> byte_of c \<and> byte_of c \<le> 57"

text \<open>The number literal at the front of the text, with the rest behind it.\<close>

definition take_frac :: "string \<Rightarrow> (string \<times> string) option" where
  "take_frac s =
     (case s of
        c # r \<Rightarrow>
          if c = CHR ''.'' then
            (if takeWhile is_digit r = [] then None
             else Some (c # takeWhile is_digit r, dropWhile is_digit r))
          else Some ([], s)
      | [] \<Rightarrow> Some ([], s))"

definition take_exp :: "string \<Rightarrow> (string \<times> string) option" where
  "take_exp s =
     (case s of
        c # r \<Rightarrow>
          if c = CHR ''e'' \<or> c = CHR ''E'' then
            (let sg = (case r of d # _ \<Rightarrow> if d = CHR ''+'' \<or> d = CHR ''-'' then [d] else [] | [] \<Rightarrow> []);
                 r' = drop (length sg) r in
             if takeWhile is_digit r' = [] then None
             else Some (c # sg @ takeWhile is_digit r', dropWhile is_digit r'))
          else Some ([], s)
      | [] \<Rightarrow> Some ([], s))"

definition take_int :: "string \<Rightarrow> (string \<times> string) option" where
  "take_int s =
     (let sg = (case s of c # _ \<Rightarrow> if c = CHR ''-'' then [c] else [] | [] \<Rightarrow> []); r = drop (length sg) s in
      case r of
        [] \<Rightarrow> None
      | c # r' \<Rightarrow>
          if c = CHR ''0'' then Some (sg @ [c], r')
          else if is_digit c then Some (sg @ takeWhile is_digit r, dropWhile is_digit r)
          else None)"

definition take_number :: "string \<Rightarrow> (string \<times> string) option" where
  "take_number s =
     (case take_int s of
        None \<Rightarrow> None
      | Some (i, r) \<Rightarrow>
          (case take_frac r of
             None \<Rightarrow> None
           | Some (f, r) \<Rightarrow>
               (case take_exp r of None \<Rightarrow> None | Some (e, r) \<Rightarrow> Some (i @ f @ e, r))))"

text \<open>The parser. The fuel counts nested calls; each call for a value reads at least one byte
  and an element or member adds one call, so twice the length of the text is enough.\<close>

fun parse_value :: "nat \<Rightarrow> string \<Rightarrow> (json \<times> string) option"
  and parse_elems :: "nat \<Rightarrow> string \<Rightarrow> (json list \<times> string) option"
  and parse_members :: "nat \<Rightarrow> string \<Rightarrow> ((string \<times> json) list \<times> string) option" where
  "parse_value 0 s = None"
| "parse_value (Suc k) s =
     (case skip_ws s of
        [] \<Rightarrow> None
      | c # cs \<Rightarrow>
          if c = CHR 0x22 then map_option (\<lambda>(x, r). (JStr x, r)) (unquote cs)
          else if c = CHR ''['' then
            (case skip_ws cs of
               [] \<Rightarrow> None
             | d # r \<Rightarrow>
                 if d = CHR '']'' then Some (JArr [], r)
                 else map_option (\<lambda>(vs, r). (JArr vs, r)) (parse_elems k (d # r)))
          else if c = CHR 0x7B then
            (case skip_ws cs of
               [] \<Rightarrow> None
             | d # r \<Rightarrow>
                 if d = CHR 0x7D then Some (JObj [], r)
                 else map_option (\<lambda>(ms, r). (JObj ms, r)) (parse_members k (d # r)))
          else if take 4 (c # cs) = ''true'' then Some (JBool True, drop 3 cs)
          else if take 5 (c # cs) = ''false'' then Some (JBool False, drop 4 cs)
          else if take 4 (c # cs) = ''null'' then Some (JNull, drop 3 cs)
          else map_option (\<lambda>(n, r). (JNum n, r)) (take_number (c # cs)))"
| "parse_elems 0 s = None"
| "parse_elems (Suc k) s =
     (case parse_value k s of
        None \<Rightarrow> None
      | Some (v, r) \<Rightarrow>
          (case skip_ws r of
             [] \<Rightarrow> None
           | d # r \<Rightarrow>
               if d = CHR '','' then map_option (\<lambda>(vs, r). (v # vs, r)) (parse_elems k r)
               else if d = CHR '']'' then Some ([v], r)
               else None))"
| "parse_members 0 s = None"
| "parse_members (Suc k) s =
     (case skip_ws s of
        [] \<Rightarrow> None
      | c # cs \<Rightarrow>
          if c \<noteq> CHR 0x22 then None
          else case unquote cs of
            None \<Rightarrow> None
          | Some (key, r) \<Rightarrow>
              (case skip_ws r of
                 [] \<Rightarrow> None
               | d # r \<Rightarrow>
                   if d \<noteq> CHR '':'' then None
                   else case parse_value k r of
                     None \<Rightarrow> None
                   | Some (v, r) \<Rightarrow>
                       (case skip_ws r of
                          [] \<Rightarrow> None
                        | d # r \<Rightarrow>
                            if d = CHR '','' then map_option (\<lambda>(ms, r). ((key, v) # ms, r)) (parse_members k r)
                            else if d = CHR 0x7D then Some ([(key, v)], r)
                            else None)))"

definition parse_json :: "string \<Rightarrow> json option" where
  "parse_json s =
     (case parse_value (2 * length s) s of
        Some (v, r) \<Rightarrow> if skip_ws r = [] then Some v else None
      | None \<Rightarrow> None)"

section \<open>Round trips\<close>

lemma prepend_Some [simp]: "prepend p (Some (s, r)) = Some (p @ s, r)"
  by (simp add: prepend_def)

declare unquote.simps [simp del] escape.simps [simp del] utf8_valid.simps [simp del]

lemma hex4_append: "length x = 4 \<Longrightarrow> hex4 (x @ r) = hex4 x"
  by (auto simp: hex4_def numeral_eq_Suc length_Suc_conv)

lemma unquote_u:
  assumes "length x = 4" "hex4 x = Some u" "u < 55296 \<or> 57344 \<le> u"
  shows "unquote (CHR 0x5C # CHR ''u'' # x @ r) = prepend (utf8_rune u) (unquote r)"
  using assms by (auto simp: unquote.simps(2) [of "CHR 0x5C"] hex4_append)

lemma unquote_u00:
  assumes "n < 128"
  shows "unquote (u00 n @ r) = prepend [char_of n] (unquote r)"
proof -
  have "hex_digit (CHR ''0'') = Some 0" by (simp add: hex_digit_def)
  moreover have "16 * (n div 16) + n mod 16 = n" by simp
  ultimately have "hex4 (drop 2 (u00 n)) = Some n" using assms by (simp add: hex4_def u00_def)
  moreover have eq: "u00 n @ r = CHR 0x5C # CHR ''u'' # drop 2 (u00 n) @ r" and "length (drop 2 (u00 n)) = 4"
    by (simp_all add: u00_def)
  ultimately show ?thesis using assms unfolding eq by (subst unquote_u) (auto simp: utf8_rune_def)
qed

lemma byte_of_eq: "byte_of c = byte_of d \<longleftrightarrow> c = d"
  by simp

lemma unquote_esc_ascii:
  assumes "byte_of c < 128"
  shows "unquote (esc_ascii c @ r) = prepend [c] (unquote r)"
proof -
  have c: "char_of (byte_of c) = c" by simp
  have plain: "unquote (c # r) = prepend [c] (unquote r)"
    if "byte_of c \<noteq> 34" "byte_of c \<noteq> 92" "\<not> byte_of c < 32"
  proof -
    from that have "c \<noteq> CHR 0x22" "c \<noteq> CHR 0x5C" by auto
    with that assms show ?thesis by (simp add: unquote.simps(2) [of c])
  qed
  have esc: "unquote (CHR 0x5C # e # r) = prepend [b] (unquote r)" if "simple_escape e = Some b" "e \<noteq> CHR ''u''" for e b
    using that by (simp add: unquote.simps(2) [of "CHR 0x5C"])
  consider "byte_of c = 34 \<or> byte_of c = 92" | "byte_of c = 8" | "byte_of c = 12" | "byte_of c = 10"
    | "byte_of c = 13" | "byte_of c = 9"
    | "byte_of c \<notin> {34, 92, 8, 12, 10, 13, 9}" "byte_of c < 32 \<or> byte_of c = 60 \<or> byte_of c = 62 \<or> byte_of c = 38"
    | "byte_of c \<notin> {34, 92, 60, 62, 38}" "\<not> byte_of c < 32" by fastforce
  then show ?thesis
  proof cases
    case 1
    then have "c = CHR 0x22 \<or> c = CHR 0x5C"
      using byte_of_eq [of c "CHR 0x22"] byte_of_eq [of c "CHR 0x5C"] by auto
    then show ?thesis using esc [of c c] by (auto simp: esc_ascii_def simple_escape_def)
  next
    case 7
    then show ?thesis using unquote_u00 [of "byte_of c" r] by (auto simp: esc_ascii_def Let_def)
  next
    case 8
    then show ?thesis using plain by (simp add: esc_ascii_def Let_def)
  next
    case 2
    with c have "simple_escape (CHR ''b'') = Some c" by (simp add: simple_escape_def)
    with 2 show ?thesis using esc [of "CHR ''b''" c] by (simp add: esc_ascii_def)
  next
    case 3
    with c have "simple_escape (CHR ''f'') = Some c" by (simp add: simple_escape_def)
    with 3 show ?thesis using esc [of "CHR ''f''" c] by (simp add: esc_ascii_def)
  next
    case 4
    with c have "simple_escape (CHR ''n'') = Some c" by (simp add: simple_escape_def)
    with 4 show ?thesis using esc [of "CHR ''n''" c] by (simp add: esc_ascii_def)
  next
    case 5
    with c have "simple_escape (CHR ''r'') = Some c" by (simp add: simple_escape_def)
    with 5 show ?thesis using esc [of "CHR ''r''" c] by (simp add: esc_ascii_def)
  next
    case 6
    with c have "simple_escape (CHR ''t'') = Some c" by (simp add: simple_escape_def)
    with 6 show ?thesis using esc [of "CHR ''t''" c] by (simp add: esc_ascii_def)
  qed
qed

lemma rune_len_prefix:
  assumes "rune_len (c # cs) = Suc n"
  shows "rune_len (c # take n cs @ r) = Suc n" and "n \<le> length cs"
  using assms by (auto simp: rune_len_def Let_def split: list.splits if_splits)

lemma rune_len_ascii: "byte_of c < 128 \<Longrightarrow> rune_len (c # cs) = 1"
  by (simp add: rune_len_def)

lemma esc_wide_cases:
  "esc_wide s = s
   \<or> s = utf8_rune 8232 \<and> esc_wide s = [CHR 0x5C, CHR ''u'', CHR ''2'', CHR ''0'', CHR ''2'', CHR ''8'']
   \<or> s = utf8_rune 8233 \<and> esc_wide s = [CHR 0x5C, CHR ''u'', CHR ''2'', CHR ''0'', CHR ''2'', CHR ''9'']"
  by (simp add: esc_wide_def)

lemma unquote_esc_wide:
  assumes "\<not> byte_of c < 128" and n: "rune_len (c # cs) = Suc n"
  shows "unquote (esc_wide (c # take n cs) @ r) = prepend (c # take n cs) (unquote r)"
  using esc_wide_cases [of "c # take n cs"]
proof (elim disjE conjE)
  assume 1: "esc_wide (c # take n cs) = c # take n cs"
  from assms(1) have "c \<noteq> CHR 0x22" "c \<noteq> CHR 0x5C" by auto
  with 1 assms(1) rune_len_prefix [OF n] show ?thesis
    by (simp add: unquote.simps(2) [of c])
next
  assume "c # take n cs = utf8_rune 8232"
    "esc_wide (c # take n cs) = [CHR 0x5C, CHR ''u'', CHR ''2'', CHR ''0'', CHR ''2'', CHR ''8'']"
  moreover have "hex4 ''2028'' = Some 8232" by (simp add: hex4_def hex_digit_def)
  ultimately show ?thesis using unquote_u [of "''2028''" 8232 r] by simp
next
  assume "c # take n cs = utf8_rune 8233"
    "esc_wide (c # take n cs) = [CHR 0x5C, CHR ''u'', CHR ''2'', CHR ''0'', CHR ''2'', CHR ''9'']"
  moreover have "hex4 ''2029'' = Some 8233" by (simp add: hex4_def hex_digit_def)
  ultimately show ?thesis using unquote_u [of "''2029''" 8233 r] by simp
qed

text \<open>A string of valid UTF-8 survives quoting and unquoting.\<close>

lemma unquote_escape: "utf8_valid s \<Longrightarrow> unquote (escape s @ CHR 0x22 # r) = Some (s, r)"
proof (induction s rule: escape.induct)
  case 1
  then show ?case by (simp add: escape.simps unquote.simps(2))
next
  case (2 c cs)
  show ?case
  proof (cases "byte_of c < 128")
    case True
    with 2 have "unquote (escape cs @ CHR 0x22 # r) = Some (cs, r)"
      by (simp add: utf8_valid.simps(2) rune_len_ascii)
    with True show ?thesis by (simp add: escape.simps(2) unquote_esc_ascii)
  next
    case False
    with 2 obtain n where n: "rune_len (c # cs) = Suc n" and "utf8_valid (drop n cs)"
      by (auto simp: utf8_valid.simps(2) split: nat.splits)
    with 2 False have "unquote (escape (drop n cs) @ CHR 0x22 # r) = Some (drop n cs, r)" by simp
    with False n show ?thesis by (simp add: escape.simps(2) unquote_esc_wide [OF False n])
  qed
qed

lemma unquote_quote: "utf8_valid s \<Longrightarrow> unquote (tl (quote s) @ r) = Some (s, r)"
  by (simp add: quote_def unquote_escape)

lemma utf8_valid_ascii: "\<forall>c \<in> set s. byte_of c < 128 \<Longrightarrow> utf8_valid s"
  by (induction s) (auto simp: utf8_valid.simps rune_len_ascii)

text \<open>Numbers: a literal is read back if what follows is not part of a number.\<close>

definition json_sep :: "string \<Rightarrow> bool" where
  "json_sep r \<longleftrightarrow> (case r of [] \<Rightarrow> True | c # _ \<Rightarrow> c = CHR '','' \<or> c = CHR '']'' \<or> c = CHR 0x7D)"

definition number_ok :: "string \<Rightarrow> bool" where
  "number_ok s \<longleftrightarrow> (\<forall>r. json_sep r \<longrightarrow> take_number (s @ r) = Some (s, r)) \<and>
     (\<exists>c cs. s = c # cs \<and> (is_digit c \<or> c = CHR ''-''))"

primrec json_ok :: "json \<Rightarrow> bool" where
  "json_ok JNull = True"
| "json_ok (JBool b) = True"
| "json_ok (JNum s) = number_ok s"
| "json_ok (JStr s) = utf8_valid s"
| "json_ok (JArr vs) = (\<forall>b \<in> set (map json_ok vs). b)"
| "json_ok (JObj ms) = (\<forall>(k, b) \<in> set (map (map_prod id json_ok) ms). utf8_valid k \<and> b)"

text \<open>The fuel a value needs.\<close>

primrec need :: "json \<Rightarrow> nat" where
  "need JNull = 1"
| "need (JBool b) = 1"
| "need (JNum s) = 1"
| "need (JStr s) = 1"
| "need (JArr vs) = Suc (sum_list (map Suc (map need vs)))"
| "need (JObj ms) = Suc (sum_list (map (\<lambda>(k, n). Suc n) (map (map_prod id need) ms)))"

lemma skip_ws_id [simp]:
  "skip_ws (CHR '','' # r) = CHR '','' # r" "skip_ws (CHR '']'' # r) = CHR '']'' # r"
  "skip_ws (CHR ''['' # r) = CHR ''['' # r" "skip_ws (CHR '':'' # r) = CHR '':'' # r"
  "skip_ws (CHR 0x22 # r) = CHR 0x22 # r" "skip_ws (CHR 0x7B # r) = CHR 0x7B # r"
  "skip_ws (CHR 0x7D # r) = CHR 0x7D # r" "skip_ws [] = []"
  "skip_ws (CHR ''t'' # r) = CHR ''t'' # r" "skip_ws (CHR ''f'' # r) = CHR ''f'' # r"
  "skip_ws (CHR ''n'' # r) = CHR ''n'' # r"
  by (simp_all add: skip_ws_def)

lemma skip_ws_number: "is_digit c \<or> c = CHR ''-'' \<Longrightarrow> skip_ws (c # r) = c # r"
  by (auto simp: skip_ws_def is_digit_def)

lemma number_okD:
  assumes "number_ok s"
  shows "json_sep r \<Longrightarrow> take_number (s @ r) = Some (s, r)" "\<exists>c cs. s = c # cs \<and> (is_digit c \<or> c = CHR ''-'')"
  using assms unfolding number_ok_def by blast+

lemma number_first:
  assumes "is_digit c \<or> c = CHR ''-''"
  shows "c \<noteq> CHR 0x22" "c \<noteq> CHR ''[''" "c \<noteq> CHR 0x7B" "c \<noteq> CHR ''t''" "c \<noteq> CHR ''f''" "c \<noteq> CHR ''n''"
    "c \<noteq> CHR '']''" "c \<noteq> CHR 0x7D"
  using assms by (auto simp: is_digit_def)

text \<open>The first byte of an encoded value.\<close>

lemma encode_first:
  assumes "json_ok v"
  obtains c cs where "encode v = c # cs" "c \<noteq> CHR '']''" "c \<noteq> CHR 0x7D" "\<And>r. skip_ws (c # r) = c # r"
proof (cases v)
  case (JNum s)
  with assms obtain c cs where s: "s = c # cs" and c: "is_digit c \<or> c = CHR ''-''"
    by (auto simp: number_ok_def)
  with JNum skip_ws_number [OF c] number_first [OF c] that [of c cs] show thesis by simp
next
  case (JBool b)
  then show thesis by (cases b) (auto intro: that)
qed (use that in \<open>auto simp: quote_def\<close>)

lemma parse_elems_encode:
  assumes "\<And>v r k. v \<in> set vs \<Longrightarrow> json_sep r \<Longrightarrow> need v \<le> k \<Longrightarrow> parse_value k (encode v @ r) = Some (v, r)"
    and "vs \<noteq> []" and "sum_list (map Suc (map need vs)) \<le> k"
  shows "parse_elems k (Join '','' (map encode vs) @ CHR '']'' # r) = Some (vs, r)"
  using assms
proof (induction vs arbitrary: k)
  case (Cons v vs)
  from Cons.prems(3) obtain m where k: "k = Suc m" and m: "need v \<le> m" "sum_list (map Suc (map need vs)) \<le> m"
    by (cases k) auto
  show ?case
  proof (cases vs)
    case Nil
    have "parse_value m (encode v @ CHR '']'' # r) = Some (v, CHR '']'' # r)"
      using m by (intro Cons.prems(1)) (auto simp: json_sep_def)
    with Nil k show ?thesis by simp
  next
    case (Cons w ws)
    have "parse_value m (encode v @ CHR '','' # Join '','' (map encode vs) @ CHR '']'' # r)
        = Some (v, CHR '','' # Join '','' (map encode vs) @ CHR '']'' # r)"
      using m by (intro Cons.prems(1)) (auto simp: json_sep_def)
    moreover have "parse_elems m (Join '','' (map encode vs) @ CHR '']'' # r) = Some (vs, r)"
      using m Cons.prems(1) local.Cons by (intro Cons.IH) auto
    ultimately show ?thesis using k local.Cons by simp
  qed
qed simp

abbreviation enc_member :: "string \<times> json \<Rightarrow> string" where
  "enc_member m \<equiv> quote (fst m) @ CHR '':'' # encode (snd m)"

lemma encode_JObj: "encode (JObj ms) = CHR 0x7B # Join '','' (map enc_member ms) @ [CHR 0x7D]"
  by (simp add: case_prod_beta comp_def)

lemma need_JObj: "need (JObj ms) = Suc (sum_list (map (\<lambda>m. Suc (need (snd m))) ms))"
  by (simp add: case_prod_beta comp_def)

lemma parse_members_encode:
  assumes "\<And>m r k. m \<in> set ms \<Longrightarrow> json_sep r \<Longrightarrow> need (snd m) \<le> k \<Longrightarrow>
      parse_value k (encode (snd m) @ r) = Some (snd m, r)"
    and "\<And>m. m \<in> set ms \<Longrightarrow> utf8_valid (fst m)"
    and "ms \<noteq> []" and "sum_list (map (\<lambda>m. Suc (need (snd m))) ms) \<le> k"
  shows "parse_members k (Join '','' (map enc_member ms) @ CHR 0x7D # r) = Some (ms, r)"
  using assms
proof (induction ms arbitrary: k)
  case (Cons m ms)
  obtain key v where m: "m = (key, v)" by fastforce
  from Cons.prems(4) m obtain j where k: "k = Suc j"
    and j: "need v \<le> j" "sum_list (map (\<lambda>m. Suc (need (snd m))) ms) \<le> j"
    by (cases k) auto
  have key: "unquote (escape key @ CHR 0x22 # s) = Some (key, s)" for s
    using Cons.prems(2) [of m] m by (simp add: unquote_escape)
  show ?case
  proof (cases ms)
    case Nil
    have "parse_value j (encode v @ CHR 0x7D # r) = Some (v, CHR 0x7D # r)"
      using j Cons.prems(1) [of m "CHR 0x7D # r" j] m by (simp add: json_sep_def)
    with Nil k m key show ?thesis by (simp add: quote_def)
  next
    case (Cons w ws)
    have "parse_value j (encode v @ CHR '','' # Join '','' (map enc_member ms) @ CHR 0x7D # r)
        = Some (v, CHR '','' # Join '','' (map enc_member ms) @ CHR 0x7D # r)"
      using j Cons.prems(1) [of m "CHR '','' # Join '','' (map enc_member ms) @ CHR 0x7D # r" j] m
      by (simp add: json_sep_def)
    moreover have "parse_members j (Join '','' (map enc_member ms) @ CHR 0x7D # r) = Some (ms, r)"
      using j Cons.prems(1,2) local.Cons by (intro Cons.IH) auto
    ultimately show ?thesis using k m key local.Cons by (simp add: quote_def)
  qed
qed simp

lemma parse_encode:
  "json_ok v \<Longrightarrow> json_sep r \<Longrightarrow> need v \<le> k \<Longrightarrow> parse_value k (encode v @ r) = Some (v, r)"
proof (induction v arbitrary: k r)
  case JNull
  then show ?case by (cases k) auto
next
  case (JBool b)
  then show ?case by (cases k) auto
next
  case (JNum s)
  then obtain c cs where s: "s = c # cs" "is_digit c \<or> c = CHR ''-''"
    and n: "take_number (s @ r) = Some (s, r)" using number_okD [of s] by (metis json_ok.simps(3))
  note c = number_first [OF s(2)]
  have "take 4 (c # cs @ r) \<noteq> ''true''" "take 5 (c # cs @ r) \<noteq> ''false''" "take 4 (c # cs @ r) \<noteq> ''null''"
    using c by (auto simp: take_Cons')
  with c n s(1) skip_ws_number [OF s(2)] have "parse_value (Suc j) (s @ r) = Some (JNum s, r)" for j
    by (simp del: take_Cons_numeral)
  with JNum.prems(3) show ?case by (cases k) auto
next
  case (JStr s)
  then show ?case by (cases k) (auto simp: quote_def unquote_escape)
next
  case (JArr vs)
  from JArr.prems(3) obtain j where k: "k = Suc j" and j: "sum_list (map Suc (map need vs)) \<le> j"
    by (cases k) auto
  show ?case
  proof (cases vs)
    case Nil
    with k show ?thesis by simp
  next
    case (Cons v ws)
    with JArr.prems(1) have "json_ok v" by simp
    then obtain c cs where c: "encode v = c # cs" "c \<noteq> CHR '']''" "\<And>r. skip_ws (c # r) = c # r"
      by (rule encode_first) blast
    have "parse_elems j (Join '','' (map encode vs) @ CHR '']'' # r) = Some (vs, r)"
      using JArr.IH JArr.prems(1) j Cons by (intro parse_elems_encode) auto
    moreover have "\<exists>t. Join '','' (map encode vs) = c # t" using Cons c by (cases ws) auto
    ultimately show ?thesis using k c by auto
  qed
next
  case (JObj ms)
  from JObj.prems(3) obtain j where k: "k = Suc j" and j: "sum_list (map (\<lambda>m. Suc (need (snd m))) ms) \<le> j"
    unfolding need_JObj by (cases k) auto
  show ?case
  proof (cases ms)
    case Nil
    with k show ?thesis by simp
  next
    case (Cons m ws)
    have "parse_members j (Join '','' (map enc_member ms) @ CHR 0x7D # r) = Some (ms, r)"
      using JObj.IH JObj.prems(1) j Cons by (intro parse_members_encode) (fastforce simp: snds.simps)+
    moreover have "\<exists>t. Join '','' (map enc_member ms) = CHR 0x22 # t"
      using Cons by (cases ws) (auto simp: quote_def)
    ultimately show ?thesis unfolding encode_JObj using k by auto
  qed
qed

lemma json_ok_JObj: "json_ok (JObj ms) \<longleftrightarrow> (\<forall>m \<in> set ms. utf8_valid (fst m) \<and> json_ok (snd m))"
  by (auto simp: map_prod_def)

lemma length_Join: "length (Join '','' xs) + (if xs = [] then 0 else 1) = sum_list (map (\<lambda>x. Suc (length x)) xs)"
  by (induction "'',''" xs rule: Join.induct) auto

lemma need_le: "json_ok v \<Longrightarrow> need v \<le> 2 * length (encode v)"
proof (induction v)
  case (JNum s)
  then show ?case using number_okD(2) [of s] by (auto simp: Suc_le_eq)
next
  case (JArr vs)
  have "sum_list (map (\<lambda>v. Suc (need v)) vs) \<le> sum_list (map (\<lambda>v. 2 * Suc (length (encode v))) vs)"
    using JArr by (intro sum_list_mono) force
  also have "\<dots> = 2 * sum_list (map (\<lambda>v. Suc (length (encode v))) vs)"
    by (simp only: sum_list_const_mult)
  also have "\<dots> \<le> 2 * (length (Join '','' (map encode vs)) + 1)"
    using length_Join [of "map encode vs"] by (simp add: comp_def split: if_splits)
  finally show ?case by (simp add: comp_def)
next
  case (JObj ms)
  have "need (snd m) \<le> 2 * length (encode (snd m))" if "m \<in> set ms" for m
    using that JObj.IH [of m "snd m"] JObj.prems unfolding json_ok_JObj by (simp add: snds.simps)
  then have "sum_list (map (\<lambda>m. Suc (need (snd m))) ms) \<le> sum_list (map (\<lambda>m. 2 * Suc (length (enc_member m))) ms)"
    by (intro sum_list_mono) (fastforce simp: quote_def)
  also have "\<dots> = 2 * sum_list (map (\<lambda>m. Suc (length (enc_member m))) ms)"
    by (simp only: sum_list_const_mult)
  also have "\<dots> \<le> 2 * (length (Join '','' (map enc_member ms)) + 1)"
    using length_Join [of "map enc_member ms"] by (simp add: comp_def split: if_splits)
  finally show ?case unfolding need_JObj encode_JObj by simp
qed (auto simp: quote_def)

text \<open>The round trip of a value.\<close>

lemma parse_json_encode: "json_ok v \<Longrightarrow> parse_json (encode v) = Some v"
  using parse_encode [of v "[]" "2 * length (encode v)"] need_le [of v]
  by (simp add: parse_json_def json_sep_def)

lemma is_digit_digit_char [simp]: "d < 10 \<Longrightarrow> is_digit (digit_char d)"
  by (simp add: is_digit_def digit_char_ord)

lemma dec_nat_all_digits: "\<forall>c \<in> set (dec_nat n). is_digit c"
  using dec_nat_digits [of _ n] by (auto dest!: dec_nat_digits)

lemma take_digits_sep:
  assumes "\<forall>c \<in> set ds. is_digit c" and "json_sep r"
  shows "takeWhile is_digit (ds @ r) = ds" "dropWhile is_digit (ds @ r) = r"
proof -
  have "takeWhile is_digit r = []" "dropWhile is_digit r = r"
    using assms(2) by (auto simp: json_sep_def is_digit_def split: list.splits)
  with assms(1) show "takeWhile is_digit (ds @ r) = ds" "dropWhile is_digit (ds @ r) = r"
    by (induction ds) auto
qed

lemma take_tail_sep: "json_sep r \<Longrightarrow> take_frac r = Some ([], r) \<and> take_exp r = Some ([], r)"
  by (auto simp: json_sep_def take_frac_def take_exp_def split: list.splits)

lemma take_int_digits:
  assumes "json_sep r"
  shows "take_int (itoa i @ r) = Some (itoa i, r)"
proof -
  define n where "n = nat \<bar>i\<bar>"
  define sg where "sg = (if i < 0 then ''-'' else '''')"
  have s: "itoa i = sg @ dec_nat n" by (simp add: itoa_def n_def sg_def)
  obtain c cs where d: "dec_nat n = c # cs" by (cases "dec_nat n") auto
  have dig: "is_digit c" using dec_nat_all_digits [of n] d by simp
  then have neg: "c \<noteq> CHR ''-''" by (auto simp: is_digit_def)
  have zero: "c = CHR ''0'' \<Longrightarrow> cs = []"
  proof -
    assume "c = CHR ''0''"
    then have "n = 0" using hd_dec_nat_nonzero [of n] d by (cases "n = 0") auto
    then show "cs = []" using d by (simp add: dec_nat.simps [of 0])
  qed
  have "takeWhile is_digit (c # cs @ r) = c # cs" "dropWhile is_digit (c # cs @ r) = r"
    using take_digits_sep [OF dec_nat_all_digits assms, of n] d by simp_all
  then show ?thesis using s d dig neg zero by (auto simp: take_int_def sg_def Let_def)
qed

lemma number_ok_itoa [simp]: "number_ok (itoa i)"
proof -
  have "\<exists>c cs. itoa i = c # cs \<and> (is_digit c \<or> c = CHR ''-'')"
    using dec_nat_all_digits by (cases "dec_nat (nat i)") (auto simp: itoa_def split: if_splits, metis list.set_intros(1))
  then show ?thesis by (simp add: number_ok_def take_number_def take_int_digits take_tail_sep)
qed

end
