(* ===== verification/Registry.thy ===== *)
theory Registry
  imports Json Redis_Spec
begin

text \<open>
  The peer registry of the discovery service
  (\<open>src/services/discovery/internal/registry/registry.go\<close>) and its matcher
  (\<open>src/services/discovery/internal/matcher/matcher.go\<close>). A peer's record is the JSON text at
  the key \<open>peer:<id>\<close>, which expires unless it is refreshed; the set \<open>peers:online\<close> lists the
  ids to look up. The operations take no lock: each command is atomic in Redis, and an operation
  here is one run of its commands without another client in between. An operation returns its
  result and the server's state.
\<close>

section \<open>Peers and their JSON form\<close>

record Peer =
  NodeID :: string
  PublicKey :: string
  Endpoint :: string
  Version :: string
  PeerID :: string
  P2PAddrs :: "string list"
  IsExitNode :: bool
  LastSeen :: int

text \<open>The fields in their order; those marked \<open>omitempty\<close> are left out when empty.\<close>

definition peer_json :: "Peer \<Rightarrow> json" where
  "peer_json p = JObj (
     [(''node_id'', JStr (NodeID p)), (''public_key'', JStr (PublicKey p)),
      (''endpoint'', JStr (Endpoint p)), (''version'', JStr (Version p))]
     @ (if PeerID p = '''' then [] else [(''peer_id'', JStr (PeerID p))])
     @ (if P2PAddrs p = [] then [] else [(''p2p_addrs'', JArr (map JStr (P2PAddrs p)))])
     @ (if IsExitNode p then [(''is_exit_node'', JBool True)] else [])
     @ [(''last_seen'', JNum (itoa (LastSeen p)))])"

definition zero_peer :: Peer where
  "zero_peer = \<lparr>NodeID = '''', PublicKey = '''', Endpoint = '''', Version = '''', PeerID = '''',
     P2PAddrs = [], IsExitNode = False, LastSeen = 0\<rparr>"

text \<open>Decoding a string, a list of strings, a boolean, an \<open>int64\<close> into a field that holds \<open>old\<close>:
  \<open>null\<close> leaves it, a value of another type is an error.\<close>

fun dec_string :: "string \<Rightarrow> json \<Rightarrow> string option" where
  "dec_string old (JStr s) = Some s"
| "dec_string old JNull = Some old"
| "dec_string old _ = None"

fun dec_strings :: "string list \<Rightarrow> json \<Rightarrow> string list option" where
  "dec_strings old (JArr vs) = those (map (dec_string '''') vs)"
| "dec_strings old JNull = Some []"
| "dec_strings old _ = None"

fun dec_bool :: "bool \<Rightarrow> json \<Rightarrow> bool option" where
  "dec_bool old (JBool b) = Some b"
| "dec_bool old JNull = Some old"
| "dec_bool old _ = None"

fun dec_int64 :: "int \<Rightarrow> json \<Rightarrow> int option" where
  "dec_int64 old (JNum s) = Atoi s"
| "dec_int64 old JNull = Some old"
| "dec_int64 old _ = None"

text \<open>Keys are matched without regard to case; here for ASCII letters.\<close>

definition lower_char :: "char \<Rightarrow> char" where
  "lower_char c = (if 65 \<le> byte_of c \<and> byte_of c \<le> 90 then char_of (byte_of c + 32) else c)"

definition dec_peer_field :: "string \<times> json \<Rightarrow> Peer \<Rightarrow> Peer option" where
  "dec_peer_field m p =
     (let k = map lower_char (fst m); v = snd m in
      if k = ''node_id'' then map_option (\<lambda>x. p\<lparr>NodeID := x\<rparr>) (dec_string (NodeID p) v)
      else if k = ''public_key'' then map_option (\<lambda>x. p\<lparr>PublicKey := x\<rparr>) (dec_string (PublicKey p) v)
      else if k = ''endpoint'' then map_option (\<lambda>x. p\<lparr>Endpoint := x\<rparr>) (dec_string (Endpoint p) v)
      else if k = ''version'' then map_option (\<lambda>x. p\<lparr>Version := x\<rparr>) (dec_string (Version p) v)
      else if k = ''peer_id'' then map_option (\<lambda>x. p\<lparr>PeerID := x\<rparr>) (dec_string (PeerID p) v)
      else if k = ''p2p_addrs'' then map_option (\<lambda>x. p\<lparr>P2PAddrs := x\<rparr>) (dec_strings (P2PAddrs p) v)
      else if k = ''is_exit_node'' then map_option (\<lambda>x. p\<lparr>IsExitNode := x\<rparr>) (dec_bool (IsExitNode p) v)
      else if k = ''last_seen'' then map_option (\<lambda>x. p\<lparr>LastSeen := x\<rparr>) (dec_int64 (LastSeen p) v)
      else Some p)"

fun dec_peer_fields :: "(string \<times> json) list \<Rightarrow> Peer \<Rightarrow> Peer option" where
  "dec_peer_fields [] p = Some p"
| "dec_peer_fields (m # ms) p =
     (case dec_peer_field m p of None \<Rightarrow> None | Some p' \<Rightarrow> dec_peer_fields ms p')"

definition unmarshal_peer :: "string \<Rightarrow> Peer option" where
  "unmarshal_peer s =
     (case parse_json s of
        Some (JObj ms) \<Rightarrow> dec_peer_fields ms zero_peer
      | Some JNull \<Rightarrow> Some zero_peer
      | _ \<Rightarrow> None)"

definition marshal_peer :: "Peer \<Rightarrow> string" where
  "marshal_peer p = encode (peer_json p)"

text \<open>The values a field may hold: text in UTF-8 and a 64-bit integer.\<close>

definition peer_ok :: "Peer \<Rightarrow> bool" where
  "peer_ok p \<longleftrightarrow> (\<forall>s \<in> set ([NodeID p, PublicKey p, Endpoint p, Version p, PeerID p] @ P2PAddrs p). utf8_valid s)
     \<and> - (2 ^ 63) \<le> LastSeen p \<and> LastSeen p < 2 ^ 63"

lemma those_map_JStr [simp]: "those (map (dec_string old) (map JStr xs)) = Some xs"
  by (induction xs) auto

lemma dec_peer_fields_append:
  "dec_peer_fields (xs @ ys) p =
     (case dec_peer_fields xs p of None \<Rightarrow> None | Some q \<Rightarrow> dec_peer_fields ys q)"
  by (induction xs p rule: dec_peer_fields.induct) (auto split: option.splits)

lemma dec_peer_field_keys [simp]:
  "dec_peer_field (''node_id'', JStr x) p = Some (p\<lparr>NodeID := x\<rparr>)"
  "dec_peer_field (''public_key'', JStr x) p = Some (p\<lparr>PublicKey := x\<rparr>)"
  "dec_peer_field (''endpoint'', JStr x) p = Some (p\<lparr>Endpoint := x\<rparr>)"
  "dec_peer_field (''version'', JStr x) p = Some (p\<lparr>Version := x\<rparr>)"
  "dec_peer_field (''peer_id'', JStr x) p = Some (p\<lparr>PeerID := x\<rparr>)"
  "dec_peer_field (''p2p_addrs'', JArr (map JStr xs)) p = Some (p\<lparr>P2PAddrs := xs\<rparr>)"
  "dec_peer_field (''is_exit_node'', JBool b) p = Some (p\<lparr>IsExitNode := b\<rparr>)"
  "- (2 ^ 63) \<le> i \<Longrightarrow> i < 2 ^ 63 \<Longrightarrow> dec_peer_field (''last_seen'', JNum (itoa i)) p = Some (p\<lparr>LastSeen := i\<rparr>)"
  by (simp_all add: dec_peer_field_def lower_char_def Atoi_itoa del: map_map)

text \<open>The record written for a peer is read back as the same peer.\<close>

lemma unmarshal_marshal_peer:
  assumes "peer_ok p"
  shows "unmarshal_peer (marshal_peer p) = Some p"
proof -
  have key: "utf8_valid k" if "k \<in> {''node_id'', ''public_key'', ''endpoint'', ''version'', ''peer_id'',
      ''p2p_addrs'', ''is_exit_node'', ''last_seen''}" for k
    using that by (intro utf8_valid_ascii) auto
  have "json_ok (peer_json p)"
    using assms unfolding peer_json_def json_ok_JObj by (auto simp: peer_ok_def key)
  then have "parse_json (marshal_peer p) = Some (peer_json p)"
    unfolding marshal_peer_def by (rule parse_json_encode)
  moreover have "- (2 ^ 63) \<le> LastSeen p" "LastSeen p < 2 ^ 63" using assms by (simp_all add: peer_ok_def)
  ultimately show ?thesis
    by (simp add: unmarshal_peer_def peer_json_def dec_peer_fields_append zero_peer_def)
qed

section \<open>The operations\<close>

definition peerKeyPrefix :: string where
  "peerKeyPrefix = ''peer:''"

definition peersSetKey :: string where
  "peersSetKey = ''peers:online''"

record Registry =
  reg_ttl :: duration

definition reg_New :: "'r redis \<Rightarrow> int \<Rightarrow> 'r \<Rightarrow> Registry result \<times> 'r" where
  "reg_New R heartbeatTTL r =
     (case rPing R r of
        (Some err, r') \<Rightarrow> (Inl (Wrapped ''redis connection failed'' err), r')
      | (None, r') \<Rightarrow> (Inr \<lparr>reg_ttl = int64 (heartbeatTTL * time_Second)\<rparr>, r'))"

definition reg_Ping :: "'r redis \<Rightarrow> 'r \<Rightarrow> go_error option \<times> 'r" where
  "reg_Ping R r = rPing R r"

definition stamped :: "instant \<Rightarrow> Peer \<Rightarrow> Peer" where
  "stamped now peer = peer\<lparr>LastSeen := unix now\<rparr>"

definition reg_Register :: "'r redis \<Rightarrow> Registry \<Rightarrow> instant \<Rightarrow> Peer \<Rightarrow> 'r \<Rightarrow> go_error option \<times> 'r" where
  "reg_Register R g now peer r =
     (let peer = stamped now peer; data = marshal_peer peer; key = peerKeyPrefix @ NodeID peer in
      case rSet R now key data (reg_ttl g) r of
        (Some err, r1) \<Rightarrow> (Some (Wrapped ''redis set error'' err), r1)
      | (None, r1) \<Rightarrow>
          (case rSAdd R now peersSetKey (NodeID peer) r1 of
             (Some err, r2) \<Rightarrow> (Some (Wrapped ''redis sadd error'' err), r2)
           | (None, r2) \<Rightarrow> (None, r2)))"

definition reg_Heartbeat :: "'r redis \<Rightarrow> Registry \<Rightarrow> instant \<Rightarrow> string \<Rightarrow> 'r \<Rightarrow> go_error option \<times> 'r" where
  "reg_Heartbeat R g now nodeID r =
     (let key = peerKeyPrefix @ nodeID in
      case rExists R now key r of
        (Inl err, r1) \<Rightarrow> (Some (Wrapped ''redis exists error'' err), r1)
      | (Inr n, r1) \<Rightarrow>
          if n = 0 then (Some (Plain (''peer not found: '' @ nodeID)), r1)
          else case rExpire R now key (reg_ttl g) r1 of
                 (Some err, r2) \<Rightarrow> (Some (Wrapped ''redis expire error'' err), r2)
               | (None, r2) \<Rightarrow> (None, r2))"

definition reg_Unregister :: "'r redis \<Rightarrow> instant \<Rightarrow> string \<Rightarrow> 'r \<Rightarrow> go_error option \<times> 'r" where
  "reg_Unregister R now nodeID r =
     (case rDel R now (peerKeyPrefix @ nodeID) r of
        (Some err, r1) \<Rightarrow> (Some (Wrapped ''redis del error'' err), r1)
      | (None, r1) \<Rightarrow>
          (case rSRem R now peersSetKey nodeID r1 of
             (Some err, r2) \<Rightarrow> (Some (Wrapped ''redis srem error'' err), r2)
           | (None, r2) \<Rightarrow> (None, r2)))"

definition GetPeer :: "'r redis \<Rightarrow> instant \<Rightarrow> string \<Rightarrow> 'r \<Rightarrow> Peer result \<times> 'r" where
  "GetPeer R now nodeID r =
     (case rGet R now (peerKeyPrefix @ nodeID) r of
        (Inl RedisNil, r1) \<Rightarrow> (Inl (Plain (''peer not found: '' @ nodeID)), r1)
      | (Inl (RedisErr err), r1) \<Rightarrow> (Inl (Wrapped ''redis get error'' err), r1)
      | (Inr data, r1) \<Rightarrow>
          (case unmarshal_peer data of
             None \<Rightarrow> (Inl (Wrapped ''unmarshal error'' (Plain ''json'')), r1)
           | Some peer \<Rightarrow> (Inr peer, r1)))"

text \<open>The loop of \<open>ListOnlinePeers\<close>: an id whose peer cannot be read is taken off the set; the
  error of that command is ignored.\<close>

fun list_loop :: "'r redis \<Rightarrow> instant \<Rightarrow> string list \<Rightarrow> 'r \<Rightarrow> Peer list \<times> 'r" where
  "list_loop R now [] r = ([], r)"
| "list_loop R now (nodeID # ids) r =
     (case GetPeer R now nodeID r of
        (Inl _, r1) \<Rightarrow> (case rSRem R now peersSetKey nodeID r1 of (_, r2) \<Rightarrow> list_loop R now ids r2)
      | (Inr peer, r1) \<Rightarrow> (case list_loop R now ids r1 of (ps, r2) \<Rightarrow> (peer # ps, r2)))"

definition ListOnlinePeers ::
  "'r redis \<Rightarrow> instant \<Rightarrow> 'r \<Rightarrow> Peer list result \<times> 'r \<times> metric_call list" where
  "ListOnlinePeers R now r =
     (case rSMembers R now peersSetKey r of
        (Inl err, r1) \<Rightarrow> (Inl (Wrapped ''redis smembers error'' err), r1, [])
      | (Inr nodeIDs, r1) \<Rightarrow>
          (case list_loop R now nodeIDs r1 of
             (peers, r2) \<Rightarrow>
               (Inr peers, r2,
                [SetGauge ''gordion_active_peers_total'' [''false''] (int (length (filter (\<lambda>p. \<not> IsExitNode p) peers))),
                 SetGauge ''gordion_active_peers_total'' [''true''] (int (length (filter IsExitNode peers)))])))"

text \<open>The last loop of \<open>CleanupStale\<close> over the ids and the replies of the pipeline.\<close>

fun cleanup_loop :: "'r redis \<Rightarrow> instant \<Rightarrow> (string \<times> int) list \<Rightarrow> 'r \<Rightarrow> int \<times> 'r" where
  "cleanup_loop R now [] r = (0, r)"
| "cleanup_loop R now ((nodeID, n) # cmds) r =
     (if n = 0 then
        (case rSRem R now peersSetKey nodeID r of
           (_, r1) \<Rightarrow> (case cleanup_loop R now cmds r1 of (k, r2) \<Rightarrow> (k + 1, r2)))
      else cleanup_loop R now cmds r)"

definition CleanupStale :: "'r redis \<Rightarrow> instant \<Rightarrow> 'r \<Rightarrow> int result \<times> 'r" where
  "CleanupStale R now r =
     (case rSMembers R now peersSetKey r of
        (Inl err, r1) \<Rightarrow> (Inl (Wrapped ''redis smembers error'' err), r1)
      | (Inr nodeIDs, r1) \<Rightarrow>
          if nodeIDs = [] then (Inr 0, r1)
          else (case rPipeExists R now (map (\<lambda>id. peerKeyPrefix @ id) nodeIDs) r1 of
             (Some (RedisErr err), _, r2) \<Rightarrow> (Inl (Wrapped ''pipeline exec error'' err), r2)
           | (_, vals, r2) \<Rightarrow>
               (case cleanup_loop R now (zip nodeIDs vals) r2 of (k, r3) \<Rightarrow> (Inr k, r3))))"

text \<open>\<open>Matcher.FindPeer\<close>: \<open>pick n\<close> is the number \<open>rand.Intn(n)\<close> draws.\<close>

definition FindPeer ::
  "'r redis \<Rightarrow> (nat \<Rightarrow> nat) \<Rightarrow> instant \<Rightarrow> string \<Rightarrow> 'r \<Rightarrow> Peer result \<times> 'r \<times> metric_call list" where
  "FindPeer R pick now requesterID r =
     (case ListOnlinePeers R now r of
        (Inl err, r1, ms) \<Rightarrow> (Inl (Wrapped ''failed to list peers'' err), r1, ms)
      | (Inr peers, r1, ms) \<Rightarrow>
          let candidates = filter (\<lambda>p. NodeID p \<noteq> requesterID) peers in
          if candidates = [] then (Inl (Plain ''no available peers''), r1, ms)
          else (Inr (candidates ! pick (length candidates)), r1, ms))"

section \<open>The lease table\<close>

text \<open>
  What the registry promises: a table of leases. Registering a peer gives it a lease for the
  time to live, a heartbeat renews a lease that has not run out, unregistering ends it, and the
  peers to see are those whose lease has not run out.
\<close>

type_synonym leases = "string \<rightharpoonup> Peer \<times> instant"

definition lease_at :: "instant \<Rightarrow> leases \<Rightarrow> string \<rightharpoonup> Peer" where
  "lease_at t L n = (case L n of None \<Rightarrow> None | Some (p, e) \<Rightarrow> if t < e then Some p else None)"

datatype reg_op = ORegister Peer | OHeartbeat string | OUnregister string | OList | OCleanup

fun lease_step :: "duration \<Rightarrow> instant \<Rightarrow> reg_op \<Rightarrow> leases \<Rightarrow> leases" where
  "lease_step ttl t (ORegister p) L = L(NodeID p \<mapsto> (stamped t p, t + ttl))"
| "lease_step ttl t (OHeartbeat n) L =
     (case lease_at t L n of None \<Rightarrow> L | Some p \<Rightarrow> L(n \<mapsto> (p, t + ttl)))"
| "lease_step ttl t (OUnregister n) L = L(n := None)"
| "lease_step ttl t OList L = L"
| "lease_step ttl t OCleanup L = L"

fun reg_step :: "'r redis \<Rightarrow> Registry \<Rightarrow> instant \<Rightarrow> reg_op \<Rightarrow> 'r \<Rightarrow> 'r" where
  "reg_step R g t (ORegister p) r = snd (reg_Register R g t p r)"
| "reg_step R g t (OHeartbeat n) r = snd (reg_Heartbeat R g t n r)"
| "reg_step R g t (OUnregister n) r = snd (reg_Unregister R t n r)"
| "reg_step R g t OList r = fst (snd (ListOnlinePeers R t r))"
| "reg_step R g t OCleanup r = snd (CleanupStale R t r)"

text \<open>A history: operations with the times they run at, in order.\<close>

fun lease_run :: "duration \<Rightarrow> (instant \<times> reg_op) list \<Rightarrow> leases \<Rightarrow> leases" where
  "lease_run ttl [] L = L"
| "lease_run ttl ((t, x) # xs) L = lease_run ttl xs (lease_step ttl t x L)"

fun reg_run :: "'r redis \<Rightarrow> Registry \<Rightarrow> (instant \<times> reg_op) list \<Rightarrow> 'r \<Rightarrow> 'r" where
  "reg_run R g [] r = r"
| "reg_run R g ((t, x) # xs) r = reg_run R g xs (reg_step R g t x r)"

text \<open>A history in the order of time, from a start not later than its first operation.\<close>

fun in_order :: "instant \<Rightarrow> (instant \<times> reg_op) list \<Rightarrow> bool" where
  "in_order t [] = True"
| "in_order t ((u, x) # xs) = (t \<le> u \<and> in_order u xs)"

fun op_ok :: "instant \<times> reg_op \<Rightarrow> bool" where
  "op_ok (t, ORegister p) = peer_ok (stamped t p)"
| "op_ok _ = True"

text \<open>The store represents a table from time \<open>t\<close> on: each record is the marshalled peer while its
  lease lasts, every leased peer is in the set, and no key has a value of another type.\<close>

definition reg_rel :: "'r live_view \<Rightarrow> 'r set_view \<Rightarrow> instant \<Rightarrow> leases \<Rightarrow> 'r \<Rightarrow> bool" where
  "reg_rel live mem t L r \<longleftrightarrow>
     (\<forall>u \<ge> t. (\<forall>n. live u r (peerKeyPrefix @ n) = map_option marshal_peer (lease_at u L n))
            \<and> live u r peersSetKey = None)
     \<and> (\<forall>n. mem r (peerKeyPrefix @ n) = {})
     \<and> (\<forall>n p. lease_at t L n = Some p \<longrightarrow> n \<in> mem r peersSetKey)
     \<and> (\<forall>n p e. L n = Some (p, e) \<longrightarrow> NodeID p = n \<and> peer_ok p)"

lemma peer_key_ne [simp]: "peerKeyPrefix @ n \<noteq> peersSetKey" "peersSetKey \<noteq> peerKeyPrefix @ n"
  by (simp_all add: peerKeyPrefix_def peersSetKey_def)

lemma stamped_sel [simp]: "NodeID (stamped t p) = NodeID p" "LastSeen (stamped t p) = unix t"
  by (simp_all add: stamped_def)

text \<open>The peer that a read of id \<open>n\<close> finds.\<close>

definition peer_at :: "'r live_view \<Rightarrow> instant \<Rightarrow> 'r \<Rightarrow> string \<Rightarrow> Peer option" where
  "peer_at live t r n = Option.bind (live t r (peerKeyPrefix @ n)) unmarshal_peer"

lemma peer_at_cong: "live t r' = live t r \<Longrightarrow> peer_at live t r' = peer_at live t r"
  by (simp add: peer_at_def fun_eq_iff)

lemma lease_at_mono: "lease_at t' L n = Some p \<Longrightarrow> t \<le> t' \<Longrightarrow> lease_at t L n = Some p"
  by (auto simp: lease_at_def split: option.splits if_splits)

lemma reg_rel_mono:
  assumes "reg_rel live mem t L r" "t \<le> t'"
  shows "reg_rel live mem t' L r"
proof -
  from assms(2) have "u \<ge> t' \<Longrightarrow> u \<ge> t" for u by simp
  with assms show ?thesis unfolding reg_rel_def by (meson lease_at_mono)
qed

lemma reg_relD:
  assumes "reg_rel live mem t L r"
  shows "t \<le> u \<Longrightarrow> live u r (peerKeyPrefix @ n) = map_option marshal_peer (lease_at u L n)"
    and "t \<le> u \<Longrightarrow> live u r peersSetKey = None" and "mem r (peerKeyPrefix @ n) = {}"
    and "lease_at t L n = Some p \<Longrightarrow> n \<in> mem r peersSetKey"
    and "lease_at u L n = Some p \<Longrightarrow> NodeID p = n \<and> peer_ok p"
proof -
  note rel = assms [unfolded reg_rel_def]
  from rel show "t \<le> u \<Longrightarrow> live u r (peerKeyPrefix @ n) = map_option marshal_peer (lease_at u L n)"
    and "t \<le> u \<Longrightarrow> live u r peersSetKey = None" and "mem r (peerKeyPrefix @ n) = {}"
    and "lease_at t L n = Some p \<Longrightarrow> n \<in> mem r peersSetKey" by simp_all
  assume "lease_at u L n = Some p"
  then obtain e where "L n = Some (p, e)" by (auto simp: lease_at_def split: option.splits if_splits)
  with rel show "NodeID p = n \<and> peer_ok p" by blast
qed

context redis_laws
begin

lemma GetPeer_up:
  assumes get: "GetPeer R t n r = (x, r')" and "up r" "mem r (peerKeyPrefix @ n) = {}"
  shows "unchanged live mem t r r' \<and> up r' \<and>
    (case peer_at live t r n of None \<Rightarrow> \<exists>e. x = Inl e | Some p \<Rightarrow> x = Inr p)"
proof -
  obtain g r1 where g: "rGet R t (peerKeyPrefix @ n) r = (g, r1)" by fastforce
  note law = get_law [OF g]
  show ?thesis
  proof (cases g)
    case (Inl e)
    with law assms have "g = Inl RedisNil" by (cases e) auto
    with g law assms show ?thesis by (auto simp: GetPeer_def peer_at_def)
  next
    case (Inr d)
    with g law assms show ?thesis by (auto simp: GetPeer_def peer_at_def split: option.splits)
  qed
qed

lemma list_loop_up:
  assumes "list_loop R t ids r = (ps, r')" and "up r" "\<And>n. mem r (peerKeyPrefix @ n) = {}"
    and "live t r peersSetKey = None"
  shows "up r' \<and> (\<forall>u \<ge> t. live u r' = live u r)
    \<and> ps = List.map_filter (peer_at live t r) ids
    \<and> mem r' = (mem r)(peersSetKey := mem r peersSetKey -
        {n \<in> set ids. peer_at live t r n = None})"
  using assms
proof (induction ids arbitrary: r ps)
  case Nil
  then show ?case by (auto simp: map_filter_simps)
next
  case (Cons n ids)
  obtain x r1 where g: "GetPeer R t n r = (x, r1)" by fastforce
  from GetPeer_up [OF g Cons.prems(2,3)] have r1: "mem r1 = mem r" "\<forall>u \<ge> t. live u r1 = live u r" "up r1"
    and x: "case peer_at live t r n of None \<Rightarrow> \<exists>e. x = Inl e | Some p \<Rightarrow> x = Inr p"
    by (auto simp: unchanged_def)
  show ?case
  proof (cases "peer_at live t r n")
    case None
    with x obtain e where e: "x = Inl e" by auto
    obtain y r2 where s: "rSRem R t peersSetKey n r1 = (y, r2)" by fastforce
    from srem_law [OF s] r1 Cons.prems(4) have r2: "mem r2 = (mem r)(peersSetKey := mem r peersSetKey - {n})"
      "\<forall>u \<ge> t. live u r2 = live u r" "up r2"
      by (auto simp: outcome_def set_written_def)
    from g e s Cons.prems(1) have l: "list_loop R t ids r2 = (ps, r')" by simp
    have same: "peer_at live t r2 = peer_at live t r" using r2(2) by (intro peer_at_cong) simp
    from Cons.IH [OF l r2(3)] r2 Cons.prems(3,4)
    have "up r' \<and> (\<forall>u \<ge> t. live u r' = live u r) \<and> ps = List.map_filter (peer_at live t r) ids"
      and "mem r' = (mem r)(peersSetKey := mem r peersSetKey - {n} - {n \<in> set ids. peer_at live t r n = None})"
      unfolding same by (auto simp: fun_eq_iff)
    moreover have "mem r peersSetKey - {n} - {n \<in> set ids. peer_at live t r n = None}
        = mem r peersSetKey - {k \<in> set (n # ids). peer_at live t r k = None}"
      using None by auto
    ultimately show ?thesis using None by (simp add: map_filter_simps)
  next
    case (Some p)
    with x have p: "x = Inr p" by simp
    obtain qs where l: "list_loop R t ids r1 = (qs, r')" and ps: "ps = p # qs"
      using g p Cons.prems(1) by (auto split: prod.splits)
    have same: "peer_at live t r1 = peer_at live t r" using r1(2) by (intro peer_at_cong) simp
    from Cons.IH [OF l r1(3)] r1 Cons.prems(3,4)
    have "up r' \<and> (\<forall>u \<ge> t. live u r' = live u r) \<and> qs = List.map_filter (peer_at live t r) ids"
      and "mem r' = (mem r)(peersSetKey := mem r peersSetKey - {n \<in> set ids. peer_at live t r n = None})"
      unfolding same by auto
    moreover have "{n \<in> set ids. peer_at live t r n = None} = {k \<in> set (n # ids). peer_at live t r k = None}"
      using Some by auto
    ultimately show ?thesis using Some ps by (simp add: map_filter_simps)
  qed
qed

text \<open>With the server up, the list of peers is the lookup of every id in the set, and the ids
  without a readable record leave the set.\<close>

lemma ListOnlinePeers_up:
  assumes "ListOnlinePeers R t r = (res, r', ms)" and "up r" "\<And>n. mem r (peerKeyPrefix @ n) = {}"
    and "live t r peersSetKey = None"
  obtains ids where "set ids = mem r peersSetKey" "distinct ids" "up r'" "\<forall>u \<ge> t. live u r' = live u r"
    "res = Inr (List.map_filter (peer_at live t r) ids)"
    "mem r' = (mem r)(peersSetKey :=
        {n \<in> mem r peersSetKey. peer_at live t r n \<noteq> None})"
proof -
  obtain z r1 where z: "rSMembers R t peersSetKey r = (z, r1)" by fastforce
  from smembers_law [OF z] assms(2,4) obtain ids where ids: "z = Inr ids" "set ids = mem r peersSetKey" "distinct ids"
    and r1: "mem r1 = mem r" "\<forall>u \<ge> t. live u r1 = live u r" "up r1"
    by (auto simp: unchanged_def)
  obtain ps r2 where l: "list_loop R t ids r1 = (ps, r2)" by fastforce
  from z ids l assms(1) have "res = Inr ps" "r' = r2" by (auto simp: ListOnlinePeers_def)
  moreover have "peer_at live t r1 = peer_at live t r" using r1(2) by (intro peer_at_cong) simp
  moreover from list_loop_up [OF l r1(3)] r1 assms(3,4)
  have "up r2" "\<forall>u \<ge> t. live u r2 = live u r" "ps = List.map_filter (peer_at live t r1) ids"
    "mem r2 = (mem r)(peersSetKey := mem r peersSetKey - {n \<in> set ids. peer_at live t r1 n = None})"
    by auto
  moreover have "mem r peersSetKey - {n \<in> set ids. peer_at live t r n = None}
      = {n \<in> mem r peersSetKey. peer_at live t r n \<noteq> None}"
    using ids(2) by auto
  ultimately show thesis using ids that by simp
qed

end

section \<open>Refinement\<close>

text \<open>The peers visible at a time, by their lease.\<close>

lemma peer_at_lease:
  assumes "reg_rel live mem t L r" "t \<le> u"
  shows "peer_at live u r n = lease_at u L n"
proof (cases "lease_at u L n")
  case (Some p)
  with reg_relD(5) [OF assms(1) Some] show ?thesis
    by (simp add: peer_at_def reg_relD(1) [OF assms] unmarshal_marshal_peer)
qed (simp add: peer_at_def reg_relD(1) [OF assms])

lemma lease_at_upd: "lease_at u (L(n \<mapsto> (p, e))) = (lease_at u L)(n := if u < e then Some p else None)"
  by (auto simp: lease_at_def fun_eq_iff)

lemma lease_at_del: "lease_at u (L(n := None)) = (lease_at u L)(n := None)"
  by (auto simp: lease_at_def fun_eq_iff)

context redis_laws
begin

lemma reg_Register_rel:
  assumes rel: "reg_rel live mem t L r" and up: "up r" and ttl: "0 < reg_ttl g" and ok: "peer_ok (stamped t p)"
    and run: "reg_Register R g t p r = (x, r')"
  shows "x = None \<and> up r' \<and> reg_rel live mem t (lease_step (reg_ttl g) t (ORegister p) L) r'"
proof -
  let ?K = "peerKeyPrefix @ NodeID p" and ?d = "marshal_peer (stamped t p)"
  obtain y r1 where s: "rSet R t ?K ?d (reg_ttl g) r = (y, r1)" by fastforce
  from set_law [OF s] up ttl have "y = None" "up r1" and r1:
    "\<forall>u \<ge> t. live u r1 = (live u r)(?K := if u < t + reg_ttl g then Some ?d else None)"
    "\<forall>k. k \<noteq> ?K \<longrightarrow> mem r1 k = mem r k" "mem r1 ?K \<subseteq> mem r ?K"
    by (auto simp: outcome_def written_def)
  obtain z r2 where a: "rSAdd R t peersSetKey (NodeID p) r1 = (z, r2)" by fastforce
  have "live t r1 peersSetKey = None" using r1(1) reg_relD(2) [OF rel order_refl] by simp
  with sadd_law [OF a] \<open>up r1\<close> have "z = None" "up r2" and r2:
    "mem r2 = (mem r1)(peersSetKey := insert (NodeID p) (mem r1 peersSetKey))" "\<forall>u \<ge> t. live u r2 = live u r1"
    by (auto simp: outcome_def set_written_def)
  from s a run \<open>y = None\<close> \<open>z = None\<close> have x: "x = None" "r' = r2"
    by (auto simp: reg_Register_def Let_def)
  have keys: "mem r2 (peerKeyPrefix @ n) = {}" for n
    using r1(2,3) r2(1) reg_relD(3) [OF rel] by (cases "n = NodeID p") auto
  have "live u r2 (peerKeyPrefix @ n) = map_option marshal_peer (lease_at u (L(NodeID p \<mapsto> (stamped t p, t + reg_ttl g))) n)"
    if "t \<le> u" for u n
    using that r1(1) r2(2) reg_relD(1) [OF rel that] by (simp add: lease_at_upd)
  moreover have "live u r2 peersSetKey = None" if "t \<le> u" for u
    using that r1(1) r2(2) reg_relD(2) [OF rel that] by simp
  moreover have "n \<in> mem r2 peersSetKey" if "lease_at t (L(NodeID p \<mapsto> (stamped t p, t + reg_ttl g))) n = Some q" for n q
    using that r1(2) r2(1) reg_relD(4) [OF rel] by (auto simp: lease_at_upd split: if_splits)
  moreover have "\<forall>n q e. L n = Some (q, e) \<longrightarrow> NodeID q = n \<and> peer_ok q" using rel by (simp add: reg_rel_def)
  ultimately show ?thesis using x \<open>up r2\<close> keys ok by (auto simp: reg_rel_def split: if_splits)
qed

lemma reg_Heartbeat_rel:
  assumes rel: "reg_rel live mem t L r" and up: "up r" and ttl: "0 < reg_ttl g"
    and run: "reg_Heartbeat R g t n r = (x, r')"
  shows "(x = None \<longleftrightarrow> lease_at t L n \<noteq> None) \<and> up r'
    \<and> reg_rel live mem t (lease_step (reg_ttl g) t (OHeartbeat n) L) r'"
proof -
  let ?K = "peerKeyPrefix @ n"
  obtain y r1 where e: "rExists R t ?K r = (y, r1)" by fastforce
  from exists_law [OF e] up obtain k where y: "y = Inr k" and k: "k = 0 \<longleftrightarrow> lease_at t L n = None"
    and r1: "up r1" "mem r1 = mem r" "\<forall>u \<ge> t. live u r1 = live u r"
    using reg_relD(1) [OF rel order_refl, of n] reg_relD(3) [OF rel, of n] by (auto simp: unchanged_def)
  show ?thesis
  proof (cases "lease_at t L n")
    case None
    with e y k run have "x = Some (Plain (''peer not found: '' @ n))" "r' = r1"
      by (auto simp: reg_Heartbeat_def Let_def)
    with None r1 rel show ?thesis by (simp add: reg_rel_def)
  next
    case (Some p)
    obtain z r2 where z: "rExpire R t ?K (reg_ttl g) r1 = (z, r2)" by fastforce
    from expire_law [OF z ttl] r1 have "z = None" "up r2" and r2:
      "\<forall>u \<ge> t. live u r2 = (live u r)(?K := if u < t + reg_ttl g then live t r ?K else None)"
      "\<forall>k. k \<noteq> ?K \<longrightarrow> mem r2 k = mem r k" "mem r2 ?K \<subseteq> mem r ?K"
      by (auto simp: outcome_def written_def)
    from e y k Some z \<open>z = None\<close> run have x: "x = None" "r' = r2"
      by (auto simp: reg_Heartbeat_def Let_def)
    have old: "live t r ?K = Some (marshal_peer p)" using reg_relD(1) [OF rel order_refl, of n] Some by simp
    have keys: "mem r2 (peerKeyPrefix @ m) = {}" for m
      using r2(2,3) reg_relD(3) [OF rel] by (cases "m = n") auto
    have "live u r2 (peerKeyPrefix @ m) = map_option marshal_peer (lease_at u (L(n \<mapsto> (p, t + reg_ttl g))) m)"
      if "t \<le> u" for u m
      using that r2(1) old reg_relD(1) [OF rel that] by (simp add: lease_at_upd)
    moreover have "live u r2 peersSetKey = None" if "t \<le> u" for u
      using that r2(1) reg_relD(2) [OF rel that] by simp
    moreover have "m \<in> mem r2 peersSetKey" if "lease_at t (L(n \<mapsto> (p, t + reg_ttl g))) m = Some q" for m q
      using that r2(2) reg_relD(4) [OF rel] Some by (auto simp: lease_at_upd split: if_splits)
    moreover have "\<forall>m q e. L m = Some (q, e) \<longrightarrow> NodeID q = m \<and> peer_ok q" using rel by (simp add: reg_rel_def)
    ultimately show ?thesis using x Some \<open>up r2\<close> keys reg_relD(5) [OF rel Some]
      by (auto simp: reg_rel_def split: if_splits)
  qed
qed

lemma reg_Unregister_rel:
  assumes rel: "reg_rel live mem t L r" and up: "up r" and run: "reg_Unregister R t n r = (x, r')"
  shows "x = None \<and> up r' \<and> reg_rel live mem t (lease_step ttl t (OUnregister n) L) r'"
proof -
  let ?K = "peerKeyPrefix @ n"
  obtain y r1 where d: "rDel R t ?K r = (y, r1)" by fastforce
  from del_law [OF d] up have "y = None" "up r1" and r1: "\<forall>u \<ge> t. live u r1 = (live u r)(?K := None)"
    "\<forall>k. k \<noteq> ?K \<longrightarrow> mem r1 k = mem r k" "mem r1 ?K \<subseteq> mem r ?K"
    by (auto simp: outcome_def written_def)
  obtain z r2 where s: "rSRem R t peersSetKey n r1 = (z, r2)" by fastforce
  have "live t r1 peersSetKey = None" using r1(1) reg_relD(2) [OF rel order_refl] by simp
  with srem_law [OF s] \<open>up r1\<close> have "z = None" "up r2" and r2:
    "mem r2 = (mem r1)(peersSetKey := mem r1 peersSetKey - {n})" "\<forall>u \<ge> t. live u r2 = live u r1"
    by (auto simp: outcome_def set_written_def)
  from d s run \<open>y = None\<close> \<open>z = None\<close> have x: "x = None" "r' = r2" by (auto simp: reg_Unregister_def)
  have keys: "mem r2 (peerKeyPrefix @ m) = {}" for m
    using r1(2,3) r2(1) reg_relD(3) [OF rel] by (cases "m = n") auto
  have "live u r2 (peerKeyPrefix @ m) = map_option marshal_peer (lease_at u (L(n := None)) m)" if "t \<le> u" for u m
    using that r1(1) r2(2) reg_relD(1) [OF rel that] by (simp add: lease_at_del)
  moreover have "live u r2 peersSetKey = None" if "t \<le> u" for u
    using that r1(1) r2(2) reg_relD(2) [OF rel that] by simp
  moreover have "m \<in> mem r2 peersSetKey" if "lease_at t (L(n := None)) m = Some q" for m q
    using that r1(2) r2(1) reg_relD(4) [OF rel] by (auto simp: lease_at_del split: if_splits)
  moreover have "\<forall>m q e. L m = Some (q, e) \<longrightarrow> NodeID q = m \<and> peer_ok q" using rel by (simp add: reg_rel_def)
  ultimately show ?thesis using x \<open>up r2\<close> keys by (auto simp: reg_rel_def split: if_splits)
qed

end

context redis_laws
begin

lemma cleanup_loop_up:
  assumes "cleanup_loop R t cmds r = (k, r')" "up r" "live t r peersSetKey = None"
  shows "up r' \<and> (\<forall>u \<ge> t. live u r' = live u r) \<and> k = int (length (filter (\<lambda>c. snd c = 0) cmds))
    \<and> (\<forall>x. x \<noteq> peersSetKey \<longrightarrow> mem r' x = mem r x)
    \<and> mem r' peersSetKey = mem r peersSetKey - fst ` set (filter (\<lambda>c. snd c = 0) cmds)"
  using assms
proof (induction cmds arbitrary: r k)
  case (Cons c cmds)
  obtain n v where c: "c = (n, v)" by fastforce
  show ?case
  proof (cases "v = 0")
    case True
    obtain y r1 where s: "rSRem R t peersSetKey n r = (y, r1)" by fastforce
    from c True s Cons.prems(1) obtain j where l: "cleanup_loop R t cmds r1 = (j, r')" and k: "k = j + 1"
      by (auto split: prod.splits)
    from srem_law [OF s] Cons.prems have r1: "up r1" "mem r1 = (mem r)(peersSetKey := mem r peersSetKey - {n})"
      "\<forall>u \<ge> t. live u r1 = live u r"
      by (auto simp: outcome_def set_written_def)
    from Cons.IH [OF l r1(1)] r1 Cons.prems(3) c True k show ?thesis by auto
  next
    case False
    with c Cons.prems Cons.IH [of r k] show ?thesis by auto
  qed
qed simp

lemma CleanupStale_up:
  assumes run: "CleanupStale R t r = (res, r')" and "up r" and keys: "\<And>n. mem r (peerKeyPrefix @ n) = {}"
    and S: "live t r peersSetKey = None"
  shows "up r' \<and> (\<forall>u \<ge> t. live u r' = live u r)
    \<and> (\<forall>x. x \<noteq> peersSetKey \<longrightarrow> mem r' x = mem r x)
    \<and> mem r' peersSetKey = {n \<in> mem r peersSetKey. live t r (peerKeyPrefix @ n) \<noteq> None}
    \<and> res = Inr (int (card {n \<in> mem r peersSetKey. live t r (peerKeyPrefix @ n) = None}))"
proof -
  obtain z r1 where z: "rSMembers R t peersSetKey r = (z, r1)" by fastforce
  from smembers_law [OF z] assms(2) S obtain ids where ids: "z = Inr ids" "set ids = mem r peersSetKey" "distinct ids"
    and r1: "mem r1 = mem r" "\<forall>u \<ge> t. live u r1 = live u r" "up r1"
    by (auto simp: unchanged_def)
  obtain e vals r2 where p: "rPipeExists R t (map (\<lambda>id. peerKeyPrefix @ id) ids) r1 = (e, vals, r2)"
    using prod_cases3 by blast
  from pipe_law [OF p] r1 keys have e: "e = None" and r2: "up r2" "mem r2 = mem r" "\<forall>u \<ge> t. live u r2 = live u r"
    and len: "length vals = length ids"
    and vals: "\<forall>i < length ids. vals ! i = 0 \<longleftrightarrow> live t r (peerKeyPrefix @ (ids ! i)) = None"
    by (auto simp: unchanged_def)
  obtain k r3 where l: "cleanup_loop R t (zip ids vals) r2 = (k, r3)" by fastforce
  have zs: "filter (\<lambda>c. snd c = 0) (zip ids vals) = filter (\<lambda>c. live t r (peerKeyPrefix @ fst c) = None) (zip ids vals)"
    using len vals by (intro filter_cong) (auto simp: set_zip)
  have sel: "map fst (filter (\<lambda>c. snd c = 0) (zip ids vals)) = filter (\<lambda>n. live t r (peerKeyPrefix @ n) = None) ids"
    unfolding zs using len by (intro map_fst_filter_zip) simp
  have cleaned: "fst ` set (filter (\<lambda>c. snd c = 0) (zip ids vals)) = {n \<in> mem r peersSetKey. live t r (peerKeyPrefix @ n) = None}"
    unfolding set_map [symmetric] sel by (simp add: ids(2))
  have cnt: "length (filter (\<lambda>c. snd c = 0) (zip ids vals)) = card {n \<in> mem r peersSetKey. live t r (peerKeyPrefix @ n) = None}"
    unfolding length_map [of fst, symmetric] sel
    using distinct_card [OF distinct_filter [OF ids(3), of "\<lambda>n. live t r (peerKeyPrefix @ n) = None"]]
    by (simp add: ids(2))
  show ?thesis
  proof (cases "ids = []")
    case True
    with z ids(1) run have "res = Inr 0" "r' = r1" by (auto simp: CleanupStale_def)
    with r1 ids(2) True show ?thesis by simp
  next
    case False
    with z ids(1) p e l run have "res = Inr k" "r' = r3" by (auto simp: CleanupStale_def)
    with cleanup_loop_up [OF l r2(1)] r2 S cleaned cnt show ?thesis by auto
  qed
qed

lemma reg_List_rel:
  assumes rel: "reg_rel live mem t L r" and up: "up r" and run: "ListOnlinePeers R t r = (res, r', ms)"
  obtains ps where "res = Inr ps" "up r'" "reg_rel live mem t L r'"
    "set ps = ran (lease_at t L)" "distinct (map NodeID ps)"
proof -
  have S: "live t r peersSetKey = None" using reg_relD(2) [OF rel order_refl] .
  have look: "peer_at live t r = lease_at t L" using peer_at_lease [OF rel order_refl] by (simp add: fun_eq_iff)
  obtain ids where ids: "set ids = mem r peersSetKey" "distinct ids"
    and r': "up r'" "\<forall>u \<ge> t. live u r' = live u r"
    and res: "res = Inr (List.map_filter (lease_at t L) ids)"
    and mem': "mem r' = (mem r)(peersSetKey := {n \<in> mem r peersSetKey. lease_at t L n \<noteq> None})"
    using ListOnlinePeers_up [OF run up reg_relD(3) [OF rel] S, unfolded look] by blast
  have "reg_rel live mem t L r'"
    using rel r'(2) mem' by (auto simp: reg_rel_def)
  moreover have "set (List.map_filter (lease_at t L) ids) = ran (lease_at t L)"
    using ids(1) reg_relD(4) [OF rel] by (force simp: map_filter_def ran_def)
  moreover have "map NodeID (List.map_filter (lease_at t L) ids) = filter (\<lambda>n. lease_at t L n \<noteq> None) ids"
    using reg_relD(5) [OF rel] by (induction ids) (auto simp: map_filter_simps)
  then have "distinct (map NodeID (List.map_filter (lease_at t L) ids))" using ids(2) by simp
  ultimately show thesis using that res r'(1) by blast
qed

lemma reg_Cleanup_rel:
  assumes rel: "reg_rel live mem t L r" and up: "up r" and run: "CleanupStale R t r = (res, r')"
  shows "up r' \<and> reg_rel live mem t L r'"
  using CleanupStale_up [OF run up reg_relD(3) [OF rel] reg_relD(2) [OF rel order_refl]]
    reg_relD(1) [OF rel order_refl] rel
  by (auto simp: reg_rel_def)

lemma reg_step_rel:
  assumes "reg_rel live mem t L r" "up r" "0 < reg_ttl g" "op_ok (t, x)"
  shows "up (reg_step R g t x r) \<and> reg_rel live mem t (lease_step (reg_ttl g) t x L) (reg_step R g t x r)"
proof (cases x)
  case (ORegister p)
  with assms reg_Register_rel [OF assms(1-3), of p "fst (reg_Register R g t p r)"] show ?thesis by simp
next
  case (OHeartbeat n)
  with assms reg_Heartbeat_rel [OF assms(1-3), of n "fst (reg_Heartbeat R g t n r)"] show ?thesis by simp
next
  case (OUnregister n)
  with assms reg_Unregister_rel [OF assms(1,2), of n "fst (reg_Unregister R t n r)"] show ?thesis by simp
next
  case OList
  obtain res r' ms where "ListOnlinePeers R t r = (res, r', ms)" using prod_cases3 by blast
  with OList reg_List_rel [OF assms(1,2) this] show ?thesis by auto
next
  case OCleanup
  with assms reg_Cleanup_rel [OF assms(1,2), of "fst (CleanupStale R t r)"] show ?thesis by simp
qed

lemma reg_run_rel:
  assumes "reg_rel live mem t L r" "up r" "0 < reg_ttl g" "\<forall>x \<in> set xs. op_ok x" "in_order t xs"
    and "\<forall>x \<in> set xs. fst x \<le> u" "t \<le> u"
  shows "up (reg_run R g xs r) \<and> reg_rel live mem u (lease_run (reg_ttl g) xs L) (reg_run R g xs r)"
  using assms
proof (induction xs arbitrary: t L r)
  case Nil
  then show ?case by (auto intro: reg_rel_mono)
next
  case (Cons y xs)
  obtain t' x where y: "y = (t', x)" by fastforce
  with Cons.prems have "reg_rel live mem t' L r" by (auto intro: reg_rel_mono)
  from reg_step_rel [OF this Cons.prems(2,3), of x] Cons.prems(4) y
  have "up (reg_step R g t' x r)" "reg_rel live mem t' (lease_step (reg_ttl g) t' x L) (reg_step R g t' x r)"
    by auto
  with Cons.IH [of t'] Cons.prems y show ?case by auto
qed

end

section \<open>Properties\<close>

lemma empty_rel:
  assumes "\<And>u n. live u r (peerKeyPrefix @ n) = None" "\<And>u. live u r peersSetKey = None"
    and "\<And>n. mem r (peerKeyPrefix @ n) = {}"
  shows "reg_rel live mem t Map.empty r"
  using assms by (simp add: reg_rel_def lease_at_def)

definition demo_peer :: Peer where
  "demo_peer = zero_peer\<lparr>NodeID := ''node-1'', Endpoint := ''1.2.3.4:51820'', Version := ''1.0.0''\<rparr>"

abbreviation demo_reg :: Registry where
  "demo_reg \<equiv> \<lparr>reg_ttl = 30 * time_Second\<rparr>"

lemma demo_peer_ok: "peer_ok (stamped t demo_peer) \<longleftrightarrow> - (2 ^ 63) \<le> unix t \<and> unix t < 2 ^ 63"
proof -
  have "utf8_valid ''node-1''" "utf8_valid ''1.2.3.4:51820''" "utf8_valid ''1.0.0''" "utf8_valid ''''"
    by (intro utf8_valid_ascii; simp)+
  then show ?thesis by (simp add: peer_ok_def demo_peer_def zero_peer_def stamped_def)
qed

lemma demo_start: "db_live u db_empty k = None" "db_mem db_empty k = {}" "db_up db_empty"
  by (simp_all add: db_empty_def db_live_def db_mem_def db_up_def)

text \<open>C1. The registry is a table of leases. After any history of registrations, heartbeats,
  unregistrations, listings and cleanups on a server that answers, a listing at a later time
  returns, each once, exactly the peers whose lease has not run out: a registration grants a
  lease for the time to live, a heartbeat that comes in time renews it, unregistering ends it.\<close>

theorem registry_is_lease_table:
  assumes laws: "redis_laws R live mem up" and up: "up r0"
    and start: "\<And>u n. live u r0 (peerKeyPrefix @ n) = None" "\<And>u. live u r0 peersSetKey = None"
      "\<And>n. mem r0 (peerKeyPrefix @ n) = {}"
    and ttl: "0 < reg_ttl g" and ops: "\<forall>x \<in> set xs. op_ok x" "in_order t0 xs"
    and now: "\<forall>x \<in> set xs. fst x \<le> t" "t0 \<le> t"
  shows "\<exists>ps r' ms. ListOnlinePeers R t (reg_run R g xs r0) = (Inr ps, r', ms)
    \<and> set ps = ran (lease_at t (lease_run (reg_ttl g) xs Map.empty)) \<and> distinct (map NodeID ps)"
proof -
  have rel: "reg_rel live mem t0 Map.empty r0" using start by (rule empty_rel)
  from redis_laws.reg_run_rel [OF laws rel up ttl ops now]
  have "up (reg_run R g xs r0)" "reg_rel live mem t (lease_run (reg_ttl g) xs Map.empty) (reg_run R g xs r0)"
    by simp_all
  moreover obtain res r' ms where "ListOnlinePeers R t (reg_run R g xs r0) = (res, r', ms)"
    using prod_cases3 by blast
  ultimately show ?thesis using redis_laws.reg_List_rel [OF laws] by metis
qed

theorem registry_is_lease_table_witness:
  "\<exists>ps r' ms. ListOnlinePeers mem_redis (10 * time_Second) (reg_run mem_redis demo_reg [(0, ORegister demo_peer)] db_empty)
      = (Inr ps, r', ms)
    \<and> set ps = ran (lease_at (10 * time_Second) (lease_run (reg_ttl demo_reg) [(0, ORegister demo_peer)] Map.empty))
    \<and> distinct (map NodeID ps)"
  by (rule registry_is_lease_table [OF mem_store.redis_laws_axioms, where ?t0.0 = 0])
    (simp_all add: demo_start demo_peer_ok unix_def time_Second_def)

text \<open>Heartbeats at the times \<open>us\<close>, each less than \<open>d\<close> after the one before.\<close>

fun gaps_below :: "duration \<Rightarrow> instant \<Rightarrow> instant list \<Rightarrow> bool" where
  "gaps_below d t [] = True"
| "gaps_below d t (u # us) = (t \<le> u \<and> u < t + d \<and> gaps_below d u us)"

lemma lease_run_heartbeats:
  assumes "L n = Some (p, t + ttl)" and "gaps_below ttl t (us @ [now])" and "0 < ttl"
  shows "lease_at now (lease_run ttl (map (\<lambda>u. (u, OHeartbeat n)) us) L) n = Some p"
  using assms
proof (induction us arbitrary: t L)
  case Nil
  then show ?case by (simp add: lease_at_def)
next
  case (Cons u us)
  have "lease_at u L n = Some p" using Cons.prems by (simp add: lease_at_def)
  then have "lease_step ttl u (OHeartbeat n) L n = Some (p, u + ttl)" by simp
  with Cons show ?case by simp
qed

lemma gaps_below_order: "gaps_below d t (us @ [now]) \<Longrightarrow> in_order t (map (\<lambda>u. (u, OHeartbeat n)) us) \<and> t \<le> now \<and> (\<forall>u \<in> set us. u \<le> now)"
proof (induction us arbitrary: t)
  case (Cons u us)
  then have "in_order u (map (\<lambda>u. (u, OHeartbeat n)) us) \<and> u \<le> now \<and> (\<forall>v \<in> set us. v \<le> now)"
    using Cons.IH [of u] by simp
  with Cons.prems show ?case by simp
qed simp



text \<open>\<open>CleanupStale\<close> takes exactly the peers without a lease off the set of online peers and
  returns how many it removed; the peers with a lease stay, and a second pass removes
  nothing.\<close>

theorem registry_cleanup_exact:
  assumes laws: "redis_laws R live mem up" and up: "up r0"
    and start: "\<And>u n. live u r0 (peerKeyPrefix @ n) = None" "\<And>u. live u r0 peersSetKey = None"
      "\<And>n. mem r0 (peerKeyPrefix @ n) = {}"
    and ttl: "0 < reg_ttl g" and ops: "\<forall>x \<in> set xs. op_ok x" "in_order t0 xs"
    and now: "\<forall>x \<in> set xs. fst x \<le> t" "t0 \<le> t"
    and L: "L = lease_run (reg_ttl g) xs Map.empty" and r: "r = reg_run R g xs r0"
    and run: "CleanupStale R t r = (res, r')"
  shows "res = Inr (int (card {n \<in> mem r peersSetKey. lease_at t L n = None}))
    \<and> mem r' peersSetKey = dom (lease_at t L) \<and> fst (CleanupStale R t r') = Inr 0"
proof -
  have rel0: "reg_rel live mem t0 Map.empty r0" using start by (rule empty_rel)
  from redis_laws.reg_run_rel [OF laws rel0 up ttl ops now]
  have upr: "up r" and rel: "reg_rel live mem t L r" by (simp_all add: L r)
  note one = redis_laws.CleanupStale_up [OF laws run upr reg_relD(3) [OF rel] reg_relD(2) [OF rel order_refl]]
  have live: "live t r (peerKeyPrefix @ n) = None \<longleftrightarrow> lease_at t L n = None" for n
    using reg_relD(1) [OF rel order_refl, of n] by simp
  have mem': "mem r' peersSetKey = dom (lease_at t L)"
    using one live reg_relD(4) [OF rel] by auto
  obtain res2 r2 where run2: "CleanupStale R t r' = (res2, r2)" by fastforce
  have "up r'" and rel': "reg_rel live mem t L r'" using redis_laws.reg_Cleanup_rel [OF laws rel upr run] by simp_all
  note two = redis_laws.CleanupStale_up [OF laws run2 \<open>up r'\<close> reg_relD(3) [OF rel'] reg_relD(2) [OF rel' order_refl]]
  have "live t r' (peerKeyPrefix @ n) = None \<longleftrightarrow> lease_at t L n = None" for n
    using reg_relD(1) [OF rel' order_refl, of n] by simp
  with mem' have "{n \<in> mem r' peersSetKey. live t r' (peerKeyPrefix @ n) = None} = {}" by auto
  with two have "res2 = Inr 0" by simp
  with one live mem' run2 show ?thesis by simp
qed

theorem registry_cleanup_exact_witness:
  "fst (CleanupStale mem_redis (40 * time_Second) (snd (CleanupStale mem_redis (40 * time_Second)
      (reg_run mem_redis demo_reg [(0, ORegister demo_peer)] db_empty)))) = Inr 0"
  by (rule registry_cleanup_exact [OF mem_store.redis_laws_axioms, where ?t0.0 = 0 and g = demo_reg
        and xs = "[(0, ORegister demo_peer)]" and ?r0.0 = db_empty, THEN conjunct2, THEN conjunct2,
        OF _ _ _ _ _ _ _ _ _ refl refl prod.collapse [symmetric]])
    (simp_all add: demo_start demo_peer_ok unix_def time_Second_def)


end
