(* ===== verification/Discovery_Service.thy ===== *)
theory Discovery_Service
  imports Registry Auth
begin

text \<open>
  The discovery service: its configuration file
  (\<open>src/services/discovery/internal/config/config.go\<close>) and its gRPC handler
  (\<open>src/services/discovery/internal/grpc/handler.go\<close>), on top of the registry. The token
  of \<open>ListPeers\<close> comes from the request's metadata, the others from the request.
\<close>

section \<open>The configuration file\<close>

record dsc_Config =
  ds_GRPCPort :: int
  ds_RedisURL :: string
  ds_LogLevel :: string
  ds_HeartbeatTTL :: int

definition dsc_setDefaults :: "dsc_Config \<Rightarrow> dsc_Config" where
  "dsc_setDefaults c = \<lparr>
     ds_GRPCPort = (if ds_GRPCPort c = 0 then 8002 else ds_GRPCPort c),
     ds_RedisURL = (if ds_RedisURL c = '''' then ''localhost:6379'' else ds_RedisURL c),
     ds_LogLevel = (if ds_LogLevel c = '''' then ''debug'' else ds_LogLevel c),
     ds_HeartbeatTTL = (if ds_HeartbeatTTL c = 0 then 30 else ds_HeartbeatTTL c)\<rparr>"

definition dsc_Load ::
  "string result \<Rightarrow> (string \<Rightarrow> dsc_Config result) \<Rightarrow> (string \<Rightarrow> string) \<Rightarrow> dsc_Config result" where
  "dsc_Load file unmarshal getenv =
     (case file of
        Inl err \<Rightarrow> Inl (Wrapped ''config read error'' err)
      | Inr text \<Rightarrow>
          (case unmarshal text of
             Inl err \<Rightarrow> Inl (Wrapped ''config parse error'' err)
           | Inr cfg \<Rightarrow>
               let cfg = dsc_setDefaults cfg in
               Inr (if getenv ''REDIS_URL'' \<noteq> '''' then cfg\<lparr>ds_RedisURL := getenv ''REDIS_URL''\<rparr> else cfg)))"

section \<open>The handler\<close>

record DiscoveryHandler =
  dh_registry :: Registry
  dh_authClient :: "identity_rpc option"

definition NewDiscoveryHandler :: "Registry \<Rightarrow> identity_rpc option \<Rightarrow> DiscoveryHandler" where
  "NewDiscoveryHandler reg authClient = \<lparr>dh_registry = reg, dh_authClient = authClient\<rparr>"

text \<open>The registry's record of a registration request.\<close>

definition peer_of_request :: "string \<Rightarrow> RegisterPeerRequest \<Rightarrow> Peer" where
  "peer_of_request nodeID req =
     \<lparr>NodeID = nodeID, PublicKey = '''', Endpoint = rpq_IpAddress req @ '':'' @ itoa (rpq_Port req),
      Version = ''1.0.0'', PeerID = rpq_PeerId req, P2PAddrs = rpq_P2PAddrs req,
      IsExitNode = rpq_IsExitNode req, LastSeen = 0\<rparr>"

definition RegisterPeer ::
  "'r redis \<Rightarrow> DiscoveryHandler \<Rightarrow> instant \<Rightarrow> RegisterPeerRequest \<Rightarrow> 'r \<Rightarrow> RegisterPeerResponse result \<times> 'r" where
  "RegisterPeer R h now req r =
     (if rpq_Token req = '''' then (Inl (Status InvalidArgument ''token is required'' None), r)
      else if rpq_IpAddress req = '''' then (Inl (Status InvalidArgument ''ip_address is required'' None), r)
      else case resolveNodeID (dh_authClient h) (rpq_Token req) of
        Inl err \<Rightarrow> (Inl (Status Unauthenticated ''auth failed'' (Some err)), r)
      | Inr nodeID \<Rightarrow>
          (case reg_Register R (dh_registry h) now (peer_of_request nodeID req) r of
             (Some err, r1) \<Rightarrow> (Inl (Status Internal ''register failed'' (Some err)), r1)
           | (None, r1) \<Rightarrow> (Inr \<lparr>rpr_Success = True, rpr_Message = ''peer registered''\<rparr>, r1)))"

text \<open>Extracting address and port from an endpoint with exactly one colon.\<close>

definition split_endpoint :: "string \<Rightarrow> string \<times> int" where
  "split_endpoint endpoint =
     (let parts = split_on (CHR '':'') endpoint in
      if length parts = 2 then
        (parts ! 0, case Atoi (parts ! 1) of Some parsedPort \<Rightarrow> int32 parsedPort | None \<Rightarrow> 0)
      else ('''', 0))"

definition proto_peer :: "Peer \<Rightarrow> ProtoPeer" where
  "proto_peer p =
     (case split_endpoint (Endpoint p) of
        (ipAddress, port) \<Rightarrow>
          \<lparr>pp_NodeId = NodeID p, pp_IpAddress = ipAddress, pp_Port = port, pp_Region = Version p,
           pp_Bandwidth = 0, pp_LastSeen = LastSeen p, pp_PeerId = PeerID p, pp_P2PAddrs = P2PAddrs p,
           pp_IsExitNode = IsExitNode p\<rparr>)"

definition tokenFromMetadata :: "rpc_context \<Rightarrow> string" where
  "tokenFromMetadata ctx =
     (case ctx_metadata ctx of
        None \<Rightarrow> ''''
      | Some md \<Rightarrow> (case md ''authorization'' of [] \<Rightarrow> '''' | v # _ \<Rightarrow> TrimPrefix v ''Bearer ''))"

definition apply_limit :: "int \<Rightarrow> 'a list \<Rightarrow> 'a list" where
  "apply_limit limit xs =
     (if limit \<le> 0 \<or> limit > int (length xs) then take (length xs) xs else take (nat limit) xs)"

definition ListPeers ::
  "'r redis \<Rightarrow> DiscoveryHandler \<Rightarrow> instant \<Rightarrow> rpc_context \<Rightarrow> ListPeersRequest \<Rightarrow> 'r
    \<Rightarrow> ListPeersResponse result \<times> 'r \<times> metric_call list" where
  "ListPeers R h now ctx req r =
     (let token = tokenFromMetadata ctx in
      if token = '''' then (Inl (Status Unauthenticated ''authorization token required'' None), r, [])
      else case resolveNodeID (dh_authClient h) token of
        Inl err \<Rightarrow> (Inl (Status Unauthenticated ''auth failed'' (Some err)), r, [])
      | Inr _ \<Rightarrow>
          (case ListOnlinePeers R now r of
             (Inl err, r1, ms) \<Rightarrow> (Inl (Status Internal ''list peers failed'' (Some err)), r1, ms)
           | (Inr peers, r1, ms) \<Rightarrow>
               (Inr \<lparr>lpr_Peers = apply_limit (lpq_Limit req) (map proto_peer peers)\<rparr>, r1, ms)))"

definition Heartbeat ::
  "'r redis \<Rightarrow> DiscoveryHandler \<Rightarrow> instant \<Rightarrow> HeartbeatRequest \<Rightarrow> 'r \<Rightarrow> HeartbeatResponse result \<times> 'r" where
  "Heartbeat R h now req r =
     (if hbq_Token req = '''' then (Inl (Status InvalidArgument ''token is required'' None), r)
      else case resolveNodeID (dh_authClient h) (hbq_Token req) of
        Inl err \<Rightarrow> (Inl (Status Unauthenticated ''auth failed'' (Some err)), r)
      | Inr nodeID \<Rightarrow>
          (case reg_Heartbeat R (dh_registry h) now nodeID r of
             (Some err, r1) \<Rightarrow> (Inl (Status NotFound ''heartbeat failed'' (Some err)), r1)
           | (None, r1) \<Rightarrow> (Inr \<lparr>hbr_Success = True, hbr_Ttl = 30\<rparr>, r1)))"

section \<open>Lemmas\<close>

lemma split_endpoint_join:
  assumes "CHR '':'' \<notin> set ip" and "- (2 ^ 31) \<le> port" "port < 2 ^ 31"
  shows "split_endpoint (ip @ '':'' @ itoa port) = (ip, port)"
proof -
  have "split_on (CHR '':'') (ip @ '':'' @ itoa port) = [ip, itoa port]"
    using assms(1) by (simp add: split_on_append split_on_plain)
  moreover have "Atoi (itoa port) = Some port" using assms by (intro Atoi_itoa) simp_all
  ultimately show ?thesis using assms by (simp add: split_endpoint_def int32_id)
qed

lemma split_endpoint_colon:
  assumes "CHR '':'' \<in> set ip"
  shows "split_endpoint (ip @ '':'' @ itoa port) = ('''', 0)"
proof -
  have "count_list ip (CHR '':'') \<noteq> 0" using assms by (simp add: count_list_0_iff)
  then have "length (split_on (CHR '':'') (ip @ '':'' @ itoa port)) \<noteq> 2"
    by (simp add: length_split_on)
  then show ?thesis by (simp add: split_endpoint_def)
qed

lemma proto_peer_of_request:
  "proto_peer (stamped t (peer_of_request n req)) =
     \<lparr>pp_NodeId = n, pp_IpAddress = fst (split_endpoint (rpq_IpAddress req @ '':'' @ itoa (rpq_Port req))),
      pp_Port = snd (split_endpoint (rpq_IpAddress req @ '':'' @ itoa (rpq_Port req))), pp_Region = ''1.0.0'',
      pp_Bandwidth = 0, pp_LastSeen = unix t, pp_PeerId = rpq_PeerId req, pp_P2PAddrs = rpq_P2PAddrs req,
      pp_IsExitNode = rpq_IsExitNode req\<rparr>"
  by (simp add: proto_peer_def stamped_def peer_of_request_def split: prod.splits)

lemma register_then_list:
  assumes laws: "redis_laws R live mem up" and up: "up r" and rel: "reg_rel live mem t L r"
    and ttl: "0 < reg_ttl (dh_registry h)"
    and req: "rpq_Token req \<noteq> ''''" "rpq_IpAddress req \<noteq> ''''" "resolveNodeID (dh_authClient h) (rpq_Token req) = Inr n"
      "peer_ok (stamped t (peer_of_request n req))" "- (2 ^ 31) \<le> rpq_Port req" "rpq_Port req < 2 ^ 31"
    and ctx: "tokenFromMetadata ctx \<noteq> ''''" "resolveNodeID (dh_authClient h) (tokenFromMetadata ctx) = Inr m"
    and later: "t \<le> u" "u < t + reg_ttl (dh_registry h)"
  shows "\<exists>r1 resp r2 ms. RegisterPeer R h t req r = (Inr \<lparr>rpr_Success = True, rpr_Message = ''peer registered''\<rparr>, r1)
    \<and> ListPeers R h u ctx \<lparr>lpq_Region = region, lpq_Limit = 0\<rparr> r1 = (Inr resp, r2, ms)
    \<and> \<lparr>pp_NodeId = n, pp_IpAddress = if CHR '':'' \<in> set (rpq_IpAddress req) then '''' else rpq_IpAddress req,
       pp_Port = if CHR '':'' \<in> set (rpq_IpAddress req) then 0 else rpq_Port req, pp_Region = ''1.0.0'',
       pp_Bandwidth = 0, pp_LastSeen = unix t, pp_PeerId = rpq_PeerId req, pp_P2PAddrs = rpq_P2PAddrs req,
       pp_IsExitNode = rpq_IsExitNode req\<rparr> \<in> set (lpr_Peers resp)"
proof -
  let ?p = "peer_of_request n req" and ?g = "dh_registry h"
  obtain x r1 where reg: "reg_Register R ?g t ?p r = (x, r1)" by fastforce
  have node: "NodeID ?p = n" by (simp add: peer_of_request_def)
  from redis_laws.reg_Register_rel [OF laws rel up ttl req(4) reg]
  have x: "x = None" "up r1" and rel1: "reg_rel live mem t (L(n \<mapsto> (stamped t ?p, t + reg_ttl ?g))) r1"
    by (simp_all add: node)
  obtain res r2 ms where l: "ListOnlinePeers R u r1 = (res, r2, ms)" using prod_cases3 by blast
  obtain ps where ps: "res = Inr ps" "set ps = ran (lease_at u (L(n \<mapsto> (stamped t ?p, t + reg_ttl ?g))))"
    using redis_laws.reg_List_rel [OF laws reg_rel_mono [OF rel1 later(1)] x(2) l] by metis
  have "stamped t ?p \<in> set ps" unfolding ps(2) lease_at_upd using later(2) by (auto simp: ran_def)
  then have "proto_peer (stamped t ?p) \<in> set (map proto_peer ps)" by simp
  moreover have "split_endpoint (rpq_IpAddress req @ '':'' @ itoa (rpq_Port req)) =
      (if CHR '':'' \<in> set (rpq_IpAddress req) then ('''', 0) else (rpq_IpAddress req, rpq_Port req))"
    using split_endpoint_colon [of "rpq_IpAddress req"] split_endpoint_join [of "rpq_IpAddress req" "rpq_Port req"] req(5,6)
    by simp
  ultimately show ?thesis
    using reg x(1) l ps(1) req ctx by (auto simp: RegisterPeer_def ListPeers_def apply_limit_def Let_def proto_peer_of_request)
qed

section \<open>Properties\<close>


abbreviation demo_dsc :: DiscoveryHandler where
  "demo_dsc \<equiv> NewDiscoveryHandler \<lparr>reg_ttl = 30 * time_Second\<rparr> None"

abbreviation demo_ctx :: rpc_context where
  "demo_ctx \<equiv> \<lparr>ctx_metadata = Some (\<lambda>k. [''Bearer 12345678'']), ctx_value = Map.empty\<rparr>"

abbreviation demo_req :: RegisterPeerRequest where
  "demo_req \<equiv> \<lparr>rpq_Token = ''abcdefgh'', rpq_IpAddress = ''1.2.3.4'', rpq_Port = 51820, rpq_Region = '''',
     rpq_Bandwidth = 0, rpq_PeerId = '''', rpq_P2PAddrs = [], rpq_IsExitNode = True\<rparr>"


text \<open>No request without an accepted token reaches the registry: \<open>RegisterPeer\<close>, \<open>ListPeers\<close>
  and \<open>Heartbeat\<close> answer it with the code \<open>InvalidArgument\<close> or \<open>Unauthenticated\<close> and send
  nothing to Redis.\<close>

theorem dsc_unauthenticated_no_effect:
  assumes "\<And>n. resolveNodeID (dh_authClient h) tok \<noteq> Inr n"
  shows "(rpq_Token preq = tok \<longrightarrow> (\<exists>e. RegisterPeer R h now preq r = (Inl e, r)
            \<and> status_code e \<in> {Some InvalidArgument, Some Unauthenticated}))
    \<and> (tokenFromMetadata ctx = tok \<longrightarrow> (\<exists>e. ListPeers R h now ctx lreq r = (Inl e, r, [])
            \<and> status_code e \<in> {Some InvalidArgument, Some Unauthenticated}))
    \<and> (hbq_Token hreq = tok \<longrightarrow> (\<exists>e. Heartbeat R h now hreq r = (Inl e, r)
            \<and> status_code e \<in> {Some InvalidArgument, Some Unauthenticated}))"
proof -
  from assms obtain err where "resolveNodeID (dh_authClient h) tok = Inl err"
    by (cases "resolveNodeID (dh_authClient h) tok") auto
  then show ?thesis
    by (intro conjI impI) (auto simp: RegisterPeer_def ListPeers_def Heartbeat_def Let_def)
qed

theorem dsc_unauthenticated_no_effect_witness:
  "\<exists>e. Heartbeat mem_redis demo_dsc 0 \<lparr>hbq_Token = ''short'', hbq_Bandwidth = 0\<rparr> db_empty = (Inl e, db_empty)
    \<and> status_code e \<in> {Some InvalidArgument, Some Unauthenticated}"
  by (rule dsc_unauthenticated_no_effect [THEN conjunct2, THEN conjunct2, THEN mp])
    (simp_all add: resolveNodeID_def NewDiscoveryHandler_def)

end
