(* ===== verification/Identity.thy ===== *)
theory Identity
  imports Json Proto
begin

text \<open>
  The identity service: the PostgreSQL tables of \<open>src/services/identity/migrations\<close> and the
  queries of \<open>src/services/identity/internal/storage\<close>, the service logic of
  \<open>src/services/identity/internal/service/identity.go\<close>, the gRPC handler and the configuration
  file. The tables are lists of rows; a query takes the clock, the ids the database generates and
  a fault as arguments. UUIDs are their canonical text. The JWT library is a parameter with the
  law that a signed token with a future expiry is accepted with its claims.
\<close>

section \<open>Tables and queries\<close>

record Node =
  n_ID :: string
  n_PublicKey :: string
  n_Version :: string
  n_PeerID :: "string option"
  n_CreatedAt :: instant
  n_UpdatedAt :: instant

record Token =
  t_ID :: string
  t_Token :: string
  t_NodeID :: string
  t_ExpiresAt :: instant
  t_CreatedAt :: instant

record identity_db =
  db_nodes :: "Node list"
  db_tokens :: "Token list"

text \<open>A query may fail: before it has an effect or, with its reply lost, after it.\<close>

datatype fault = NoFault | FailBefore go_error | FailAfter go_error

definition run_query :: "fault \<Rightarrow> ('s \<Rightarrow> 'a result \<times> 's) \<Rightarrow> 's \<Rightarrow> 'a result \<times> 's" where
  "run_query f q s =
     (case f of
        NoFault \<Rightarrow> q s
      | FailBefore e \<Rightarrow> (Inl e, s)
      | FailAfter e \<Rightarrow> (Inl e, snd (q s)))"

definition pg_error :: "string \<Rightarrow> go_error" where
  "pg_error m = Plain (''pq: '' @ m)"

definition no_rows :: go_error where
  "no_rows = Plain ''sql: no rows in result set''"

text \<open>A text value is valid UTF-8 without the NUL byte.\<close>

definition pg_text :: "string \<Rightarrow> bool" where
  "pg_text s \<longleftrightarrow> utf8_valid s \<and> (\<forall>c \<in> set s. byte_of c \<noteq> 0)"

text \<open>\<open>INSERT \<dots> ON CONFLICT (public_key) DO UPDATE \<dots> RETURNING\<close>.\<close>

definition upsert_node ::
  "string \<Rightarrow> instant \<Rightarrow> string \<Rightarrow> string \<Rightarrow> string option \<Rightarrow> identity_db \<Rightarrow> Node result \<times> identity_db" where
  "upsert_node newID now publicKey version peerID d =
     (if \<not> (pg_text publicKey \<and> pg_text version \<and> pg_text (case peerID of None \<Rightarrow> '''' | Some p \<Rightarrow> p))
      then (Inl (pg_error ''invalid byte sequence''), d)
      else case find (\<lambda>n. n_PublicKey n = publicKey) (db_nodes d) of
        Some n \<Rightarrow>
          let n' = n\<lparr>n_Version := version, n_PeerID := peerID, n_UpdatedAt := now\<rparr> in
          (Inr n', d\<lparr>db_nodes := map (\<lambda>m. if n_PublicKey m = publicKey then n' else m) (db_nodes d)\<rparr>)
      | None \<Rightarrow>
          if newID \<in> n_ID ` set (db_nodes d) then (Inl (pg_error ''duplicate key value: nodes_pkey''), d)
          else let n = \<lparr>n_ID = newID, n_PublicKey = publicKey, n_Version = version, n_PeerID = peerID,
                        n_CreatedAt = now, n_UpdatedAt = now\<rparr>
               in (Inr n, d\<lparr>db_nodes := db_nodes d @ [n]\<rparr>))"

definition CreateNode ::
  "fault \<Rightarrow> string \<Rightarrow> instant \<Rightarrow> string \<Rightarrow> string \<Rightarrow> string \<Rightarrow> identity_db \<Rightarrow> Node result \<times> identity_db" where
  "CreateNode f newID now publicKey version peerID d =
     (let pID = (if peerID \<noteq> '''' then Some peerID else None) in
      case run_query f (upsert_node newID now publicKey version pID) d of
        (Inl err, d') \<Rightarrow> (Inl (Wrapped ''failed to create/update node'' err), d')
      | (Inr node, d') \<Rightarrow> (Inr node, d'))"

text \<open>\<open>SELECT * FROM nodes WHERE id = $1\<close>: \<open>to_uuid\<close> is the database's reading of a text as a
  UUID, in canonical form.\<close>

definition GetNodeByID ::
  "fault \<Rightarrow> (string \<Rightarrow> string option) \<Rightarrow> string \<Rightarrow> identity_db \<Rightarrow> Node result" where
  "GetNodeByID f to_uuid i d =
     (case fst (run_query f (\<lambda>d. (case to_uuid i of
                  None \<Rightarrow> Inl (pg_error ''invalid input syntax for type uuid'')
                | Some u \<Rightarrow>
                    (case find (\<lambda>n. n_ID n = u) (db_nodes d) of None \<Rightarrow> Inl no_rows | Some n \<Rightarrow> Inr n), d)) d) of
        Inl err \<Rightarrow> Inl (Wrapped ''failed to get node'' err)
      | Inr n \<Rightarrow> Inr n)"

definition GetNodeByPublicKey :: "fault \<Rightarrow> string \<Rightarrow> identity_db \<Rightarrow> Node result" where
  "GetNodeByPublicKey f publicKey d =
     (case fst (run_query f (\<lambda>d. (case find (\<lambda>n. n_PublicKey n = publicKey) (db_nodes d) of
                  None \<Rightarrow> Inl no_rows | Some n \<Rightarrow> Inr n, d)) d) of
        Inl err \<Rightarrow> Inl (Wrapped ''failed to get node'' err)
      | Inr n \<Rightarrow> Inr n)"

text \<open>\<open>INSERT INTO tokens\<close>, with the primary key, the unique token and the reference to the
  node.\<close>

definition insert_token ::
  "string \<Rightarrow> instant \<Rightarrow> string \<Rightarrow> string \<Rightarrow> instant \<Rightarrow> identity_db \<Rightarrow> Token result \<times> identity_db" where
  "insert_token newID now tok nodeID expiresAt d =
     (if \<not> pg_text tok then (Inl (pg_error ''invalid byte sequence''), d)
      else if newID \<in> t_ID ` set (db_tokens d) then (Inl (pg_error ''duplicate key value: tokens_pkey''), d)
      else if tok \<in> t_Token ` set (db_tokens d) then (Inl (pg_error ''duplicate key value: tokens_token_key''), d)
      else if nodeID \<notin> n_ID ` set (db_nodes d) then (Inl (pg_error ''foreign key: tokens_node_id_fkey''), d)
      else let t = \<lparr>t_ID = newID, t_Token = tok, t_NodeID = nodeID, t_ExpiresAt = expiresAt, t_CreatedAt = now\<rparr>
           in (Inr t, d\<lparr>db_tokens := db_tokens d @ [t]\<rparr>))"

definition CreateToken ::
  "fault \<Rightarrow> string \<Rightarrow> instant \<Rightarrow> string \<Rightarrow> string \<Rightarrow> instant \<Rightarrow> identity_db \<Rightarrow> go_error option \<times> identity_db" where
  "CreateToken f newID now tok nodeID expiresAt d =
     (case run_query f (insert_token newID now tok nodeID expiresAt) d of
        (Inl err, d') \<Rightarrow> (Some (Wrapped ''failed to create token'' err), d')
      | (Inr _, d') \<Rightarrow> (None, d'))"

definition GetTokenByValue :: "fault \<Rightarrow> string \<Rightarrow> identity_db \<Rightarrow> Token result" where
  "GetTokenByValue f tokenValue d =
     (case fst (run_query f (\<lambda>d. (case find (\<lambda>t. t_Token t = tokenValue) (db_tokens d) of
                  None \<Rightarrow> Inl no_rows | Some t \<Rightarrow> Inr t, d)) d) of
        Inl err \<Rightarrow> Inl (Wrapped ''failed to get token'' err)
      | Inr t \<Rightarrow> Inr t)"

definition DeleteExpiredTokens :: "fault \<Rightarrow> instant \<Rightarrow> identity_db \<Rightarrow> go_error option \<times> identity_db" where
  "DeleteExpiredTokens f now d =
     (case run_query f (\<lambda>d. (Inr (), d\<lparr>db_tokens := filter (\<lambda>t. \<not> t_ExpiresAt t < now) (db_tokens d)\<rparr>)) d of
        (Inl err, d') \<Rightarrow> (Some (Wrapped ''failed to delete expired tokens'' err), d')
      | (Inr _, d') \<Rightarrow> (None, d'))"

text \<open>The timing wrapper around a database operation, with the times before and after it.\<close>

definition recordDBMetrics ::
  "string \<Rightarrow> instant \<Rightarrow> instant \<Rightarrow> ('s \<Rightarrow> 'a result \<times> 's) \<Rightarrow> 's \<Rightarrow> 'a result \<times> 's \<times> metric_call list" where
  "recordDBMetrics operation start stop fn s =
     (case fn s of
        (x, s') \<Rightarrow>
          let status = (case x of Inl _ \<Rightarrow> ''error'' | Inr _ \<Rightarrow> ''success'') in
          (x, s', [Inc ''gordion_db_queries_total'' [''identity'', operation, status],
                   Observe ''gordion_db_query_duration_seconds'' [''identity'', operation] (stop - start)]))"

definition CreateNodeWithMetrics ::
  "fault \<Rightarrow> string \<Rightarrow> instant \<Rightarrow> instant \<Rightarrow> instant \<Rightarrow> string \<Rightarrow> string \<Rightarrow> string \<Rightarrow> identity_db
    \<Rightarrow> Node result \<times> identity_db \<times> metric_call list" where
  "CreateNodeWithMetrics f newID now start stop publicKey version peerID =
     recordDBMetrics ''create_node'' start stop (CreateNode f newID now publicKey version peerID)"

section \<open>Tokens\<close>

text \<open>The claims of a token, and the JWT library: \<open>jwt_sign\<close> is HS256 with a secret,
  \<open>jwt_parse\<close> checks a token at a time, asking the given function for the key; its arguments
  are whether the token's method is an HMAC, and the method's name.\<close>

datatype claim = CStr string | CNum int | COther

record jwt_token =
  j_Claims :: "string \<rightharpoonup> claim"
  j_Valid :: bool

record jwt_lib =
  jwt_sign :: "string \<Rightarrow> (string \<rightharpoonup> claim) \<Rightarrow> string result"
  jwt_parse :: "instant \<Rightarrow> (bool \<Rightarrow> string \<Rightarrow> string result) \<Rightarrow> string \<Rightarrow> jwt_token result"

record IdentityService =
  s_jwtSecret :: string
  s_networkSecret :: string
  s_tokenTTL :: duration

definition ids_New :: "string \<Rightarrow> string \<Rightarrow> int \<Rightarrow> IdentityService" where
  "ids_New jwtSecret networkSecret tokenDurationHours =
     \<lparr>s_jwtSecret = jwtSecret, s_networkSecret = networkSecret,
      s_tokenTTL = int64 (tokenDurationHours * time_Hour)\<rparr>"

text \<open>\<open>generateToken\<close> reads the clock twice.\<close>

definition generateToken ::
  "jwt_lib \<Rightarrow> IdentityService \<Rightarrow> instant \<Rightarrow> instant \<Rightarrow> string \<Rightarrow> (string \<times> int) result" where
  "generateToken J s now1 now2 nodeID =
     (let expiresAt = unix (now1 + s_tokenTTL s);
          claims = [''node_id'' \<mapsto> CStr nodeID, ''exp'' \<mapsto> CNum expiresAt, ''iat'' \<mapsto> CNum (unix now2)] in
      case jwt_sign J (s_jwtSecret s) claims of
        Inl err \<Rightarrow> Inl (Wrapped ''failed to sign token'' err)
      | Inr tokenString \<Rightarrow> Inr (tokenString, expiresAt))"

text \<open>What a registration draws from its surroundings: the faults of its two queries, the ids the
  database would generate, and the clock.\<close>

record reg_env =
  e_fault1 :: fault
  e_fault2 :: fault
  e_nodeID :: string
  e_tokenID :: string
  e_now :: instant

definition RegisterNode ::
  "jwt_lib \<Rightarrow> IdentityService \<Rightarrow> reg_env \<Rightarrow> string \<Rightarrow> string \<Rightarrow> string \<Rightarrow> string \<Rightarrow> identity_db
    \<Rightarrow> (string \<times> string \<times> int) result \<times> identity_db \<times> metric_call list" where
  "RegisterNode J s e publicKey version peerID reqSecret d =
     (if s_networkSecret s \<noteq> '''' \<and> reqSecret \<noteq> s_networkSecret s then
        (Inl (Plain ''invalid network secret''), d, [Inc ''gordion_auth_failures_total'' [''invalid_network_secret'']])
      else case CreateNode (e_fault1 e) (e_nodeID e) (e_now e) publicKey version peerID d of
        (Inl err, d1) \<Rightarrow> (Inl (Wrapped ''failed to create node'' err), d1, [])
      | (Inr node, d1) \<Rightarrow>
          (case generateToken J s (e_now e) (e_now e) (n_ID node) of
             Inl err \<Rightarrow> (Inl (Wrapped ''failed to generate token'' err), d1, [])
           | Inr (tokenString, exp) \<Rightarrow>
               (case CreateToken (e_fault2 e) (e_tokenID e) (e_now e) tokenString (n_ID node) (from_unix exp) d1 of
                  (Some err, d2) \<Rightarrow> (Inl (Wrapped ''failed to create token'' err), d2, [])
                | (None, d2) \<Rightarrow>
                    (Inr (n_ID node, tokenString, exp), d2, [Inc ''gordion_jwt_tokens_issued_total'' []]))))"

definition key_func :: "IdentityService \<Rightarrow> bool \<Rightarrow> string \<Rightarrow> string result" where
  "key_func s is_hmac alg =
     (if \<not> is_hmac then Inl (Plain (''unexpected signing method: '' @ alg)) else Inr (s_jwtSecret s))"

definition auth_failure :: "string \<Rightarrow> metric_call list" where
  "auth_failure reason = [Inc ''gordion_auth_failures_total'' [reason]]"

text \<open>The result is the node, whether the token is valid, or an error.\<close>

definition ids_ValidateToken ::
  "jwt_lib \<Rightarrow> IdentityService \<Rightarrow> fault \<Rightarrow> instant \<Rightarrow> string \<Rightarrow> identity_db
    \<Rightarrow> (string \<times> bool) result \<times> metric_call list" where
  "ids_ValidateToken J s f now tokenString d =
     (case jwt_parse J now (key_func s) tokenString of
        Inl _ \<Rightarrow> (Inr ('''', False), auth_failure ''invalid_token'')
      | Inr token \<Rightarrow>
          if \<not> j_Valid token then (Inr ('''', False), auth_failure ''invalid_token'')
          else case j_Claims token ''node_id'' of
            Some (CStr nodeIDStr) \<Rightarrow>
              (case GetTokenByValue f tokenString d of
                 Inl _ \<Rightarrow> (Inr ('''', False), auth_failure ''token_not_found'')
               | Inr tokenRecord \<Rightarrow>
                   if now > t_ExpiresAt tokenRecord then (Inr ('''', False), auth_failure ''expired_token'')
                   else (Inr (nodeIDStr, True), []))
          | _ \<Rightarrow> (Inl (Plain ''node_id not found in token''), []))"

definition ids_GetPublicKey ::
  "fault \<Rightarrow> (string \<Rightarrow> string option) \<Rightarrow> string \<Rightarrow> identity_db \<Rightarrow> string result" where
  "ids_GetPublicKey f to_uuid nodeID d =
     (case GetNodeByID f to_uuid nodeID d of
        Inl err \<Rightarrow> Inl (Wrapped ''node not found'' err)
      | Inr node \<Rightarrow> Inr (n_PublicKey node))"

definition CleanupExpiredTokens :: "fault \<Rightarrow> instant \<Rightarrow> identity_db \<Rightarrow> go_error option \<times> identity_db" where
  "CleanupExpiredTokens f now d = DeleteExpiredTokens f now d"

section \<open>The handler\<close>

definition idh_RegisterNode ::
  "jwt_lib \<Rightarrow> IdentityService \<Rightarrow> reg_env \<Rightarrow> RegisterNodeRequest \<Rightarrow> identity_db
    \<Rightarrow> RegisterNodeResponse result \<times> identity_db \<times> metric_call list" where
  "idh_RegisterNode J s e req d =
     (if rnq_PublicKey req = '''' then (Inl (Status InvalidArgument ''public_key is required'' None), d, [])
      else if rnq_Version req = '''' then (Inl (Status InvalidArgument ''version is required'' None), d, [])
      else case RegisterNode J s e (rnq_PublicKey req) (rnq_Version req) (rnq_PeerId req) (rnq_NetworkSecret req) d of
        (Inl err, d', ms) \<Rightarrow> (Inl (Status Internal ''failed to register node'' (Some err)), d', ms)
      | (Inr (nodeID, token, expiresAt), d', ms) \<Rightarrow>
          (Inr \<lparr>rnr_NodeId = nodeID, rnr_Token = token, rnr_ExpiresAt = expiresAt\<rparr>, d', ms))"

definition idh_ValidateToken ::
  "jwt_lib \<Rightarrow> IdentityService \<Rightarrow> fault \<Rightarrow> instant \<Rightarrow> ValidateTokenRequest \<Rightarrow> identity_db
    \<Rightarrow> ValidateTokenResponse result \<times> metric_call list" where
  "idh_ValidateToken J s f now req d =
     (if vtq_Token req = '''' then (Inl (Status InvalidArgument ''token is required'' None), [])
      else case ids_ValidateToken J s f now (vtq_Token req) d of
        (Inl err, ms) \<Rightarrow> (Inl (Status Internal ''failed to validate token'' (Some err)), ms)
      | (Inr (nodeID, valid), ms) \<Rightarrow> (Inr \<lparr>vtr_Valid = valid, vtr_NodeId = nodeID\<rparr>, ms))"

definition idh_GetPublicKey ::
  "fault \<Rightarrow> (string \<Rightarrow> string option) \<Rightarrow> GetPublicKeyRequest \<Rightarrow> identity_db \<Rightarrow> GetPublicKeyResponse result" where
  "idh_GetPublicKey f to_uuid req d =
     (if gpq_NodeId req = '''' then Inl (Status InvalidArgument ''node_id is required'' None)
      else case ids_GetPublicKey f to_uuid (gpq_NodeId req) d of
        Inl err \<Rightarrow> Inl (Status NotFound ''node not found'' (Some err))
      | Inr publicKey \<Rightarrow> Inr \<lparr>gpr_PublicKey = publicKey\<rparr>)"

section \<open>The configuration file\<close>

record ids_Config =
  ic_GRPCPort :: int
  ic_DatabaseURL :: string
  ic_LogLevel :: string
  ic_JWTSecret :: string
  ic_TokenDuration :: int
  ic_NetworkSecret :: string

definition ids_Validate :: "ids_Config \<Rightarrow> ids_Config result" where
  "ids_Validate c =
     (if ic_GRPCPort c = 0 then Inl (Plain ''grpc_port is required'')
      else if ic_DatabaseURL c = '''' then Inl (Plain ''database_url is required'')
      else if ic_JWTSecret c = '''' then Inl (Plain ''jwt_secret is required'')
      else Inr (if ic_TokenDuration c = 0 then c\<lparr>ic_TokenDuration := 24\<rparr> else c))"

definition ids_Load :: "string result \<Rightarrow> (string \<Rightarrow> ids_Config result) \<Rightarrow> ids_Config result" where
  "ids_Load file unmarshal =
     (case file of
        Inl err \<Rightarrow> Inl (Wrapped ''failed to read config file'' err)
      | Inr text \<Rightarrow>
          (case unmarshal text of
             Inl err \<Rightarrow> Inl (Wrapped ''failed to parse config'' err)
           | Inr cfg \<Rightarrow>
               (case ids_Validate cfg of
                  Inl err \<Rightarrow> Inl (Wrapped ''invalid config'' err)
                | Inr cfg \<Rightarrow> Inr cfg)))"

definition ids_LoadFromEnv ::
  "string result \<Rightarrow> (string \<Rightarrow> ids_Config result) \<Rightarrow> (string \<Rightarrow> string) \<Rightarrow> ids_Config result" where
  "ids_LoadFromEnv file unmarshal getenv =
     (case ids_Load file unmarshal of
        Inl err \<Rightarrow> Inl err
      | Inr c \<Rightarrow>
          let c = (if getenv ''DATABASE_URL'' \<noteq> '''' then c\<lparr>ic_DatabaseURL := getenv ''DATABASE_URL''\<rparr> else c);
              c = (if getenv ''JWT_SECRET'' \<noteq> '''' then c\<lparr>ic_JWTSecret := getenv ''JWT_SECRET''\<rparr> else c);
              c = (if getenv ''NETWORK_SECRET'' \<noteq> '''' then c\<lparr>ic_NetworkSecret := getenv ''NETWORK_SECRET''\<rparr> else c)
          in Inr c)"

section \<open>The tables' constraints\<close>

text \<open>The declared constraints: unique ids and public keys, unique token ids and values, and every
  token refers to a node.\<close>

definition db_ok :: "identity_db \<Rightarrow> bool" where
  "db_ok d \<longleftrightarrow> distinct (map n_ID (db_nodes d)) \<and> distinct (map n_PublicKey (db_nodes d))
     \<and> distinct (map t_ID (db_tokens d)) \<and> distinct (map t_Token (db_tokens d))
     \<and> t_NodeID ` set (db_tokens d) \<subseteq> n_ID ` set (db_nodes d)"

lemma run_query_keeps:
  assumes "P s" "P (snd (q s))"
  shows "P (snd (run_query f q s))"
  using assms by (cases f) (auto simp: run_query_def)

text \<open>The update of a node keeps its id, its key and its place.\<close>

definition same_nodes :: "identity_db \<Rightarrow> identity_db \<Rightarrow> bool" where
  "same_nodes d d' \<longleftrightarrow> map n_ID (db_nodes d') = map n_ID (db_nodes d)
     \<and> map n_PublicKey (db_nodes d') = map n_PublicKey (db_nodes d)"

lemma find_node:
  "find (\<lambda>n. n_PublicKey n = k) ns = Some n \<Longrightarrow> n \<in> set ns \<and> n_PublicKey n = k"
  by (metis (mono_tags, lifting) find_Some_iff nth_mem)

lemma upsert_map_ids:
  assumes "distinct (map n_PublicKey ns)" "n \<in> set ns" "n_PublicKey n = k"
    "n_ID n' = n_ID n" "n_PublicKey n' = k"
  shows "map n_ID (map (\<lambda>m. if n_PublicKey m = k then n' else m) ns) = map n_ID ns"
    and "map n_PublicKey (map (\<lambda>m. if n_PublicKey m = k then n' else m) ns) = map n_PublicKey ns"
proof -
  have "inj_on n_PublicKey (set ns)" using assms(1) by (simp add: distinct_map)
  then have one: "m = n" if "m \<in> set ns" "n_PublicKey m = k" for m
    using assms(2,3) that by (auto dest: inj_onD)
  have "n_ID (if n_PublicKey m = k then n' else m) = n_ID m"
    "n_PublicKey (if n_PublicKey m = k then n' else m) = n_PublicKey m" if "m \<in> set ns" for m
    using one [OF that] assms(4,5) by auto
  then show "map n_ID (map (\<lambda>m. if n_PublicKey m = k then n' else m) ns) = map n_ID ns"
    "map n_PublicKey (map (\<lambda>m. if n_PublicKey m = k then n' else m) ns) = map n_PublicKey ns"
    by simp_all
qed

text \<open>What a successful upsert does: an existing key keeps its id, a new one gets the new id.\<close>

lemma upsert_node_cases:
  assumes "upsert_node i now k v pid d = (res, d')" and ok: "db_ok d"
  obtains (failed) e where "res = Inl e" "d' = d"
  | (updated) n n' where "res = Inr n'" "n \<in> set (db_nodes d)" "n_PublicKey n = k" "n_ID n' = n_ID n"
      "n_PublicKey n' = k" "n' \<in> set (db_nodes d')" "same_nodes d d'" "db_tokens d' = db_tokens d"
  | (inserted) n where "res = Inr n" "n_ID n = i" "n_PublicKey n = k" "k \<notin> n_PublicKey ` set (db_nodes d)"
      "i \<notin> n_ID ` set (db_nodes d)" "db_nodes d' = db_nodes d @ [n]" "db_tokens d' = db_tokens d"
proof (cases "find (\<lambda>n. n_PublicKey n = k) (db_nodes d)")
  case None
  then have "k \<notin> n_PublicKey ` set (db_nodes d)" by (auto simp: find_None_iff)
  with None assms(1) show thesis
    by (auto simp: upsert_node_def Let_def split: if_splits intro: failed inserted)
next
  case (Some n)
  note n = find_node [OF Some]
  let ?n' = "n\<lparr>n_Version := v, n_PeerID := pid, n_UpdatedAt := now\<rparr>"
  from ok have "distinct (map n_PublicKey (db_nodes d))" by (simp add: db_ok_def)
  note ids = upsert_map_ids [OF this, of n k ?n']
  show thesis
  proof (cases "res")
    case (Inl e)
    with Some assms(1) have "d' = d" by (auto simp: upsert_node_def Let_def split: if_splits)
    with Inl show thesis by (rule failed)
  next
    case (Inr m)
    with Some assms(1) have m: "m = ?n'"
      and d': "d' = d\<lparr>db_nodes := map (\<lambda>x. if n_PublicKey x = k then ?n' else x) (db_nodes d)\<rparr>"
      by (auto simp: upsert_node_def Let_def split: if_splits)
    have "?n' \<in> set (db_nodes d')" using n by (force simp: d')
    with Inr m n ids d' show thesis by (intro updated [of m n]) (simp_all add: same_nodes_def)
  qed
qed

lemma same_nodes_ok: "same_nodes d d' \<Longrightarrow> db_tokens d' = db_tokens d \<Longrightarrow> db_ok d \<Longrightarrow> db_ok d'"
  unfolding same_nodes_def db_ok_def by (metis list.set_map)

lemma upsert_node_ok: "db_ok d \<Longrightarrow> db_ok (snd (upsert_node i now k v pid d))"
proof (cases "upsert_node i now k v pid d")
  case (Pair res d')
  assume ok: "db_ok d"
  from Pair ok show ?thesis
  proof (cases rule: upsert_node_cases)
    case (inserted n)
    with Pair ok show ?thesis by (auto simp: db_ok_def)
  qed (use Pair ok in \<open>auto intro: same_nodes_ok\<close>)
qed

lemma insert_token_ok: "db_ok d \<Longrightarrow> db_ok (snd (insert_token i now tok nid ex d))"
  by (auto simp: insert_token_def Let_def db_ok_def)

lemma CreateNode_db: "snd (CreateNode f i now k v p d) = snd (run_query f (upsert_node i now k v (if p \<noteq> '''' then Some p else None)) d)"
  by (auto simp: CreateNode_def Let_def split: prod.splits sum.splits)

lemma CreateToken_db: "snd (CreateToken f i now tok nid ex d) = snd (run_query f (insert_token i now tok nid ex) d)"
  by (auto simp: CreateToken_def split: prod.splits sum.splits)

lemma DeleteExpiredTokens_db:
  "snd (DeleteExpiredTokens f now d) = snd (run_query f (\<lambda>d. (Inr (), d\<lparr>db_tokens := filter (\<lambda>t. \<not> t_ExpiresAt t < now) (db_tokens d)\<rparr>)) d)"
  by (auto simp: DeleteExpiredTokens_def split: prod.splits sum.splits)

lemma CreateNode_keeps_ok: "db_ok d \<Longrightarrow> db_ok (snd (CreateNode f i now k v p d))"
  unfolding CreateNode_db by (rule run_query_keeps) (simp_all add: upsert_node_ok)

lemma CreateToken_keeps_ok: "db_ok d \<Longrightarrow> db_ok (snd (CreateToken f i now tok nid ex d))"
  unfolding CreateToken_db by (rule run_query_keeps) (simp_all add: insert_token_ok)

lemma DeleteExpiredTokens_keeps_ok: "db_ok d \<Longrightarrow> db_ok (snd (DeleteExpiredTokens f now d))"
  unfolding DeleteExpiredTokens_db
  by (rule run_query_keeps) (auto simp: db_ok_def distinct_map_filter)

text \<open>The state after a registration, whatever its result.\<close>

lemma RegisterNode_db:
  assumes "RegisterNode J s e k v p sec d = (res, d', ms)"
  obtains (refused) "d' = d" "\<exists>er. res = Inl er"
  | (node_only) er where "res = Inl er" "d' = snd (CreateNode (e_fault1 e) (e_nodeID e) (e_now e) k v p d)"
  | (token) node d1 tok ex where "CreateNode (e_fault1 e) (e_nodeID e) (e_now e) k v p d = (Inr node, d1)"
      "generateToken J s (e_now e) (e_now e) (n_ID node) = Inr (tok, ex)"
      "d' = snd (CreateToken (e_fault2 e) (e_tokenID e) (e_now e) tok (n_ID node) (from_unix ex) d1)"
      "res = (case fst (CreateToken (e_fault2 e) (e_tokenID e) (e_now e) tok (n_ID node) (from_unix ex) d1) of
                Some er \<Rightarrow> Inl (Wrapped ''failed to create token'' er) | None \<Rightarrow> Inr (n_ID node, tok, ex))"
proof (cases "s_networkSecret s \<noteq> '''' \<and> sec \<noteq> s_networkSecret s")
  case True
  with assms show thesis by (intro refused) (auto simp: RegisterNode_def)
next
  case False
  obtain c d1 where c: "CreateNode (e_fault1 e) (e_nodeID e) (e_now e) k v p d = (c, d1)" by fastforce
  show thesis
  proof (cases c)
    case (Inl er)
    with c assms False show thesis by (intro node_only) (auto simp: RegisterNode_def)
  next
    case (Inr node)
    show thesis
    proof (cases "generateToken J s (e_now e) (e_now e) (n_ID node)")
      case (Inl er)
      with c Inr assms False show thesis by (intro node_only) (auto simp: RegisterNode_def)
    next
      case g: (Inr x)
      obtain tok ex where x: "x = (tok, ex)" by fastforce
      obtain y d2 where y: "CreateToken (e_fault2 e) (e_tokenID e) (e_now e) tok (n_ID node) (from_unix ex) d1 = (y, d2)"
        by fastforce
      with c Inr g x assms False show thesis
        by (intro token [of node d1 tok ex]) (auto simp: RegisterNode_def split: option.splits)
    qed
  qed
qed

lemma RegisterNode_keeps_ok: "db_ok d \<Longrightarrow> RegisterNode J s e k v p sec d = (res, d', ms) \<Longrightarrow> db_ok d'"
proof (erule RegisterNode_db)
  fix node d1 tok ex
  assume "db_ok d" and c: "CreateNode (e_fault1 e) (e_nodeID e) (e_now e) k v p d = (Inr node, d1)"
    and "d' = snd (CreateToken (e_fault2 e) (e_tokenID e) (e_now e) tok (n_ID node) (from_unix ex) d1)"
  then show "db_ok d'" using CreateNode_keeps_ok [of d] by (metis CreateToken_keeps_ok snd_conv)
qed (auto simp: CreateNode_keeps_ok)

section \<open>The JWT library\<close>

text \<open>What the service relies on: a token signed with the key that the key function returns is
  accepted until its expiry, and an accepted token has the node it was signed with. Numbers in
  claims are exact below 2^53, strings are UTF-8.\<close>

locale jwt_laws =
  fixes J :: jwt_lib
  assumes sign_parse: "jwt_sign J k cs = Inr tok \<Longrightarrow> kf True ''HS256'' = Inr k \<Longrightarrow>
      cs ''node_id'' = Some (CStr n) \<Longrightarrow> utf8_valid n \<Longrightarrow>
      cs ''exp'' = Some (CNum ex) \<Longrightarrow> 0 \<le> ex \<Longrightarrow> ex < 2 ^ 53 \<Longrightarrow> now < from_unix ex \<Longrightarrow>
      \<exists>j. jwt_parse J now kf tok = Inr j \<and> j_Valid j"
    and sign_claims: "jwt_sign J k cs = Inr tok \<Longrightarrow> kf True ''HS256'' = Inr k \<Longrightarrow>
      cs ''node_id'' = Some (CStr n) \<Longrightarrow> utf8_valid n \<Longrightarrow>
      jwt_parse J now kf tok = Inr j \<Longrightarrow> j_Claims j ''node_id'' = Some (CStr n)"

text \<open>A library that writes key, node and expiry into the token satisfies the laws.\<close>

definition key_json :: "string \<Rightarrow> json" where
  "key_json k = JArr (map (\<lambda>c. JNum (itoa (int (byte_of c)))) k)"

definition demo_jwt :: jwt_lib where
  "demo_jwt = \<lparr>
     jwt_sign = (\<lambda>k cs.
       (case (cs ''node_id'', cs ''exp'') of
          (Some (CStr n), Some (CNum ex)) \<Rightarrow> Inr (encode (JArr [key_json k, JStr n, JNum (itoa ex)]))
        | _ \<Rightarrow> Inl (Plain ''claims''))),
     jwt_parse = (\<lambda>now kf tok.
       (case (parse_json tok, kf True ''HS256'') of
          (Some (JArr [kj, JStr n, JNum e]), Inr k) \<Rightarrow>
            (case Atoi e of
               None \<Rightarrow> Inl (Plain ''expiry'')
             | Some ex \<Rightarrow>
                 if kj \<noteq> key_json k then Inl (Plain ''signature is invalid'')
                 else if from_unix ex \<le> now then Inl (Plain ''token is expired'')
                 else Inr \<lparr>j_Claims = [''node_id'' \<mapsto> CStr n, ''exp'' \<mapsto> CNum ex], j_Valid = True\<rparr>)
        | _ \<Rightarrow> Inl (Plain ''token is malformed'')))\<rparr>"

lemma demo_jwt_sign: "jwt_sign demo_jwt k cs = Inr tok \<Longrightarrow>
  \<exists>n ex. cs ''node_id'' = Some (CStr n) \<and> cs ''exp'' = Some (CNum ex)
    \<and> tok = encode (JArr [key_json k, JStr n, JNum (itoa ex)])"
  by (auto simp: demo_jwt_def split: option.splits claim.splits)

lemma demo_jwt_decode: "utf8_valid n \<Longrightarrow> parse_json (encode (JArr [key_json k, JStr n, JNum (itoa ex)]))
   = Some (JArr [key_json k, JStr n, JNum (itoa ex)])"
  by (rule parse_json_encode) (auto simp: key_json_def)

interpretation demo_jwt_laws: jwt_laws demo_jwt
proof
  fix k cs tok n ex now and kf :: "bool \<Rightarrow> string \<Rightarrow> string result"
  assume sign: "jwt_sign demo_jwt k cs = Inr tok" and kf: "kf True ''HS256'' = Inr k"
    and n: "cs ''node_id'' = Some (CStr n)" "utf8_valid n"
  from demo_jwt_sign [OF sign] n obtain e where e: "cs ''exp'' = Some (CNum e)"
    and tok: "parse_json tok = Some (JArr [key_json k, JStr n, JNum (itoa e)])"
    using demo_jwt_decode [of n k] by auto
  show "\<exists>j. jwt_parse demo_jwt now kf tok = Inr j \<and> j_Valid j"
    if "cs ''exp'' = Some (CNum ex)" "0 \<le> ex" "ex < 2 ^ 53" "now < from_unix ex"
    using that e tok kf Atoi_itoa [of ex] by (simp add: demo_jwt_def)
  show "j_Claims j ''node_id'' = Some (CStr n)" if "jwt_parse demo_jwt now kf tok = Inr j" for j
    using that tok kf by (auto simp: demo_jwt_def split: option.splits if_splits)
qed

section \<open>Histories\<close>

datatype id_op = IRegister reg_env string string string string | ICleanup fault instant

fun id_step :: "jwt_lib \<Rightarrow> IdentityService \<Rightarrow> id_op \<Rightarrow> identity_db \<Rightarrow> identity_db" where
  "id_step J s (IRegister e k v p sec) d = fst (snd (RegisterNode J s e k v p sec d))"
| "id_step J s (ICleanup f t) d = snd (CleanupExpiredTokens f t d)"

definition id_run :: "jwt_lib \<Rightarrow> IdentityService \<Rightarrow> id_op list \<Rightarrow> identity_db \<Rightarrow> identity_db" where
  "id_run J s = fold (id_step J s)"

definition empty_tables :: identity_db where
  "empty_tables = \<lparr>db_nodes = [], db_tokens = []\<rparr>"

text \<open>Every token row holds what the service signs for its node and its expiry.\<close>

definition issued :: "jwt_lib \<Rightarrow> IdentityService \<Rightarrow> Token \<Rightarrow> bool" where
  "issued J s t \<longleftrightarrow> (\<exists>ex iat. t_ExpiresAt t = from_unix ex
     \<and> jwt_sign J (s_jwtSecret s) [''node_id'' \<mapsto> CStr (t_NodeID t), ''exp'' \<mapsto> CNum ex, ''iat'' \<mapsto> CNum iat] = Inr (t_Token t))"

definition id_inv :: "jwt_lib \<Rightarrow> IdentityService \<Rightarrow> identity_db \<Rightarrow> bool" where
  "id_inv J s d \<longleftrightarrow> db_ok d \<and> (\<forall>t \<in> set (db_tokens d). issued J s t)"

lemma CreateNode_tokens: "db_ok d \<Longrightarrow> db_tokens (snd (CreateNode f i now k v p d)) = db_tokens d"
  unfolding CreateNode_db
  by (rule run_query_keeps) (auto simp: upsert_node_def Let_def split: option.splits)

lemma CreateToken_tokens:
  "db_tokens (snd (CreateToken f i now tok nid ex d)) = db_tokens d
   \<or> db_tokens (snd (CreateToken f i now tok nid ex d)) =
       db_tokens d @ [\<lparr>t_ID = i, t_Token = tok, t_NodeID = nid, t_ExpiresAt = ex, t_CreatedAt = now\<rparr>]"
  unfolding CreateToken_db
  by (rule run_query_keeps) (auto simp: insert_token_def Let_def)

lemma generateToken_issued:
  "generateToken J s t1 t2 nid = Inr (tok, ex) \<Longrightarrow>
   issued J s \<lparr>t_ID = i, t_Token = tok, t_NodeID = nid, t_ExpiresAt = from_unix ex, t_CreatedAt = now\<rparr>"
  by (auto simp: generateToken_def issued_def Let_def split: sum.splits)

text \<open>A registration only adds tokens, and those it adds are issued.\<close>

lemma RegisterNode_tokens:
  assumes "db_ok d" and "RegisterNode J s e k v p sec d = (res, d', ms)"
  shows "set (db_tokens d) \<subseteq> set (db_tokens d') \<and> (\<forall>t \<in> set (db_tokens d') - set (db_tokens d). issued J s t)"
  using assms(2)
proof (rule RegisterNode_db)
  fix node d1 tok ex
  assume c: "CreateNode (e_fault1 e) (e_nodeID e) (e_now e) k v p d = (Inr node, d1)"
    and g: "generateToken J s (e_now e) (e_now e) (n_ID node) = Inr (tok, ex)"
    and d': "d' = snd (CreateToken (e_fault2 e) (e_tokenID e) (e_now e) tok (n_ID node) (from_unix ex) d1)"
  from c CreateNode_tokens [OF assms(1)] have "db_tokens d1 = db_tokens d" by (metis snd_conv)
  with d' CreateToken_tokens [of "e_fault2 e" "e_tokenID e" "e_now e" tok "n_ID node" "from_unix ex" d1]
    generateToken_issued [OF g]
  show ?thesis by auto
qed (simp_all add: CreateNode_tokens [OF assms(1)])

lemma id_step_inv: "id_inv J s d \<Longrightarrow> id_inv J s (id_step J s x d)"
proof (cases x)
  case (IRegister e k v p sec)
  assume inv: "id_inv J s d"
  obtain res d' ms where run: "RegisterNode J s e k v p sec d = (res, d', ms)" using prod_cases3 by blast
  with inv RegisterNode_tokens [OF _ run] RegisterNode_keeps_ok [OF _ run] IRegister show ?thesis
    by (auto simp: id_inv_def)
next
  case (ICleanup f t)
  assume inv: "id_inv J s d"
  have "set (db_tokens (snd (DeleteExpiredTokens f t d))) \<subseteq> set (db_tokens d)"
    unfolding DeleteExpiredTokens_db by (rule run_query_keeps) auto
  with inv ICleanup DeleteExpiredTokens_keeps_ok show ?thesis
    by (auto simp: id_inv_def CleanupExpiredTokens_def)
qed

lemma id_run_inv: "id_inv J s d \<Longrightarrow> id_inv J s (id_run J s xs d)"
  unfolding id_run_def by (induction xs arbitrary: d) (auto simp: id_step_inv)

lemma empty_tables_inv [simp]: "id_inv J s empty_tables"
  by (simp add: id_inv_def db_ok_def empty_tables_def)

text \<open>A row stays until a cleanup after its expiry; a node row keeps its id and key for good.\<close>

definition cleans_before :: "instant \<Rightarrow> id_op \<Rightarrow> bool" where
  "cleans_before t x \<longleftrightarrow> (case x of ICleanup f u \<Rightarrow> u \<le> t | _ \<Rightarrow> True)"

lemma id_step_keeps_token:
  assumes "id_inv J s d" "t \<in> set (db_tokens d)" "cleans_before (t_ExpiresAt t) x"
  shows "t \<in> set (db_tokens (id_step J s x d))"
proof (cases x)
  case (IRegister e k v p sec)
  obtain res d' ms where run: "RegisterNode J s e k v p sec d = (res, d', ms)" using prod_cases3 by blast
  with assms RegisterNode_tokens [OF _ run] IRegister show ?thesis by (auto simp: id_inv_def)
next
  case (ICleanup f u)
  then have "u \<le> t_ExpiresAt t" using assms(3) by (simp add: cleans_before_def)
  with assms(2) have "t \<in> set (db_tokens (snd (DeleteExpiredTokens f u d)))"
    unfolding DeleteExpiredTokens_db
    by (cases f) (simp_all add: run_query_def)
  with ICleanup show ?thesis by (simp add: CleanupExpiredTokens_def)
qed

lemma id_run_keeps_token:
  "id_inv J s d \<Longrightarrow> t \<in> set (db_tokens d) \<Longrightarrow> \<forall>x \<in> set xs. cleans_before (t_ExpiresAt t) x \<Longrightarrow>
   t \<in> set (db_tokens (id_run J s xs d))"
  unfolding id_run_def by (induction xs arbitrary: d) (auto simp: id_step_inv id_step_keeps_token)

definition node_keys :: "identity_db \<Rightarrow> (string \<times> string) set" where
  "node_keys d = (\<lambda>n. (n_ID n, n_PublicKey n)) ` set (db_nodes d)"

lemma same_nodes_keys: "same_nodes d d' \<Longrightarrow> node_keys d' = node_keys d"
proof -
  assume "same_nodes d d'"
  then have "set (zip (map n_ID (db_nodes d')) (map n_PublicKey (db_nodes d'))) =
      set (zip (map n_ID (db_nodes d)) (map n_PublicKey (db_nodes d)))" by (simp only: same_nodes_def)
  moreover have "set (zip (map n_ID ns) (map n_PublicKey ns)) = (\<lambda>n. (n_ID n, n_PublicKey n)) ` set ns" for ns
    by (induction ns) auto
  ultimately show ?thesis unfolding node_keys_def by metis
qed

lemma CreateNode_node_keys:
  assumes "db_ok d"
  shows "node_keys d \<subseteq> node_keys (snd (CreateNode f i now k v p d))"
  unfolding CreateNode_db
proof (rule run_query_keeps)
  obtain res d' where u: "upsert_node i now k v (if p \<noteq> '''' then Some p else None) d = (res, d')" by fastforce
  then have "node_keys d \<subseteq> node_keys d'"
    using assms by (cases rule: upsert_node_cases) (auto simp: same_nodes_keys, auto simp: node_keys_def)
  with u show "node_keys d \<subseteq> node_keys (snd (upsert_node i now k v (if p \<noteq> '''' then Some p else None) d))"
    by simp
qed simp

lemma CreateToken_node_keys: "node_keys (snd (CreateToken f i now tok nid ex d)) = node_keys d"
  unfolding CreateToken_db
  by (rule run_query_keeps) (auto simp: insert_token_def Let_def node_keys_def)

lemma id_step_node_keys: "db_ok d \<Longrightarrow> node_keys d \<subseteq> node_keys (id_step J s x d)"
proof (cases x)
  case (IRegister e k v p sec)
  assume ok: "db_ok d"
  obtain res d' ms where run: "RegisterNode J s e k v p sec d = (res, d', ms)" using prod_cases3 by blast
  then have "node_keys d \<subseteq> node_keys d'"
  proof (rule RegisterNode_db)
    fix node d1 tok ex
    assume c: "CreateNode (e_fault1 e) (e_nodeID e) (e_now e) k v p d = (Inr node, d1)"
      and "d' = snd (CreateToken (e_fault2 e) (e_tokenID e) (e_now e) tok (n_ID node) (from_unix ex) d1)"
    then show ?thesis using CreateNode_node_keys [OF ok] by (metis CreateToken_node_keys snd_conv)
  qed (simp_all add: CreateNode_node_keys [OF ok])
  with run IRegister show ?thesis by simp
next
  case (ICleanup f t)
  have "node_keys (snd (DeleteExpiredTokens f t d)) = node_keys d"
    unfolding DeleteExpiredTokens_db by (rule run_query_keeps) (auto simp: node_keys_def)
  with ICleanup show ?thesis by (simp add: CleanupExpiredTokens_def)
qed

lemma id_run_node_keys: "id_inv J s d \<Longrightarrow> node_keys d \<subseteq> node_keys (id_run J s xs d)"
  unfolding id_run_def
proof (induction xs arbitrary: d)
  case (Cons x xs)
  then have "node_keys d \<subseteq> node_keys (id_step J s x d)" by (intro id_step_node_keys) (simp add: id_inv_def)
  with Cons id_step_inv [OF Cons.prems, of x] show ?case by (metis fold_simps(2) order_trans)
qed simp

section \<open>Properties\<close>

text \<open>What a successful registration leaves in the tables.\<close>

lemma CreateNode_done:
  assumes "db_ok d" and "CreateNode f i now k v p d = (Inr node, d1)"
  shows "n_PublicKey node = k" and "(n_ID node, k) \<in> node_keys d1" and "db_ok d1"
    and "db_tokens d1 = db_tokens d"
proof -
  let ?q = "upsert_node i now k v (if p \<noteq> '''' then Some p else None)"
  from assms(2) have f: "f = NoFault" and q: "?q d = (Inr node, d1)"
    by (cases f; auto simp: CreateNode_def run_query_def Let_def split: prod.splits sum.splits)+
  from q assms(1) have "n_PublicKey node = k \<and> node \<in> set (db_nodes d1)"
    by (cases rule: upsert_node_cases) auto
  then have "n_PublicKey node = k \<and> (n_ID node, k) \<in> node_keys d1" by (auto simp: node_keys_def)
  then show "n_PublicKey node = k" "(n_ID node, k) \<in> node_keys d1" by simp_all
  show "db_ok d1" using upsert_node_ok [OF assms(1)] q by (metis snd_conv)
  show "db_tokens d1 = db_tokens d" using CreateNode_tokens [OF assms(1)] assms(2) by (metis snd_conv)
qed

lemma RegisterNode_done:
  assumes "db_ok d" and run: "RegisterNode J s e k v p sec d = (Inr (nid, tok, ex), d', ms)"
  obtains t where "t \<in> set (db_tokens d')" "t_Token t = tok" "t_NodeID t = nid" "t_ExpiresAt t = from_unix ex"
    "(nid, k) \<in> node_keys d'" "ex = unix (e_now e + s_tokenTTL s)"
    "jwt_sign J (s_jwtSecret s)
       [''node_id'' \<mapsto> CStr nid, ''exp'' \<mapsto> CNum ex, ''iat'' \<mapsto> CNum (unix (e_now e))] = Inr tok"
  using run
proof (rule RegisterNode_db)
  fix node d1 tok' ex'
  assume c: "CreateNode (e_fault1 e) (e_nodeID e) (e_now e) k v p d = (Inr node, d1)"
    and g: "generateToken J s (e_now e) (e_now e) (n_ID node) = Inr (tok', ex')"
    and d': "d' = snd (CreateToken (e_fault2 e) (e_tokenID e) (e_now e) tok' (n_ID node) (from_unix ex') d1)"
    and res: "Inr (nid, tok, ex) = (case fst (CreateToken (e_fault2 e) (e_tokenID e) (e_now e) tok' (n_ID node) (from_unix ex') d1) of
        Some er \<Rightarrow> Inl (Wrapped ''failed to create token'' er) | None \<Rightarrow> Inr (n_ID node, tok', ex'))"
  note node = CreateNode_done [OF assms(1) c]
  let ?t = "\<lparr>t_ID = e_tokenID e, t_Token = tok', t_NodeID = n_ID node, t_ExpiresAt = from_unix ex', t_CreatedAt = e_now e\<rparr>"
  from res have ok: "fst (CreateToken (e_fault2 e) (e_tokenID e) (e_now e) tok' (n_ID node) (from_unix ex') d1) = None"
    and eqs: "nid = n_ID node" "tok = tok'" "ex = ex'" by (auto split: option.splits)
  from ok have "?t \<in> set (db_tokens d')"
    by (cases "e_fault2 e"; auto simp: d' CreateToken_def run_query_def insert_token_def Let_def split: if_splits)
  moreover have "(nid, k) \<in> node_keys d'" using node(2) eqs by (simp add: d' CreateToken_node_keys)
  ultimately show thesis
    using g eqs by (intro that [of ?t]) (auto simp: generateToken_def Let_def split: sum.splits)
qed auto

lemma GetTokenByValue_row:
  assumes "db_ok d" "t \<in> set (db_tokens d)"
  shows "GetTokenByValue NoFault (t_Token t) d = Inr t"
proof -
  obtain t' where t': "find (\<lambda>x. t_Token x = t_Token t) (db_tokens d) = Some t'"
    using assms(2) by (cases "find (\<lambda>x. t_Token x = t_Token t) (db_tokens d)") (auto simp: find_None_iff)
  then have "t' \<in> set (db_tokens d)" "t_Token t' = t_Token t"
    by (metis (mono_tags, lifting) find_Some_iff nth_mem)+
  moreover have "inj_on t_Token (set (db_tokens d))" using assms(1) by (simp add: db_ok_def distinct_map)
  ultimately have "t' = t" using assms(2) by (auto dest: inj_onD)
  with t' show ?thesis by (simp add: GetTokenByValue_def run_query_def)
qed

lemma GetTokenByValue_none:
  assumes "tok \<notin> t_Token ` set (db_tokens d)"
  shows "GetTokenByValue NoFault tok d = Inl (Wrapped ''failed to get token'' no_rows)"
proof -
  have "find (\<lambda>t. t_Token t = tok) (db_tokens d) = None" using assms by (auto simp: find_None_iff)
  then show ?thesis by (simp add: GetTokenByValue_def run_query_def)
qed

lemma GetPublicKey_row:
  assumes "db_ok d" "(nid, k) \<in> node_keys d" "to_uuid nid = Some nid"
  shows "ids_GetPublicKey NoFault to_uuid nid d = Inr k"
proof -
  from assms(2) obtain n where n: "n \<in> set (db_nodes d)" "n_ID n = nid" "n_PublicKey n = k"
    by (auto simp: node_keys_def)
  then obtain n' where n': "find (\<lambda>n. n_ID n = nid) (db_nodes d) = Some n'"
    by (cases "find (\<lambda>n. n_ID n = nid) (db_nodes d)") (auto simp: find_None_iff)
  then have "n' \<in> set (db_nodes d)" "n_ID n' = nid"
    by (metis (mono_tags, lifting) find_Some_iff nth_mem)+
  moreover have "inj_on n_ID (set (db_nodes d))" using assms(1) by (simp add: db_ok_def distinct_map)
  ultimately have "n' = n" using n by (auto dest: inj_onD)
  with n' n assms(3) show ?thesis by (simp add: ids_GetPublicKey_def GetNodeByID_def run_query_def)
qed


text \<open>C4. The node a valid token names is the node it was issued to. In any history from empty
  tables, if \<open>ValidateToken\<close> accepts a token for a node, then that token is on record, issued to
  this node, not expired, and the node is registered.\<close>

theorem identity_valid_token_names_its_node:
  assumes laws: "jwt_laws J" and d: "d = id_run J s xs empty_tables"
    and uuids: "\<And>n. n \<in> set (db_nodes d) \<Longrightarrow> utf8_valid (n_ID n)"
    and valid: "ids_ValidateToken J s f now tok d = (Inr (nid, True), ms)"
  shows "\<exists>t \<in> set (db_tokens d). t_Token t = tok \<and> t_NodeID t = nid \<and> now \<le> t_ExpiresAt t
    \<and> nid \<in> n_ID ` set (db_nodes d)"
proof -
  have inv: "id_inv J s d" unfolding d by (rule id_run_inv) simp
  from valid obtain j t where j: "jwt_parse J now (key_func s) tok = Inr j" "j_Claims j ''node_id'' = Some (CStr nid)"
    and t: "GetTokenByValue f tok d = Inr t" "now \<le> t_ExpiresAt t"
    by (auto simp: ids_ValidateToken_def split: sum.splits option.splits claim.splits if_splits)
  from t(1) have "find (\<lambda>t. t_Token t = tok) (db_tokens d) = Some t"
    by (cases f) (auto simp: GetTokenByValue_def run_query_def split: sum.splits option.splits)
  then have row: "t \<in> set (db_tokens d)" "t_Token t = tok"
    by (metis (mono_tags, lifting) find_Some_iff nth_mem)+
  with inv have "issued J s t" and node: "t_NodeID t \<in> n_ID ` set (db_nodes d)"
    by (auto simp: id_inv_def db_ok_def)
  then obtain ex iat where "jwt_sign J (s_jwtSecret s)
      [''node_id'' \<mapsto> CStr (t_NodeID t), ''exp'' \<mapsto> CNum ex, ''iat'' \<mapsto> CNum iat] = Inr tok"
    using row by (auto simp: issued_def)
  from jwt_laws.sign_claims [OF laws this, of "key_func s" "t_NodeID t" now j] uuids node j
  have "t_NodeID t = nid" by (auto simp: key_func_def)
  with row t(2) node show ?thesis by auto
qed

text \<open>C20. A node is a public key: two successful registrations, with any history between them, are
  given the same node id exactly if they present the same public key.\<close>

theorem identity_node_is_key:
  assumes d: "d = id_run J s xs0 empty_tables"
    and one: "RegisterNode J s e1 k1 v1 p1 sec1 d = (Inr (n1, tok1, ex1), d1, ms1)"
    and two: "RegisterNode J s e2 k2 v2 p2 sec2 (id_run J s xs d1) = (Inr (n2, tok2, ex2), d2, ms2)"
  shows "n1 = n2 \<longleftrightarrow> k1 = k2"
proof -
  have inv: "id_inv J s d" unfolding d by (rule id_run_inv) simp
  have inv1: "id_inv J s d1" using id_step_inv [OF inv, of "IRegister e1 k1 v1 p1 sec1"] one by simp
  have invm: "id_inv J s (id_run J s xs d1)" using inv1 by (rule id_run_inv)
  have inv2: "id_inv J s d2" using id_step_inv [OF invm, of "IRegister e2 k2 v2 p2 sec2"] two by simp
  have "(n1, k1) \<in> node_keys d1" using RegisterNode_done [OF _ one] inv by (metis id_inv_def)
  moreover have "node_keys d1 \<subseteq> node_keys (id_run J s xs d1)" using inv1 by (rule id_run_node_keys)
  moreover have "node_keys (id_run J s xs d1) \<subseteq> node_keys d2"
    using id_step_node_keys [of "id_run J s xs d1" J s "IRegister e2 k2 v2 p2 sec2"] invm two by (simp add: id_inv_def)
  ultimately have in1: "(n1, k1) \<in> node_keys d2" by blast
  have in2: "(n2, k2) \<in> node_keys d2" using RegisterNode_done [OF _ two] invm by (metis id_inv_def)
  have inj: "inj_on n_ID (set (db_nodes d2))" "inj_on n_PublicKey (set (db_nodes d2))"
    using inv2 by (auto simp: id_inv_def db_ok_def distinct_map)
  from in1 in2 obtain m1 m2 where "m1 \<in> set (db_nodes d2)" "m2 \<in> set (db_nodes d2)"
    "n1 = n_ID m1" "k1 = n_PublicKey m1" "n2 = n_ID m2" "k2 = n_PublicKey m2" by (auto simp: node_keys_def)
  with inj show ?thesis by (metis inj_onD)
qed

text \<open>The answer to a validation depends on the tables only through whether an unexpired row is
  found.\<close>

definition token_live :: "fault \<Rightarrow> string \<Rightarrow> instant \<Rightarrow> identity_db \<Rightarrow> bool" where
  "token_live f tok now d \<longleftrightarrow>
     (case GetTokenByValue f tok d of Inl _ \<Rightarrow> False | Inr t \<Rightarrow> now \<le> t_ExpiresAt t)"

lemma ids_ValidateToken_cong:
  assumes "token_live f tok now d
    = token_live f tok now d'"
  shows "fst (ids_ValidateToken J s f now tok d) = fst (ids_ValidateToken J s f now tok d')"
proof -
  have eq: "fst (ids_ValidateToken J s f now tok x) =
    (case jwt_parse J now (key_func s) tok of
       Inl _ \<Rightarrow> Inr ('''', False)
     | Inr token \<Rightarrow>
         if \<not> j_Valid token then Inr ('''', False)
         else case j_Claims token ''node_id'' of
           Some (CStr n) \<Rightarrow>
             if token_live f tok now x
             then Inr (n, True) else Inr ('''', False)
         | _ \<Rightarrow> Inl (Plain ''node_id not found in token''))" for x
    by (auto simp: ids_ValidateToken_def token_live_def split: sum.split option.split claim.split)
  show ?thesis unfolding eq assms ..
qed

text \<open>The cleanup of expired tokens is invisible: whatever it deletes at time \<open>t\<close>, every later
  validation of every token answers as it would have without the cleanup.\<close>

theorem identity_cleanup_invisible:
  assumes d: "d = id_run J s xs empty_tables" and "t \<le> now"
  shows "fst (ids_ValidateToken J s NoFault now tok (snd (CleanupExpiredTokens f t d)))
       = fst (ids_ValidateToken J s NoFault now tok d)"
proof -
  have inv: "id_inv J s d" unfolding d by (rule id_run_inv) simp
  let ?d = "snd (CleanupExpiredTokens f t d)"
  have inv': "id_inv J s ?d" using id_step_inv [OF inv, of "ICleanup f t"] by simp
  have sub: "set (db_tokens ?d) \<subseteq> set (db_tokens d)"
    by (cases f) (auto simp: CleanupExpiredTokens_def DeleteExpiredTokens_def run_query_def)
  have gone: "t_ExpiresAt x < t" if "x \<in> set (db_tokens d)" "x \<notin> set (db_tokens ?d)" for x
    using that by (cases f) (auto simp: CleanupExpiredTokens_def DeleteExpiredTokens_def run_query_def)
  note none = GetTokenByValue_none [of tok]
  have "token_live NoFault tok now ?d
    = token_live NoFault tok now d"
  proof (cases "tok \<in> t_Token ` set (db_tokens d)")
    case True
    then obtain x where x: "x \<in> set (db_tokens d)" "t_Token x = tok" by auto
    note row = GetTokenByValue_row [of d x]
    show ?thesis
    proof (cases "x \<in> set (db_tokens ?d)")
      case True
      then show ?thesis using row x GetTokenByValue_row [of ?d x] inv inv'
        by (simp add: id_inv_def token_live_def)
    next
      case False
      have inj: "inj_on t_Token (set (db_tokens d))" using inv by (simp add: id_inv_def db_ok_def distinct_map)
      have "tok \<notin> t_Token ` set (db_tokens ?d)"
      proof
        assume "tok \<in> t_Token ` set (db_tokens ?d)"
        then obtain y where y: "y \<in> set (db_tokens ?d)" "t_Token y = tok" by auto
        with sub x inj have "y = x" by (auto dest: inj_onD)
        with y False show False by simp
      qed
      with none [of ?d] row x inv gone [OF x(1) False] assms(2) show ?thesis
        by (auto simp: id_inv_def token_live_def)
    qed
  next
    case False
    then have "tok \<notin> t_Token ` set (db_tokens ?d)" using sub by auto
    with none [of ?d] none [OF False] show ?thesis by (simp add: token_live_def)
  qed
  then show ?thesis by (rule ids_ValidateToken_cong)
qed

text \<open>A node cannot register twice within one second: the second registration signs the same
  claims, gets the same token, and fails on the unique column, with the code \<open>Internal\<close>.\<close>

theorem identity_same_second_rejected:
  assumes d: "d = id_run J s xs empty_tables"
    and one: "RegisterNode J s e1 k v1 p1 sec1 d = (Inr (nid, tok, ex), d1, ms1)"
    and same: "unix (e_now e2 + s_tokenTTL s) = unix (e_now e1 + s_tokenTTL s)" "unix (e_now e2) = unix (e_now e1)"
  shows "\<exists>err d2 ms2. idh_RegisterNode J s e2 \<lparr>rnq_PublicKey = k, rnq_Version = v2, rnq_PeerId = p2, rnq_NetworkSecret = sec2\<rparr> d1
      = (Inl err, d2, ms2)"
proof -
  have inv: "id_inv J s d" unfolding d by (rule id_run_inv) simp
  have inv1: "id_inv J s d1" using id_step_inv [OF inv, of "IRegister e1 k v1 p1 sec1"] one by simp
  obtain t where t: "t \<in> set (db_tokens d1)" "t_Token t = tok" and key: "(nid, k) \<in> node_keys d1"
    and sign: "jwt_sign J (s_jwtSecret s)
       [''node_id'' \<mapsto> CStr nid, ''exp'' \<mapsto> CNum ex, ''iat'' \<mapsto> CNum (unix (e_now e1))] = Inr tok"
    and ex: "ex = unix (e_now e1 + s_tokenTTL s)"
    using RegisterNode_done [OF _ one] inv by (metis id_inv_def)
  have "\<exists>err. res = Inl err" if two: "RegisterNode J s e2 k v2 p2 sec2 d1 = (res, d2, ms2)" for res d2 ms2
  proof (cases res)
    case (Inr x)
    obtain n2 tok2 ex2 where x: "x = (n2, tok2, ex2)" by (cases x)
    from two [unfolded Inr x] show ?thesis
    proof (rule RegisterNode_db)
      fix node d3 tok' ex'
      assume c: "CreateNode (e_fault1 e2) (e_nodeID e2) (e_now e2) k v2 p2 d1 = (Inr node, d3)"
        and g: "generateToken J s (e_now e2) (e_now e2) (n_ID node) = Inr (tok', ex')"
        and res: "Inr (n2, tok2, ex2) = (case fst (CreateToken (e_fault2 e2) (e_tokenID e2) (e_now e2) tok' (n_ID node) (from_unix ex') d3) of
            Some er \<Rightarrow> Inl (Wrapped ''failed to create token'' er) | None \<Rightarrow> Inr (n_ID node, tok', ex'))"
      have ok1: "db_ok d1" using inv1 by (simp add: id_inv_def)
      note node = CreateNode_done [OF ok1 c]
      have "(nid, k) \<in> node_keys d3" using CreateNode_node_keys [OF ok1] key c by (metis snd_conv subsetD)
      with node(2,3) have "n_ID node = nid"
        by (auto simp: node_keys_def db_ok_def distinct_map dest: inj_onD)
      with g sign ex same have "tok' = tok" by (simp add: generateToken_def Let_def)
      with t node(4) have "tok' \<in> t_Token ` set (db_tokens d3)" by auto
      with res show ?thesis
        by (cases "e_fault2 e2"; auto simp: CreateToken_def run_query_def insert_token_def split: if_splits)
    qed auto
  qed simp
  then show ?thesis
    by (cases "RegisterNode J s e2 k v2 p2 sec2 d1") (auto simp: idh_RegisterNode_def)
qed

section \<open>A concrete history\<close>

text \<open>A service with secrets and a day's tokens, a registration at it, and the tables and tokens
  that come out.\<close>

definition demo_service :: IdentityService where
  "demo_service = ids_New ''jwt'' ''net'' 24"

definition demo_env :: "string \<Rightarrow> string \<Rightarrow> instant \<Rightarrow> reg_env" where
  "demo_env i j now = \<lparr>e_fault1 = NoFault, e_fault2 = NoFault, e_nodeID = i, e_tokenID = j, e_now = now\<rparr>"

definition demo_token :: "string \<Rightarrow> int \<Rightarrow> string" where
  "demo_token n ex = encode (JArr [key_json ''jwt'', JStr n, JNum (itoa ex)])"

definition demo_db :: identity_db where
  "demo_db = \<lparr>db_nodes = [\<lparr>n_ID = ''n'', n_PublicKey = ''k'', n_Version = ''1'', n_PeerID = None,
                            n_CreatedAt = 5, n_UpdatedAt = 5\<rparr>],
     db_tokens = [\<lparr>t_ID = ''t'', t_Token = demo_token ''n'' 86400, t_NodeID = ''n'',
                   t_ExpiresAt = 86400000000000, t_CreatedAt = 5\<rparr>]\<rparr>"

lemma demo_token_n: "demo_token ''n'' 86400 = ''[[106,119,116],'' @ [CHR 0x22] @ ''n'' @ [CHR 0x22] @ '',86400]''"
  by (simp add: demo_token_def key_json_def itoa_def dec_nat.simps quote_def escape.simps esc_ascii_def Let_def)

lemma demo_token_m: "demo_token ''m'' 86400 = ''[[106,119,116],'' @ [CHR 0x22] @ ''m'' @ [CHR 0x22] @ '',86400]''"
  by (simp add: demo_token_def key_json_def itoa_def dec_nat.simps quote_def escape.simps esc_ascii_def Let_def)

lemma pg_text_ascii: "\<forall>c \<in> set s. 0 < byte_of c \<and> byte_of c < 128 \<Longrightarrow> pg_text s"
  by (auto simp: pg_text_def utf8_valid_ascii)

lemma demo_texts: "pg_text (demo_token ''n'' 86400)" "pg_text (demo_token ''m'' 86400)"
  "pg_text ''k''" "pg_text ''l''" "pg_text ''1''" "pg_text ''''" "utf8_valid ''n''" "utf8_valid ''m''"
  unfolding demo_token_n demo_token_m by (rule pg_text_ascii utf8_valid_ascii; simp)+

lemma demo_sign: "cs ''node_id'' = Some (CStr n) \<Longrightarrow> cs ''exp'' = Some (CNum ex) \<Longrightarrow>
  jwt_sign demo_jwt ''jwt'' cs = Inr (demo_token n ex)"
  by (simp add: demo_jwt_def demo_token_def)

lemmas demo_defs = RegisterNode_def demo_service_def ids_New_def demo_env_def CreateNode_def run_query_def
  upsert_node_def empty_tables_def demo_texts generateToken_def demo_sign Let_def CreateToken_def
  insert_token_def demo_db_def time_Hour_def time_Minute_def time_Second_def int64_id unix_def from_unix_def

lemma demo_register:
  "RegisterNode demo_jwt demo_service (demo_env ''n'' ''t'' 5) ''k'' ''1'' '''' ''net'' empty_tables
   = (Inr (''n'', demo_token ''n'' 86400, 86400), demo_db, [Inc ''gordion_jwt_tokens_issued_total'' []])"
  by (simp add: demo_defs)

lemma demo_register2: "\<exists>d2. RegisterNode demo_jwt demo_service (demo_env ''m'' ''u'' 7) ''l'' ''1'' '''' ''net'' demo_db
   = (Inr (''m'', demo_token ''m'' 86400, 86400), d2, [Inc ''gordion_jwt_tokens_issued_total'' []])"
  by (simp add: demo_defs) (simp add: demo_token_n demo_token_m)

lemma demo_id_run: "demo_db = id_run demo_jwt demo_service [IRegister (demo_env ''n'' ''t'' 5) ''k'' ''1'' '''' ''net''] empty_tables"
  by (simp add: id_run_def demo_register)

lemma demo_nil: "empty_tables = id_run demo_jwt demo_service [] empty_tables"
  by (simp add: id_run_def)

lemma demo_valid: "ids_ValidateToken demo_jwt demo_service NoFault 20 (demo_token ''n'' 86400) demo_db = (Inr (''n'', True), [])"
proof -
  have "key_func demo_service True ''HS256'' = Inr ''jwt''" by (simp add: key_func_def demo_service_def ids_New_def)
  then have "jwt_parse demo_jwt 20 (key_func demo_service) (demo_token ''n'' 86400)
      = Inr \<lparr>j_Claims = [''node_id'' \<mapsto> CStr ''n'', ''exp'' \<mapsto> CNum 86400], j_Valid = True\<rparr>"
    unfolding demo_token_def
    by (simp add: demo_jwt_def demo_jwt_decode [unfolded encode.simps] demo_jwt_decode demo_texts Atoi_itoa from_unix_def time_Second_def
        del: encode.simps)
  then show ?thesis
    by (simp add: ids_ValidateToken_def GetTokenByValue_def run_query_def demo_db_def)
qed


theorem identity_valid_token_names_its_node_witness:
  "\<exists>t \<in> set (db_tokens demo_db). t_Token t = demo_token ''n'' 86400 \<and> t_NodeID t = ''n''
     \<and> 20 \<le> t_ExpiresAt t \<and> ''n'' \<in> n_ID ` set (db_nodes demo_db)"
  by (rule identity_valid_token_names_its_node [OF demo_jwt_laws.jwt_laws_axioms demo_id_run _ demo_valid])
    (simp add: demo_db_def demo_texts)

theorem identity_node_is_key_witness: "(''n'' = ''m'') \<longleftrightarrow> (''k'' = (''l'' :: string))"
proof -
  obtain d2 where "RegisterNode demo_jwt demo_service (demo_env ''m'' ''u'' 7) ''l'' ''1'' '''' ''net''
      (id_run demo_jwt demo_service [] demo_db)
    = (Inr (''m'', demo_token ''m'' 86400, 86400), d2, [Inc ''gordion_jwt_tokens_issued_total'' []])"
    using demo_register2 by (auto simp: id_run_def)
  from identity_node_is_key [OF demo_nil demo_register this] show ?thesis .
qed

theorem identity_cleanup_invisible_witness:
  "fst (ids_ValidateToken demo_jwt demo_service NoFault 86400000000002 (demo_token ''n'' 86400)
      (snd (CleanupExpiredTokens NoFault 86400000000001 demo_db)))
   = fst (ids_ValidateToken demo_jwt demo_service NoFault 86400000000002 (demo_token ''n'' 86400) demo_db)"
  by (rule identity_cleanup_invisible [OF demo_id_run]) simp

theorem identity_same_second_rejected_witness:
  "\<exists>err d2 ms2. idh_RegisterNode demo_jwt demo_service (demo_env ''m'' ''u'' 999999999)
      \<lparr>rnq_PublicKey = ''k'', rnq_Version = ''2'', rnq_PeerId = '''', rnq_NetworkSecret = ''net''\<rparr> demo_db = (Inl err, d2, ms2)"
  by (rule identity_same_second_rejected [OF demo_nil demo_register])
    (simp_all add: demo_env_def demo_service_def ids_New_def unix_def time_Second_def time_Hour_def time_Minute_def int64_id)

end
