(* ===== verification/Agent_Client.thy ===== *)
theory Agent_Client
  imports Circuit_Breaker Proto Go_Std
begin

text \<open>
  The agent's configuration (\<open>src/services/agent/internal/config/config.go\<close>) and its client of
  the three services (\<open>src/services/agent/internal/client/client.go\<close>). The services are reached
  by remote calls that act on a world \<open>'w\<close>; they and the clock are parameters. Every call of the
  client runs under the circuit breaker of its service. Dialling the connections is in the theory
  of the main programs.
\<close>

section \<open>The configuration file\<close>

record ag_Config =
  ac_IdentityAddr :: string
  ac_DiscoveryAddr :: string
  ac_ConfigAddr :: string
  ac_LogLevel :: string
  ac_Heartbeat :: int
  ac_PeerSyncInterval :: int
  ac_DryRun :: "bool option"
  ac_WireGuardPort :: int
  ac_P2PPort :: int
  ac_TLSCACert :: string
  ac_NetworkSecret :: string
  ac_IsExitNode :: bool
  ac_UseExitNode :: bool
  ac_ExitNodeID :: string
  ac_ExitNodeDNS :: string

definition ag_setDefaults :: "ag_Config \<Rightarrow> ag_Config" where
  "ag_setDefaults c = c\<lparr>
     ac_IdentityAddr := (if ac_IdentityAddr c = '''' then ''localhost:8001'' else ac_IdentityAddr c),
     ac_DiscoveryAddr := (if ac_DiscoveryAddr c = '''' then ''localhost:8002'' else ac_DiscoveryAddr c),
     ac_ConfigAddr := (if ac_ConfigAddr c = '''' then ''localhost:8003'' else ac_ConfigAddr c),
     ac_LogLevel := (if ac_LogLevel c = '''' then ''debug'' else ac_LogLevel c),
     ac_Heartbeat := (if ac_Heartbeat c = 0 then 25 else ac_Heartbeat c),
     ac_DryRun := (case ac_DryRun c of None \<Rightarrow> Some True | Some d \<Rightarrow> Some d),
     ac_WireGuardPort := (if ac_WireGuardPort c = 0 then 51820 else ac_WireGuardPort c),
     ac_P2PPort := (if ac_P2PPort c = 0 then 4001 else ac_P2PPort c),
     ac_PeerSyncInterval := (if ac_PeerSyncInterval c = 0 then 60 else ac_PeerSyncInterval c),
     ac_ExitNodeDNS := (if ac_ExitNodeDNS c = '''' then ''1.1.1.1, 1.0.0.1'' else ac_ExitNodeDNS c)\<rparr>"

definition env_string :: "(string \<Rightarrow> string) \<Rightarrow> string \<Rightarrow> string \<Rightarrow> string" where
  "env_string getenv k old = (if getenv k \<noteq> '''' then getenv k else old)"

definition env_port :: "(string \<Rightarrow> string) \<Rightarrow> string \<Rightarrow> int \<Rightarrow> int" where
  "env_port getenv k old =
     (if getenv k \<noteq> '''' then (case Atoi (getenv k) of Some port \<Rightarrow> port | None \<Rightarrow> old) else old)"

definition overrideFromEnv :: "(string \<Rightarrow> string) \<Rightarrow> ag_Config \<Rightarrow> ag_Config" where
  "overrideFromEnv getenv c = c\<lparr>
     ac_IdentityAddr := env_string getenv ''IDENTITY_ADDR'' (ac_IdentityAddr c),
     ac_DiscoveryAddr := env_string getenv ''DISCOVERY_ADDR'' (ac_DiscoveryAddr c),
     ac_ConfigAddr := env_string getenv ''CONFIG_ADDR'' (ac_ConfigAddr c),
     ac_P2PPort := env_port getenv ''P2P_PORT'' (ac_P2PPort c),
     ac_WireGuardPort := env_port getenv ''WIREGUARD_PORT'' (ac_WireGuardPort c),
     ac_TLSCACert := env_string getenv ''TLS_CA_CERT'' (ac_TLSCACert c),
     ac_NetworkSecret := env_string getenv ''NETWORK_SECRET'' (ac_NetworkSecret c),
     ac_IsExitNode := (if getenv ''IS_EXIT_NODE'' = ''true'' then True else ac_IsExitNode c),
     ac_UseExitNode := (if getenv ''USE_EXIT_NODE'' = ''true'' then True else ac_UseExitNode c),
     ac_ExitNodeID := env_string getenv ''EXIT_NODE_ID'' (ac_ExitNodeID c),
     ac_ExitNodeDNS := env_string getenv ''EXIT_NODE_DNS'' (ac_ExitNodeDNS c)\<rparr>"

definition ag_Load ::
  "string result \<Rightarrow> (string \<Rightarrow> ag_Config result) \<Rightarrow> (string \<Rightarrow> string) \<Rightarrow> ag_Config result" where
  "ag_Load file unmarshal getenv =
     (case file of
        Inl err \<Rightarrow> Inl (Wrapped ''config read error'' err)
      | Inr text \<Rightarrow>
          (case unmarshal text of
             Inl err \<Rightarrow> Inl (Wrapped ''config parse error'' err)
           | Inr cfg \<Rightarrow> Inr (overrideFromEnv getenv (ag_setDefaults cfg))))"

section \<open>The remote calls\<close>

text \<open>\<open>rpc_clock\<close> reads the clock of a world, \<open>rpc_FromError\<close> is grpc's \<open>status.FromError\<close>.
  \<open>ListPeers\<close> carries the outgoing metadata.\<close>

record 'w rpcs =
  rpc_clock :: "'w \<Rightarrow> instant"
  rpc_FromError :: "go_error \<Rightarrow> code option"
  rpc_RegisterNode :: "RegisterNodeRequest \<Rightarrow> 'w \<Rightarrow> RegisterNodeResponse result \<times> 'w"
  rpc_GetPublicKey :: "GetPublicKeyRequest \<Rightarrow> 'w \<Rightarrow> GetPublicKeyResponse result \<times> 'w"
  rpc_GetConfig :: "GetConfigRequest \<Rightarrow> 'w \<Rightarrow> GetConfigResponse result \<times> 'w"
  rpc_RequestIP :: "RequestIPRequest \<Rightarrow> 'w \<Rightarrow> RequestIPResponse result \<times> 'w"
  rpc_ReleaseIP :: "ReleaseIPRequest \<Rightarrow> 'w \<Rightarrow> ReleaseIPResponse result \<times> 'w"
  rpc_RegisterPeer :: "RegisterPeerRequest \<Rightarrow> 'w \<Rightarrow> RegisterPeerResponse result \<times> 'w"
  rpc_ListPeers :: "(string \<times> string) list \<Rightarrow> ListPeersRequest \<Rightarrow> 'w \<Rightarrow> ListPeersResponse result \<times> 'w"
  rpc_Heartbeat :: "HeartbeatRequest \<Rightarrow> 'w \<Rightarrow> HeartbeatResponse result \<times> 'w"

record Client =
  cbIdentity :: CircuitBreaker
  cbDiscovery :: CircuitBreaker
  cbConfig :: CircuitBreaker

definition newCBConfig :: cb_Config where
  "newCBConfig = \<lparr>MaxFailures = 5, OpenTimeout = 30 * time_Second, HalfOpenMax = 1, OnStateChange = True\<rparr>"

definition new_Client :: Client where
  "new_Client = \<lparr>cbIdentity = cb_New ''identity'' newCBConfig, cbDiscovery = cb_New ''discovery'' newCBConfig,
     cbConfig = cb_New ''config'' newCBConfig\<rparr>"

text \<open>A call in a closure under \<open>Execute\<close>: the response goes to a variable outside the closure.\<close>

definition in_closure :: "('w \<Rightarrow> 'a result \<times> 'w) \<Rightarrow> 'w \<times> 'a option \<Rightarrow> go_error option \<times> 'w \<times> 'a option" where
  "in_closure call x =
     (case call (fst x) of
        (Inl e, w') \<Rightarrow> (Some e, w', snd x)
      | (Inr resp, w') \<Rightarrow> (None, w', Some resp))"

definition guarded ::
  "'w rpcs \<Rightarrow> ('w \<Rightarrow> 'a result \<times> 'w) \<Rightarrow> CircuitBreaker \<Rightarrow> 'w \<Rightarrow> 'a result \<times> CircuitBreaker \<times> 'w" where
  "guarded R call cb w =
     (case cb_Execute (rpc_FromError R) (rpc_clock R w) (rpc_clock R (snd (call w))) (in_closure call) (cb, w, None) of
        (Some err, cb', w', _) \<Rightarrow> (Inl err, cb', w')
      | (None, cb', w', Some resp) \<Rightarrow> (Inr resp, cb', w')
      | (None, cb', w', None) \<Rightarrow> (Inl (Plain ''nil response''), cb', w'))"

section \<open>Operations\<close>

definition c_Register ::
  "'w rpcs \<Rightarrow> string \<Rightarrow> string \<Rightarrow> string \<Rightarrow> Client \<Rightarrow> 'w \<Rightarrow> (string \<times> string \<times> int) result \<times> Client \<times> 'w" where
  "c_Register R publicKey peerID networkSecret c w =
     (case guarded R (rpc_RegisterNode R \<lparr>rnq_PublicKey = publicKey, rnq_Version = ''1.0.0'', rnq_PeerId = peerID,
             rnq_NetworkSecret = networkSecret\<rparr>) (cbIdentity c) w of
        (Inl err, cb, w1) \<Rightarrow> (Inl (Wrapped ''register failed'' err), c\<lparr>cbIdentity := cb\<rparr>, w1)
      | (Inr resp, cb, w1) \<Rightarrow>
          (Inr (rnr_NodeId resp, rnr_Token resp, rnr_ExpiresAt resp), c\<lparr>cbIdentity := cb\<rparr>, w1))"

definition c_GetPeerPublicKey :: "'w rpcs \<Rightarrow> string \<Rightarrow> Client \<Rightarrow> 'w \<Rightarrow> string result \<times> Client \<times> 'w" where
  "c_GetPeerPublicKey R nodeID c w =
     (case guarded R (rpc_GetPublicKey R \<lparr>gpq_NodeId = nodeID\<rparr>) (cbIdentity c) w of
        (Inl err, cb, w1) \<Rightarrow> (Inl (Wrapped ''get public key failed'' err), c\<lparr>cbIdentity := cb\<rparr>, w1)
      | (Inr resp, cb, w1) \<Rightarrow> (Inr (gpr_PublicKey resp), c\<lparr>cbIdentity := cb\<rparr>, w1))"

definition c_GetNetworkConfig :: "'w rpcs \<Rightarrow> string \<Rightarrow> Client \<Rightarrow> 'w \<Rightarrow> GetConfigResponse result \<times> Client \<times> 'w" where
  "c_GetNetworkConfig R token c w =
     (case guarded R (rpc_GetConfig R \<lparr>gcq_Token = token, gcq_ConfigVersion = 0\<rparr>) (cbConfig c) w of
        (Inl err, cb, w1) \<Rightarrow> (Inl (Wrapped ''get config failed'' err), c\<lparr>cbConfig := cb\<rparr>, w1)
      | (Inr resp, cb, w1) \<Rightarrow> (Inr resp, c\<lparr>cbConfig := cb\<rparr>, w1))"

definition c_RequestIP ::
  "'w rpcs \<Rightarrow> string \<Rightarrow> string \<Rightarrow> Client \<Rightarrow> 'w \<Rightarrow> (string \<times> string \<times> string) result \<times> Client \<times> 'w" where
  "c_RequestIP R token nodeID c w =
     (case guarded R (rpc_RequestIP R \<lparr>riq_Token = token, riq_NodeId = nodeID\<rparr>) (cbConfig c) w of
        (Inl err, cb, w1) \<Rightarrow> (Inl (Wrapped ''request IP failed'' err), c\<lparr>cbConfig := cb\<rparr>, w1)
      | (Inr resp, cb, w1) \<Rightarrow>
          (Inr (rir_IpAddress resp, rir_SubnetMask resp, rir_Gateway resp), c\<lparr>cbConfig := cb\<rparr>, w1))"

text \<open>The calls that return only an error.\<close>

definition only_error :: "'a result \<Rightarrow> go_error option" where
  "only_error x = (case x of Inl e \<Rightarrow> Some e | Inr _ \<Rightarrow> None)"

definition c_ReleaseIP ::
  "'w rpcs \<Rightarrow> string \<Rightarrow> string \<Rightarrow> string \<Rightarrow> Client \<Rightarrow> 'w \<Rightarrow> go_error option \<times> Client \<times> 'w" where
  "c_ReleaseIP R token nodeID ip c w =
     (case guarded R (rpc_ReleaseIP R \<lparr>rlq_Token = token, rlq_NodeId = nodeID, rlq_IpAddress = ip\<rparr>) (cbConfig c) w of
        (x, cb, w1) \<Rightarrow> (only_error x, c\<lparr>cbConfig := cb\<rparr>, w1))"

definition c_RegisterPeer ::
  "'w rpcs \<Rightarrow> string \<Rightarrow> string \<Rightarrow> int \<Rightarrow> string \<Rightarrow> string list \<Rightarrow> bool \<Rightarrow> Client \<Rightarrow> 'w
    \<Rightarrow> go_error option \<times> Client \<times> 'w" where
  "c_RegisterPeer R token ip port peerID p2pAddrs isExitNode c w =
     (case guarded R (rpc_RegisterPeer R \<lparr>rpq_Token = token, rpq_IpAddress = ip, rpq_Port = port, rpq_Region = ''global'',
             rpq_Bandwidth = 1000000, rpq_PeerId = peerID, rpq_P2PAddrs = p2pAddrs, rpq_IsExitNode = isExitNode\<rparr>)
             (cbDiscovery c) w of
        (x, cb, w1) \<Rightarrow> (only_error x, c\<lparr>cbDiscovery := cb\<rparr>, w1))"

definition c_DiscoverPeers ::
  "'w rpcs \<Rightarrow> string \<Rightarrow> int \<Rightarrow> Client \<Rightarrow> 'w \<Rightarrow> ProtoPeer list result \<times> Client \<times> 'w" where
  "c_DiscoverPeers R token limit c w =
     (case guarded R (rpc_ListPeers R [(''authorization'', token)] \<lparr>lpq_Region = '''', lpq_Limit = limit\<rparr>) (cbDiscovery c) w of
        (Inl err, cb, w1) \<Rightarrow> (Inl (Wrapped ''discover peers failed'' err), c\<lparr>cbDiscovery := cb\<rparr>, w1)
      | (Inr resp, cb, w1) \<Rightarrow> (Inr (lpr_Peers resp), c\<lparr>cbDiscovery := cb\<rparr>, w1))"

definition c_Heartbeat :: "'w rpcs \<Rightarrow> string \<Rightarrow> Client \<Rightarrow> 'w \<Rightarrow> go_error option \<times> Client \<times> 'w" where
  "c_Heartbeat R token c w =
     (case guarded R (rpc_Heartbeat R \<lparr>hbq_Token = token, hbq_Bandwidth = 0\<rparr>) (cbDiscovery c) w of
        (x, cb, w1) \<Rightarrow> (only_error x, c\<lparr>cbDiscovery := cb\<rparr>, w1))"

section \<open>Lemmas\<close>

text \<open>A guarded call either makes the remote call and returns its answer, or is rejected by the
  breaker and leaves the world alone.\<close>

lemma guarded_cases:
  assumes "guarded R call cb w = (x, cb', w')"
  obtains (called) "call w = (x, w')"
  | (rejected) m where "x = Inl (Status Unavailable m None)" "w' = w"
proof -
  let ?ex = "cb_Execute (rpc_FromError R) (rpc_clock R w) (rpc_clock R (snd (call w))) (in_closure call) (cb, w, None)"
  obtain e c v r where ex: "?ex = (e, c, v, r)" using prod_cases4 by blast
  from cbg.guard_runs_or_rejects [OF this] consider "(e, v, r) = in_closure call (w, None)"
    | m where "(v, r) = (w, None)" "e = Some (Status Unavailable m None)" by blast
  then show thesis
  proof cases
    case 1
    with ex assms show thesis
      by (intro called) (auto simp: guarded_def in_closure_def split: prod.splits sum.splits)
  next
    case (2 m)
    with ex assms show thesis by (intro rejected [of m]) (auto simp: guarded_def)
  qed
qed

text \<open>A closed breaker lets every call through.\<close>

lemma guarded_closed:
  assumes "cb_state cb = StateClosed"
  shows "\<exists>cb'. guarded R call cb w = (fst (call w), cb', snd (call w))"
  using assms
  by (cases "call w"; cases "fst (call w)")
    (auto simp: guarded_def cb_Execute_def cb_Allow_def in_closure_def split: option.splits)

lemma guarded_closed_ok:
  assumes "cb_state cb = StateClosed" and "fst (call w) = Inr a"
  shows "\<exists>cb'. guarded R call cb w = (Inr a, cb', snd (call w)) \<and> cb_state cb' = StateClosed"
  using assms
  by (cases "call w")
    (auto simp: guarded_def cb_Execute_def cb_Allow_def in_closure_def cb_RecordSuccess_def Let_def)

end
