(* ===== verification/Framing.thy ===== *)
theory Framing
  imports Prelude
begin

unbundle bit_operations_syntax

text \<open>
  The framing of packets on a libp2p stream, from the end of
  \<open>src/services/agent/internal/p2p/bridge.go\<close>: a packet is sent as its length in two bytes, most
  significant first, and its bytes. The stream is not code of the repository: the sending end is a
  write operation with the laws of the locale \<open>out_stream\<close>, the receiving end is the bytes that
  arrive with the error that ends them, as \<open>io.Reader\<close> and \<open>io.ReadFull\<close> document it.
\<close>

type_synonym bytes = "8 word list"

section \<open>encoding/binary and io\<close>

text \<open>\<open>binary.BigEndian.PutUint16\<close> and \<open>Uint16\<close>.\<close>

definition PutUint16 :: "16 word \<Rightarrow> bytes" where
  "PutUint16 v = [ucast (drop_bit 8 v), ucast v]"

definition Uint16 :: "bytes \<Rightarrow> 16 word" where
  "Uint16 b = (ucast (b ! 1) OR push_bit 8 (ucast (b ! 0)))"

text \<open>What is left to read: the bytes still to come and the error behind them.\<close>

datatype read_error = EOF | UnexpectedEOF | ReadFailed go_error

record reader =
  rd_bytes :: bytes
  rd_end :: read_error

text \<open>\<open>io.ReadFull\<close> for \<open>k\<close> bytes: all of them, or the error; an end of file after some of the
  bytes is unexpected.\<close>

definition ReadFull :: "nat \<Rightarrow> reader \<Rightarrow> (read_error + bytes) \<times> reader" where
  "ReadFull k r =
     (if k \<le> length (rd_bytes r) then (Inr (take k (rd_bytes r)), r\<lparr>rd_bytes := drop k (rd_bytes r)\<rparr>)
      else (Inl (if rd_bytes r \<noteq> [] \<and> rd_end r = EOF then UnexpectedEOF else rd_end r), r\<lparr>rd_bytes := []\<rparr>))"

section \<open>Packets\<close>

definition writePacket ::
  "(bytes \<Rightarrow> 'w \<Rightarrow> go_error option \<times> 'w) \<Rightarrow> bytes \<Rightarrow> 'w \<Rightarrow> go_error option \<times> 'w" where
  "writePacket put data w =
     (let header = PutUint16 (word_of_nat (length data)) in
      case put header w of
        (Some err, w1) \<Rightarrow> (Some err, w1)
      | (None, w1) \<Rightarrow> put data w1)"

definition readPacket :: "reader \<Rightarrow> (read_error + bytes) \<times> reader" where
  "readPacket r =
     (case ReadFull 2 r of
        (Inl err, r1) \<Rightarrow> (Inl err, r1)
      | (Inr header, r1) \<Rightarrow> ReadFull (unat (Uint16 header)) r1)"

text \<open>The bytes of a packet on the stream.\<close>

definition frame :: "bytes \<Rightarrow> bytes" where
  "frame data = PutUint16 (word_of_nat (length data)) @ data"

lemma length_PutUint16 [simp]: "length (PutUint16 v) = 2"
  by (simp add: PutUint16_def)

lemma Uint16_PutUint16 [simp]: "Uint16 (PutUint16 v) = v"
  unfolding PutUint16_def Uint16_def
  by (rule bit_word_eqI) (auto simp: bit_simps)

lemma length_frame [simp]: "length (frame d) = length d + 2"
  by (simp add: frame_def)

text \<open>A packet is read back whole, and the rest of the stream is left.\<close>

lemma readPacket_frame:
  assumes "length d < 65536"
  shows "readPacket \<lparr>rd_bytes = frame d @ r, rd_end = e\<rparr> = (Inr d, \<lparr>rd_bytes = r, rd_end = e\<rparr>)"
proof -
  have "unat (word_of_nat (length d) :: 16 word) = length d"
    using assms by (simp add: unat_of_nat take_bit_nat_eq_self)
  then show ?thesis by (simp add: readPacket_def ReadFull_def frame_def)
qed

text \<open>A part of a packet gives an error: end of file where the stream ends in front of the packet or
  just behind its header, an unexpected one elsewhere.\<close>

lemma readPacket_partial:
  assumes "length d < 65536" and "k < length (frame d)"
  shows "\<exists>err r. readPacket \<lparr>rd_bytes = take k (frame d), rd_end = e\<rparr> = (Inl err, r)
    \<and> (err = EOF \<longrightarrow> e = EOF \<and> (k = 0 \<or> k = 2))"
proof (cases "k < 2")
  case True
  have "length (take k (frame d)) = k" using assms(2) by simp
  with True show ?thesis by (auto simp: readPacket_def ReadFull_def simp flip: length_greater_0_conv simp del: length_take)
next
  case False
  have "unat (word_of_nat (length d) :: 16 word) = length d"
    using assms(1) by (simp add: unat_of_nat take_bit_nat_eq_self)
  moreover from False have "take k (frame d) = PutUint16 (word_of_nat (length d)) @ take (k - 2) d"
    by (simp add: frame_def)
  ultimately show ?thesis using False assms(2) by (auto simp: readPacket_def ReadFull_def)
qed

lemma readPacket_less:
  "readPacket r = (Inr d, r') \<Longrightarrow> length (rd_bytes r') < length (rd_bytes r)"
  by (auto simp: readPacket_def ReadFull_def split: if_splits)

section \<open>Receiving\<close>

text \<open>\<open>streamToUDP\<close>: packets are read until an error and sent to WireGuard's port; an error of
  sending is logged and ignored. The result is the error that ended the loop.\<close>

function streamToUDP ::
  "(int \<Rightarrow> bytes \<Rightarrow> 'w \<Rightarrow> go_error option \<times> 'w) \<Rightarrow> int \<Rightarrow> reader \<Rightarrow> 'w \<Rightarrow> read_error \<times> 'w" where
  "streamToUDP sendUDP wgPort r w =
     (case readPacket r of
        (Inl err, r1) \<Rightarrow> (err, w)
      | (Inr pkt, r1) \<Rightarrow> streamToUDP sendUDP wgPort r1 (snd (sendUDP wgPort pkt w)))"
  by pat_completeness auto
termination
  by (relation "measure (\<lambda>(_, _, r, _). length (rd_bytes r))") (auto dest!: readPacket_less [OF sym])

declare streamToUDP.simps [simp del]

text \<open>The packets a receiver sends on, in order.\<close>

definition receive :: "reader \<Rightarrow> read_error \<times> bytes list" where
  "receive r = streamToUDP (\<lambda>_ pkt ps. (None, ps @ [pkt])) 0 r []"

lemma streamToUDP_frames:
  assumes "\<forall>d \<in> set ds. length d < 65536"
  shows "streamToUDP sendUDP p \<lparr>rd_bytes = concat (map frame ds) @ rest, rd_end = e\<rparr> w
    = streamToUDP sendUDP p \<lparr>rd_bytes = rest, rd_end = e\<rparr> (fold (\<lambda>d w. snd (sendUDP p d w)) ds w)"
  using assms
proof (induction ds arbitrary: w)
  case (Cons d ds)
  then show ?case by (subst streamToUDP.simps) (simp add: readPacket_frame)
qed simp

lemma fold_snoc: "fold (\<lambda>d ps. snd (None, ps @ [d])) ds ps = ps @ ds"
  by (induction ds arbitrary: ps) auto

lemma receive_frames:
  assumes "\<forall>d \<in> set ds. length d < 65536"
  shows "receive \<lparr>rd_bytes = concat (map frame ds) @ rest, rd_end = e\<rparr>
    = (let (err, w) = streamToUDP (\<lambda>_ pkt ps. (None, ps @ [pkt])) 0 \<lparr>rd_bytes = rest, rd_end = e\<rparr> ds in (err, w))"
  unfolding receive_def streamToUDP_frames [OF assms] by (simp add: fold_snoc [simplified])

lemma receive_all:
  assumes "\<forall>d \<in> set ds. length d < 65536"
  shows "receive \<lparr>rd_bytes = concat (map frame ds), rd_end = e\<rparr> = (e, ds)"
  using receive_frames [OF assms, of "[]" e]
  by (simp add: streamToUDP.simps [of _ _ "\<lparr>rd_bytes = [], rd_end = e\<rparr>"] readPacket_def ReadFull_def)

lemma receive_cut:
  assumes "\<forall>d \<in> set ds. length d < 65536" and "length d < 65536" "k < length (frame d)"
  shows "snd (receive \<lparr>rd_bytes = concat (map frame ds) @ take k (frame d), rd_end = e\<rparr>) = ds"
proof -
  obtain err r where "readPacket \<lparr>rd_bytes = take k (frame d), rd_end = e\<rparr> = (Inl err, r)"
    using readPacket_partial [OF assms(2,3)] by blast
  then show ?thesis
    unfolding receive_frames [OF assms(1)] by (subst streamToUDP.simps) simp
qed

text \<open>Every cut of a sequence of packets falls behind some of them and inside the next.\<close>

lemma take_frames:
  obtains (whole) "take k (concat (map frame ds)) = concat (map frame ds)"
  | (cut) j i where "j < length ds" "i < length (frame (ds ! j))"
      "take k (concat (map frame ds)) = concat (map frame (take j ds)) @ take i (frame (ds ! j))"
proof (induction ds arbitrary: k thesis)
  case Nil
  then show ?case by simp
next
  case (Cons d ds)
  show ?case
  proof (cases "k < length (frame d)")
    case True
    then show ?thesis by (intro Cons.prems(2) [of 0 k]) auto
  next
    case False
    show ?thesis
    proof (rule Cons.IH [of "k - length (frame d)"])
      assume "take (k - length (frame d)) (concat (map frame ds)) = concat (map frame ds)"
      with False show ?thesis by (intro Cons.prems(1)) simp
    next
      fix j i
      assume "j < length ds" "i < length (frame (ds ! j))"
        "take (k - length (frame d)) (concat (map frame ds)) = concat (map frame (take j ds)) @ take i (frame (ds ! j))"
      with False show ?thesis by (intro Cons.prems(2) [of "Suc j" i]) auto
    qed
  qed
qed

lemma receive_take:
  assumes "\<forall>d \<in> set ds. length d < 65536"
  shows "\<exists>j. snd (receive \<lparr>rd_bytes = take k (concat (map frame ds)), rd_end = e\<rparr>) = take j ds"
proof (rule take_frames [of k ds])
  assume "take k (concat (map frame ds)) = concat (map frame ds)"
  with receive_all [OF assms, of e] show ?thesis by (intro exI [of _ "length ds"]) simp
next
  fix j i
  assume j: "j < length ds" "i < length (frame (ds ! j))"
    "take k (concat (map frame ds)) = concat (map frame (take j ds)) @ take i (frame (ds ! j))"
  have "\<forall>d \<in> set (take j ds). length d < 65536" "length (ds ! j) < 65536"
    using assms j(1) by (auto dest: in_set_takeD)
  with j receive_cut [of "take j ds" "ds ! j" i e] show ?thesis by auto
qed

section \<open>Sending\<close>

text \<open>A stream that is written to: \<open>sent\<close> is what the other end can read. A write sends its bytes,
  or fails with a part of them sent; after a failure the stream is broken and sends no more.\<close>

locale out_stream =
  fixes put :: "bytes \<Rightarrow> 'w \<Rightarrow> go_error option \<times> 'w" and sent :: "'w \<Rightarrow> bytes" and broken :: "'w \<Rightarrow> bool"
  assumes put_ok: "put d w = (None, w') \<Longrightarrow> \<not> broken w \<and> \<not> broken w' \<and> sent w' = sent w @ d"
    and put_fails: "put d w = (Some err, w') \<Longrightarrow> broken w' \<and> (\<exists>k. sent w' = sent w @ take k d)"
    and put_broken: "broken w \<Longrightarrow> sent (snd (put d w)) = sent w"
begin

lemma writePacket_broken: "broken w \<Longrightarrow> sent (snd (writePacket put d w)) = sent w \<and> broken (snd (writePacket put d w))"
proof -
  assume b: "broken w"
  obtain e w1 where w1: "put (PutUint16 (word_of_nat (length d))) w = (e, w1)" by fastforce
  with b put_ok obtain err where "e = Some err" by (cases e) auto
  with w1 put_fails [of _ w err w1] put_broken [OF b] show ?thesis
    by (metis (no_types, lifting) old.prod.case option.simps(5) snd_conv writePacket_def)
qed

lemma writePacket_sent:
  assumes "\<not> broken w" and "writePacket put d w = (e, w')"
  obtains (complete) "e = None" "\<not> broken w'" "sent w' = sent w @ frame d"
  | (partial) k where "e \<noteq> None" "broken w'" "sent w' = sent w @ take k (frame d)"
proof -
  let ?h = "PutUint16 (word_of_nat (length d))"
  obtain e1 w1 where w1: "put ?h w = (e1, w1)" by fastforce
  show thesis
  proof (cases e1)
    case (Some err)
    with w1 assms(2) have e: "e = Some err" "w' = w1" by (auto simp: writePacket_def Let_def)
    from put_fails [of ?h w err w1] w1 Some obtain k where "broken w1" "sent w1 = sent w @ take k ?h" by auto
    with e show thesis by (intro partial [of "min k 2"]) (auto simp: frame_def min_def)
  next
    case None
    with w1 assms(2) have w': "put d w1 = (e, w')" by (simp add: writePacket_def Let_def)
    from put_ok [of ?h w w1] w1 None have s1: "\<not> broken w1" "sent w1 = sent w @ ?h" by auto
    show thesis
    proof (cases e)
      case None
      with w' put_ok [of d w1 w'] s1 show thesis by (intro complete) (auto simp: frame_def)
    next
      case (Some err)
      with w' put_fails [of d w1 err w'] obtain k where "broken w'" "sent w' = sent w1 @ take k d" by auto
      with s1 Some show thesis by (intro partial [of "k + 2"]) (auto simp: frame_def)
    qed
  qed
qed

end

text \<open>A pipe that breaks after a number of bytes.\<close>

record pipe =
  pipe_sent :: bytes
  pipe_room :: nat
  pipe_broken :: bool

definition pipe_write :: "bytes \<Rightarrow> pipe \<Rightarrow> go_error option \<times> pipe" where
  "pipe_write d w =
     (if pipe_broken w then (Some (Plain ''stream reset''), w)
      else if length d \<le> pipe_room w
           then (None, w\<lparr>pipe_sent := pipe_sent w @ d, pipe_room := pipe_room w - length d\<rparr>)
           else (Some (Plain ''stream reset''),
                 w\<lparr>pipe_sent := pipe_sent w @ take (pipe_room w) d, pipe_room := 0, pipe_broken := True\<rparr>))"

interpretation pipe_stream: out_stream pipe_write pipe_sent pipe_broken
  by unfold_locales (auto simp: pipe_write_def split: if_splits)

end
