(* ===== verification/Bridge.thy ===== *)
theory Bridge
  imports Framing Go_Std "HOL-Library.List_Lexorder" "HOL-Library.Char_ord"
begin

text \<open>
  The bridge between the local WireGuard and the peers
  (\<open>src/services/agent/internal/p2p/bridge.go\<close>) and the libp2p manager it runs on
  (\<open>host.go\<close>). Each peer has a relay: a UDP socket on a port of its own, and the stream to
  the peer. Relays are shared between goroutines, so they live in a store, the list \<open>b_relays\<close>,
  and the map of peers and the goroutines refer to them by index. The bodies that hold the mutex
  are one function each; an operation that takes it twice is the composition of two, and the
  interleavings are sequences of these sections. Listening on a port and opening a stream are
  calls into a world of type \<open>'w\<close>.
\<close>

section \<open>Data\<close>

definition ProtocolWG :: string where
  "ProtocolWG = ''/gordion/wg/1.0.0''"

text \<open>\<open>pr_cancelled\<close>: the relay's context is cancelled and its socket closed.\<close>

record peerRelay =
  pr_proxyPort :: int
  pr_stream :: "nat option"
  pr_cancelled :: bool

text \<open>A goroutine: from a relay's socket to its stream, or from a stream to a relay's socket.\<close>

datatype task = UdpToStream nat | StreamToUDP nat nat

text \<open>\<open>b_host\<close> is the host's own id; \<open>b_closed\<close> are the streams the bridge reset or closed.\<close>

record Bridge =
  b_host :: string
  b_wgPort :: int
  b_nextPort :: int
  b_peers :: "(string \<times> nat) list"
  b_relays :: "peerRelay list"
  b_tasks :: "task list"
  b_closed :: "nat set"

definition NewBridge :: "string \<Rightarrow> int \<Rightarrow> int \<Rightarrow> Bridge" where
  "NewBridge host wgPort baseProxyPort =
     \<lparr>b_host = host, b_wgPort = wgPort, b_nextPort = baseProxyPort, b_peers = [],
      b_relays = [], b_tasks = [], b_closed = {}\<rparr>"

section \<open>Relays\<close>

text \<open>The map of peers, with its keys and values at hand.\<close>

definition drop_peer :: "string \<Rightarrow> (string \<times> nat) list \<Rightarrow> (string \<times> nat) list" where
  "drop_peer p ps = filter (\<lambda>x. fst x \<noteq> p) ps"

definition put_peer :: "string \<Rightarrow> nat \<Rightarrow> (string \<times> nat) list \<Rightarrow> (string \<times> nat) list" where
  "put_peer p i ps = (p, i) # drop_peer p ps"

definition listen_error :: "int \<Rightarrow> go_error \<Rightarrow> go_error" where
  "listen_error port err = Wrapped (''bridge: failed to listen on UDP '' @ itoa port) err"

definition allocateRelayNoStream ::
  "(int \<Rightarrow> 'w \<Rightarrow> go_error option \<times> 'w) \<Rightarrow> string \<Rightarrow> Bridge \<Rightarrow> 'w \<Rightarrow> int result \<times> Bridge \<times> 'w" where
  "allocateRelayNoStream listen peerID b w =
     (let port = b_nextPort b; b = b\<lparr>b_nextPort := port + 1\<rparr> in
      case listen port w of
        (Some err, w1) \<Rightarrow> (Inl (listen_error port err), b, w1)
      | (None, w1) \<Rightarrow>
          let relay = \<lparr>pr_proxyPort = port, pr_stream = None, pr_cancelled = False\<rparr>; i = length (b_relays b) in
          (Inr port,
           b\<lparr>b_relays := b_relays b @ [relay], b_peers := put_peer peerID i (b_peers b),
             b_tasks := b_tasks b @ [UdpToStream i]\<rparr>, w1))"

text \<open>Putting a stream into a relay; the stream it had is reset.\<close>

definition set_stream :: "nat \<Rightarrow> nat \<Rightarrow> Bridge \<Rightarrow> Bridge" where
  "set_stream i stream b =
     (let relay = b_relays b ! i in
      b\<lparr>b_closed := (case pr_stream relay of Some old \<Rightarrow> insert old (b_closed b) | None \<Rightarrow> b_closed b),
        b_relays := (b_relays b)[i := relay\<lparr>pr_stream := Some stream\<rparr>],
        b_tasks := b_tasks b @ [StreamToUDP stream i]\<rparr>)"

definition allocateRelay ::
  "(int \<Rightarrow> 'w \<Rightarrow> go_error option \<times> 'w) \<Rightarrow> string \<Rightarrow> nat \<Rightarrow> Bridge \<Rightarrow> 'w \<Rightarrow> int result \<times> Bridge \<times> 'w" where
  "allocateRelay listen peerID stream b w =
     (case map_of (b_peers b) peerID of
        Some i \<Rightarrow> (Inr (pr_proxyPort (b_relays b ! i)), set_stream i stream b, w)
      | None \<Rightarrow>
          let port = b_nextPort b; b = b\<lparr>b_nextPort := port + 1\<rparr> in
          (case listen port w of
             (Some err, w1) \<Rightarrow> (Inl (listen_error port err), b, w1)
           | (None, w1) \<Rightarrow>
               let relay = \<lparr>pr_proxyPort = port, pr_stream = Some stream, pr_cancelled = False\<rparr>;
                   i = length (b_relays b) in
               (Inr port,
                b\<lparr>b_relays := b_relays b @ [relay], b_peers := put_peer peerID i (b_peers b),
                  b_tasks := b_tasks b @ [UdpToStream i, StreamToUDP stream i]\<rparr>, w1)))"

section \<open>Operations\<close>

definition close_stream :: "nat \<Rightarrow> Bridge \<Rightarrow> Bridge" where
  "close_stream s b = b\<lparr>b_closed := insert s (b_closed b)\<rparr>"

text \<open>The first section of the handler of an incoming stream, for a relay that has a stream
  already: \<open>None\<close> when the handler goes on to allocate a relay.\<close>

definition replace_stream :: "string \<Rightarrow> nat \<Rightarrow> Bridge \<Rightarrow> Bridge option" where
  "replace_stream remote s b =
     (case map_of (b_peers b) remote of
        Some i \<Rightarrow> if pr_stream (b_relays b ! i) \<noteq> None then Some (set_stream i s b) else None
      | None \<Rightarrow> None)"

definition RegisterIncoming ::
  "(int \<Rightarrow> 'w \<Rightarrow> go_error option \<times> 'w) \<Rightarrow> string \<Rightarrow> nat \<Rightarrow> Bridge \<Rightarrow> 'w \<Rightarrow> Bridge \<times> 'w" where
  "RegisterIncoming listen remote s b w =
     (case replace_stream remote s b of
        Some b' \<Rightarrow> (b', w)
      | None \<Rightarrow>
          (case allocateRelay listen remote s b w of
             (Inl err, b', w') \<Rightarrow> (close_stream s b', w')
           | (Inr port, b', w') \<Rightarrow> (b', w')))"

text \<open>Only the host with the larger id opens the stream; the other one waits for it.\<close>

definition bridge_AddPeer ::
  "(int \<Rightarrow> 'w \<Rightarrow> go_error option \<times> 'w) \<Rightarrow> (string \<Rightarrow> 'w \<Rightarrow> nat result \<times> 'w) \<Rightarrow> string \<Rightarrow> Bridge \<Rightarrow> 'w
    \<Rightarrow> int result \<times> Bridge \<times> 'w" where
  "bridge_AddPeer listen NewStream peerID b w =
     (if b_host b < peerID then
        (case map_of (b_peers b) peerID of
           Some i \<Rightarrow> (Inr (pr_proxyPort (b_relays b ! i)), b, w)
         | None \<Rightarrow> allocateRelayNoStream listen peerID b w)
      else
        (case NewStream peerID w of
           (Inl err, w1) \<Rightarrow> (Inl (Wrapped (''bridge: stream to '' @ peerID @ '' failed'') err), b, w1)
         | (Inr stream, w1) \<Rightarrow>
             (case allocateRelay listen peerID stream b w1 of
                (Inl err, b', w2) \<Rightarrow> (Inl err, close_stream stream b', w2)
              | (Inr port, b', w2) \<Rightarrow> (Inr port, b', w2))))"

text \<open>Cancelling a relay: its context, its stream, its socket.\<close>

definition stop_relay :: "nat \<Rightarrow> Bridge \<Rightarrow> Bridge" where
  "stop_relay i b =
     (let relay = b_relays b ! i in
      b\<lparr>b_relays := (b_relays b)[i := relay\<lparr>pr_cancelled := True\<rparr>],
        b_closed := (case pr_stream relay of Some s \<Rightarrow> insert s (b_closed b) | None \<Rightarrow> b_closed b)\<rparr>)"

definition bridge_RemovePeer :: "string \<Rightarrow> Bridge \<Rightarrow> Bridge" where
  "bridge_RemovePeer peerID b =
     (case map_of (b_peers b) peerID of
        None \<Rightarrow> b
      | Some i \<Rightarrow> stop_relay i (b\<lparr>b_peers := drop_peer peerID (b_peers b)\<rparr>))"

definition GetProxyPort :: "string \<Rightarrow> Bridge \<Rightarrow> int \<times> bool" where
  "GetProxyPort peerID b =
     (case map_of (b_peers b) peerID of
        None \<Rightarrow> (0, False)
      | Some i \<Rightarrow> (pr_proxyPort (b_relays b ! i), True))"

definition bridge_Close :: "Bridge \<Rightarrow> Bridge" where
  "bridge_Close b =
     fold stop_relay (map snd (b_peers b)) (b\<lparr>b_peers := []\<rparr>)"

section \<open>The relay's loop\<close>

text \<open>One turn of \<open>udpToStream\<close>: \<open>b0\<close> is the bridge when the turn starts, \<open>rd\<close> what the socket
  gives, \<open>b1\<close> the bridge after that. The result tells whether the loop goes on.\<close>

definition udpToStream_turn ::
  "(nat \<Rightarrow> bytes \<Rightarrow> 'w \<Rightarrow> go_error option \<times> 'w) \<Rightarrow> nat \<Rightarrow> Bridge \<Rightarrow> bytes result \<Rightarrow> Bridge \<Rightarrow> 'w \<Rightarrow> bool \<times> 'w" where
  "udpToStream_turn put i b0 rd b1 w =
     (if pr_cancelled (b_relays b0 ! i) then (False, w)
      else case rd of
        Inl err \<Rightarrow> (\<not> pr_cancelled (b_relays b1 ! i), w)
      | Inr pkt \<Rightarrow>
          (case pr_stream (b_relays b1 ! i) of
             None \<Rightarrow> (True, w)
           | Some s \<Rightarrow> (case writePacket (put s) (take 65535 pkt) w of (_, w1) \<Rightarrow> (True, w1))))"

fun udpToStream ::
  "(nat \<Rightarrow> bytes \<Rightarrow> 'w \<Rightarrow> go_error option \<times> 'w) \<Rightarrow> nat \<Rightarrow> (Bridge \<times> bytes result \<times> Bridge) list \<Rightarrow> 'w \<Rightarrow> 'w" where
  "udpToStream put i [] w = w"
| "udpToStream put i ((b0, rd, b1) # turns) w =
     (case udpToStream_turn put i b0 rd b1 w of
        (True, w1) \<Rightarrow> udpToStream put i turns w1
      | (False, w1) \<Rightarrow> w1)"

section \<open>The libp2p manager\<close>

record p2p_Manager =
  host_ID :: string
  host_Addrs :: "string list"

definition listenAddr :: "int \<Rightarrow> string" where
  "listenAddr listenPort = ''/ip4/0.0.0.0/tcp/'' @ itoa listenPort"

definition p2p_New :: "(string \<Rightarrow> p2p_Manager result) \<Rightarrow> int \<Rightarrow> p2p_Manager result" where
  "p2p_New libp2p listenPort =
     (case libp2p (listenAddr listenPort) of
        Inl err \<Rightarrow> Inl (Wrapped ''failed to create libp2p host'' err)
      | Inr h \<Rightarrow> Inr h)"

definition PeerID_p2p :: "p2p_Manager \<Rightarrow> string" where
  "PeerID_p2p m = host_ID m"

definition Multiaddrs :: "p2p_Manager \<Rightarrow> string list" where
  "Multiaddrs m = map (\<lambda>addr. addr @ ''/p2p/'' @ host_ID m) (host_Addrs m)"

definition GetPeerInfo ::
  "(string \<Rightarrow> 'm result) \<Rightarrow> ('m \<Rightarrow> string result) \<Rightarrow> string \<Rightarrow> string result" where
  "GetPeerInfo NewMultiaddr AddrInfoFromP2pAddr addrStr =
     (case NewMultiaddr addrStr of
        Inl err \<Rightarrow> Inl err
      | Inr addr \<Rightarrow> AddrInfoFromP2pAddr addr)"

definition ConnectAndPing ::
  "(string \<Rightarrow> 'w \<Rightarrow> go_error option \<times> 'w) \<Rightarrow> (string \<Rightarrow> 'w \<Rightarrow> go_error option \<times> 'w) \<Rightarrow> string \<Rightarrow> 'w
    \<Rightarrow> go_error option \<times> 'w" where
  "ConnectAndPing Connect ping pInfo w =
     (case Connect pInfo w of
        (Some err, w1) \<Rightarrow> (Some (Wrapped ''p2p connect failed'' err), w1)
      | (None, w1) \<Rightarrow>
          (case ping pInfo w1 of
             (Some err, w2) \<Rightarrow> (Some (Wrapped ''p2p ping failed'' err), w2)
           | (None, w2) \<Rightarrow> (None, w2)))"

section \<open>Interleavings\<close>

text \<open>The sections that hold the mutex, in any order: \<open>SNoStream\<close> and \<open>SStream\<close> allocate a relay,
  \<open>SIncoming\<close> is the first section of the handler of incoming streams.\<close>

datatype bridge_section = SNoStream string | SStream string nat | SIncoming string nat | SRemove string | SClose

fun bridge_do ::
  "(int \<Rightarrow> 'w \<Rightarrow> go_error option \<times> 'w) \<Rightarrow> bridge_section \<Rightarrow> Bridge \<times> 'w \<Rightarrow> Bridge \<times> 'w" where
  "bridge_do listen (SNoStream p) (b, w) = snd (allocateRelayNoStream listen p b w)"
| "bridge_do listen (SStream p s) (b, w) = snd (allocateRelay listen p s b w)"
| "bridge_do listen (SIncoming p s) (b, w) = (case replace_stream p s b of Some b' \<Rightarrow> b' | None \<Rightarrow> b, w)"
| "bridge_do listen (SRemove p) (b, w) = (bridge_RemovePeer p b, w)"
| "bridge_do listen SClose (b, w) = (bridge_Close b, w)"

definition bridge_run ::
  "(int \<Rightarrow> 'w \<Rightarrow> go_error option \<times> 'w) \<Rightarrow> bridge_section list \<Rightarrow> Bridge \<times> 'w \<Rightarrow> Bridge \<times> 'w" where
  "bridge_run listen = fold (bridge_do listen)"

text \<open>Every peer has a relay of its own that is not stopped, and the ports grow with the relays.\<close>

definition bridge_inv :: "int \<Rightarrow> Bridge \<Rightarrow> bool" where
  "bridge_inv base b \<longleftrightarrow>
     sorted_wrt (<) (map pr_proxyPort (b_relays b))
     \<and> set (map pr_proxyPort (b_relays b)) \<subseteq> {base ..< b_nextPort b}
     \<and> base \<le> b_nextPort b
     \<and> (\<forall>(p, i) \<in> set (b_peers b). i < length (b_relays b) \<and> \<not> pr_cancelled (b_relays b ! i)
          \<and> UdpToStream i \<in> set (b_tasks b))
     \<and> distinct (map fst (b_peers b)) \<and> distinct (map snd (b_peers b))"

lemma set_drop_peer: "set (drop_peer p ps) = {x \<in> set ps. fst x \<noteq> p}"
  by (auto simp: drop_peer_def)

lemma distinct_drop_peer:
  "distinct (map fst ps) \<Longrightarrow> distinct (map fst (drop_peer p ps))"
  "distinct (map snd ps) \<Longrightarrow> distinct (map snd (drop_peer p ps))"
  by (simp_all add: drop_peer_def distinct_map_filter)

lemma map_of_put_peer: "map_of (put_peer p i ps) q = (if q = p then Some i else map_of ps q)"
proof -
  have "map_of (drop_peer p ps) q = map_of ps q" if "q \<noteq> p"
    using that by (induction ps) (auto simp: drop_peer_def)
  then show ?thesis by (simp add: put_peer_def)
qed

lemma map_of_drop_peer: "map_of (drop_peer p ps) q = (if q = p then None else map_of ps q)"
  by (induction ps) (auto simp: drop_peer_def)

text \<open>A new relay, at the next port.\<close>

lemma bridge_inv_new:
  assumes "bridge_inv base b" and "r = \<lparr>pr_proxyPort = b_nextPort b, pr_stream = s, pr_cancelled = False\<rparr>"
    and "b' = b\<lparr>b_nextPort := b_nextPort b + 1, b_relays := b_relays b @ [r],
       b_peers := put_peer p (length (b_relays b)) (b_peers b),
       b_tasks := b_tasks b @ UdpToStream (length (b_relays b)) # ts\<rparr>"
  shows "bridge_inv base b'"
  using assms unfolding bridge_inv_def
  by (auto simp: sorted_wrt_append put_peer_def set_drop_peer distinct_drop_peer nth_append)

lemma bridge_inv_next: "bridge_inv base b \<Longrightarrow> bridge_inv base (b\<lparr>b_nextPort := b_nextPort b + 1\<rparr>)"
  by (auto simp: bridge_inv_def)

lemma map_update_same: "f y = f (xs ! i) \<Longrightarrow> map f (xs[i := y]) = map f xs"
  by (metis list_update_id map_update)

lemma nth_update: "xs[i := y] ! j = (if i = j \<and> i < length xs then y else xs ! j)"
  by (cases "i < length xs") (auto simp: nth_list_update list_update_beyond)

text \<open>A step that keeps the ports, the peers and their relays keeps the invariant.\<close>

lemma bridge_inv_cong:
  assumes "bridge_inv base b" and "map pr_proxyPort (b_relays b') = map pr_proxyPort (b_relays b)"
    and "b_nextPort b' = b_nextPort b" "b_peers b' = b_peers b" "set (b_tasks b) \<subseteq> set (b_tasks b')"
    and "\<And>j. j \<in> snd ` set (b_peers b) \<Longrightarrow> j < length (b_relays b) \<Longrightarrow>
      pr_cancelled (b_relays b' ! j) = pr_cancelled (b_relays b ! j)"
  shows "bridge_inv base b'"
proof -
  have "length (b_relays b') = length (b_relays b)" using assms(2) by (metis length_map)
  with assms show ?thesis unfolding bridge_inv_def by (fastforce simp: rev_image_eqI)
qed

lemma bridge_inv_set_stream: "bridge_inv base b \<Longrightarrow> bridge_inv base (set_stream i s b)"
  by (erule bridge_inv_cong) (auto simp: set_stream_def Let_def map_update_same nth_update)

lemma stop_relay_inv: "bridge_inv base b \<Longrightarrow> i \<notin> snd ` set (b_peers b) \<Longrightarrow> bridge_inv base (stop_relay i b)"
  by (erule bridge_inv_cong) (auto simp: stop_relay_def Let_def map_update_same nth_update)

lemma stop_relay_peers [simp]: "b_peers (stop_relay i b) = b_peers b"
  by (simp add: stop_relay_def Let_def)

lemma bridge_inv_drop: "bridge_inv base b \<Longrightarrow> bridge_inv base (b\<lparr>b_peers := drop_peer p (b_peers b)\<rparr>)"
  by (auto simp: bridge_inv_def set_drop_peer distinct_drop_peer)

lemma RemovePeer_inv:
  assumes "bridge_inv base b"
  shows "bridge_inv base (bridge_RemovePeer p b)"
proof (cases "map_of (b_peers b) p")
  case (Some i)
  then have "(p, i) \<in> set (b_peers b)" by (rule map_of_SomeD)
  moreover have "inj_on snd (set (b_peers b))" using assms by (simp add: bridge_inv_def distinct_map)
  ultimately have "a = p" if "(a, i) \<in> set (b_peers b)" for a
    using that inj_onD [of snd "set (b_peers b)" "(a, i)" "(p, i)"] by simp
  then have "i \<notin> snd ` set (drop_peer p (b_peers b))" by (auto simp: set_drop_peer)
  with Some bridge_inv_drop [OF assms] show ?thesis
    by (simp add: bridge_RemovePeer_def stop_relay_inv)
qed (simp add: bridge_RemovePeer_def assms)

lemma Close_inv:
  assumes "bridge_inv base b"
  shows "bridge_inv base (bridge_Close b)"
proof -
  have "bridge_inv base (fold stop_relay is c)" if "bridge_inv base c" "b_peers c = []" for c "is"
    using that by (induction "is" arbitrary: c) (auto simp: stop_relay_inv)
  moreover have "bridge_inv base (b\<lparr>b_peers := []\<rparr>)" using assms by (auto simp: bridge_inv_def)
  ultimately show ?thesis by (simp add: bridge_Close_def)
qed

lemma bridge_do_inv:
  assumes "bridge_inv base (fst x)"
  shows "bridge_inv base (fst (bridge_do listen c x))"
proof (cases x)
  case (Pair b w)
  with assms have inv: "bridge_inv base b" by simp
  show ?thesis
  proof (cases c)
    case (SNoStream p)
    with Pair show ?thesis
      by (auto simp: allocateRelayNoStream_def Let_def bridge_inv_next [OF inv] split: prod.split option.split
          intro!: bridge_inv_new [OF inv refl])
  next
    case (SStream p s)
    with Pair show ?thesis
      by (auto simp: allocateRelay_def Let_def bridge_inv_next [OF inv] bridge_inv_set_stream [OF inv]
          split: prod.split option.split intro!: bridge_inv_new [OF inv refl])
  next
    case (SIncoming p s)
    with Pair inv show ?thesis
      by (auto simp: replace_stream_def bridge_inv_set_stream split: option.split)
  qed (use Pair inv in \<open>simp_all add: RemovePeer_inv Close_inv\<close>)
qed

lemma bridge_run_inv: "bridge_inv base (fst x) \<Longrightarrow> bridge_inv base (fst (bridge_run listen cs x))"
  unfolding bridge_run_def by (induction cs arbitrary: x) (auto simp: bridge_do_inv)

lemma NewBridge_inv: "bridge_inv base (NewBridge host wg base)"
  by (simp add: bridge_inv_def NewBridge_def)

section \<open>Lemmas on the operations\<close>

text \<open>The relay of a peer, if it has one.\<close>

definition relay_of :: "Bridge \<Rightarrow> string \<Rightarrow> peerRelay option" where
  "relay_of b p = map_option (\<lambda>i. b_relays b ! i) (map_of (b_peers b) p)"

lemma GetProxyPort_relay: "GetProxyPort p b = (case relay_of b p of None \<Rightarrow> (0, False) | Some r \<Rightarrow> (pr_proxyPort r, True))"
  by (simp add: GetProxyPort_def relay_of_def split: option.split)

lemma relay_of_set_stream:
  assumes "bridge_inv base b" and "map_of (b_peers b) p = Some i"
  shows "relay_of (set_stream i s b) p = Some ((b_relays b ! i)\<lparr>pr_stream := Some s\<rparr>)"
proof -
  have "i < length (b_relays b)" using assms by (auto simp: bridge_inv_def dest!: map_of_SomeD)
  with assms(2) show ?thesis by (simp add: relay_of_def set_stream_def Let_def)
qed

lemma relay_of_new:
  "b_relays b' = b_relays b @ [r] \<Longrightarrow> b_peers b' = put_peer p (length (b_relays b)) ps \<Longrightarrow> relay_of b' p = Some r"
  by (simp add: relay_of_def map_of_put_peer)

lemma bridge_inv_relay:
  assumes "bridge_inv base b" and "relay_of b p = Some r"
  obtains i where "map_of (b_peers b) p = Some i" "i < length (b_relays b)" "r = b_relays b ! i"
    "\<not> pr_cancelled r" "UdpToStream i \<in> set (b_tasks b)" "base \<le> pr_proxyPort r" "pr_proxyPort r < b_nextPort b"
proof -
  from assms(2) obtain i where i: "map_of (b_peers b) p = Some i" "r = b_relays b ! i"
    by (auto simp: relay_of_def)
  then have "(p, i) \<in> set (b_peers b)" by (auto dest: map_of_SomeD)
  with assms(1) have "i < length (b_relays b)" "\<not> pr_cancelled (b_relays b ! i)" "UdpToStream i \<in> set (b_tasks b)"
    by (auto simp: bridge_inv_def)
  moreover from this(1) have "pr_proxyPort (b_relays b ! i) \<in> set (map pr_proxyPort (b_relays b))" by simp
  then have "pr_proxyPort (b_relays b ! i) \<in> {base ..< b_nextPort b}" using assms(1) by (auto simp: bridge_inv_def)
  ultimately show thesis using i by (intro that [of i]) auto
qed

lemma bridge_ports_ne:
  assumes inv: "bridge_inv base b" and "relay_of b p = Some r" "relay_of b q = Some r'" "p \<noteq> q"
  shows "pr_proxyPort r \<noteq> pr_proxyPort r'"
proof -
  obtain i j where ij: "map_of (b_peers b) p = Some i" "i < length (b_relays b)" "r = b_relays b ! i"
    "map_of (b_peers b) q = Some j" "j < length (b_relays b)" "r' = b_relays b ! j"
    using bridge_inv_relay [OF inv] assms(2,3) by metis
  then have "(p, i) \<in> set (b_peers b)" "(q, j) \<in> set (b_peers b)" by (auto dest: map_of_SomeD)
  moreover have "inj_on snd (set (b_peers b))" using inv by (simp add: bridge_inv_def distinct_map)
  ultimately have "i \<noteq> j" using assms(4) inj_onD [of snd "set (b_peers b)" "(p, i)" "(q, j)"] by auto
  moreover have "distinct (map pr_proxyPort (b_relays b))"
    using inv strict_sorted_iff by (auto simp: bridge_inv_def)
  ultimately have "map pr_proxyPort (b_relays b) ! i \<noteq> map pr_proxyPort (b_relays b) ! j"
    using ij by (metis length_map nth_eq_iff_index_eq)
  with ij show ?thesis by simp
qed

context out_stream
begin

lemma udpToStream_broken:
  assumes "broken w"
  shows "sent (udpToStream (\<lambda>_. put) i turns w) = sent w \<and> broken (udpToStream (\<lambda>_. put) i turns w)"
  using assms
proof (induction turns arbitrary: w)
  case (Cons x turns)
  obtain b0 rd b1 where x: "x = (b0, rd, b1)" by (cases x)
  obtain c w1 where t: "udpToStream_turn (\<lambda>_. put) i b0 rd b1 w = (c, w1)" by fastforce
  then have "w1 = w \<or> (\<exists>pkt. w1 = snd (writePacket put pkt w))"
    by (auto simp: udpToStream_turn_def split: if_splits sum.splits option.splits prod.splits) (metis snd_conv)
  with writePacket_broken [OF Cons.prems] Cons.prems have "sent w1 = sent w" "broken w1" by auto
  with x t Cons.IH [of w1] show ?case by (cases c) auto
qed simp

text \<open>What the relay's loop has put on the stream: the frames of the packets so far or, once the
  stream is broken, a part of them.\<close>

lemma udpToStream_sent:
  assumes "\<not> broken w" and "\<forall>(b0, rd, b1) \<in> set turns. \<not> pr_cancelled (b_relays b0 ! i)
      \<and> \<not> pr_cancelled (b_relays b1 ! i) \<and> pr_stream (b_relays b1 ! i) \<noteq> None"
    and pkts: "pkts = [take 65535 p. (b0, Inr p, b1) \<leftarrow> turns]"
    and w': "w' = udpToStream (\<lambda>_. put) i turns w"
  shows "(\<not> broken w' \<and> sent w' = sent w @ concat (map frame pkts))
    \<or> (broken w' \<and> (\<exists>k. sent w' = sent w @ take k (concat (map frame pkts))))"
  using assms
proof (induction turns arbitrary: w pkts)
  case (Cons x turns)
  obtain b0 rd b1 where x: "x = (b0, rd, b1)" by (cases x)
  let ?pkts = "[take 65535 p. (b0, Inr p, b1) \<leftarrow> turns]"
  from Cons.prems(2) x obtain s where rel: "\<not> pr_cancelled (b_relays b0 ! i)" "\<not> pr_cancelled (b_relays b1 ! i)"
    "pr_stream (b_relays b1 ! i) = Some s" by auto
  have rest: "\<forall>(b0, rd, b1) \<in> set turns. \<not> pr_cancelled (b_relays b0 ! i)
      \<and> \<not> pr_cancelled (b_relays b1 ! i) \<and> pr_stream (b_relays b1 ! i) \<noteq> None" using Cons.prems(2) by auto
  show ?case
  proof (cases rd)
    case (Inl err)
    have "w' = udpToStream (\<lambda>_. put) i turns w" "pkts = ?pkts"
      using Cons.prems(3,4) x rel Inl by (simp_all add: udpToStream_turn_def)
    then show ?thesis using Cons.IH [OF Cons.prems(1) rest] by blast
  next
    case (Inr p)
    let ?d = "take 65535 p"
    obtain e w1 where w1: "writePacket put ?d w = (e, w1)" by fastforce
    have pk: "pkts = ?d # ?pkts" using Cons.prems(3) x Inr by simp
    have run: "w' = udpToStream (\<lambda>_. put) i turns w1"
      using Cons.prems(4) x rel Inr w1 by (simp add: udpToStream_turn_def)
    from Cons.prems(1) w1 show ?thesis
    proof (cases rule: writePacket_sent)
      case complete
      from Cons.IH [OF complete(2) rest refl run] consider
        "\<not> broken w'" "sent w' = sent w1 @ concat (map frame ?pkts)"
        | k where "broken w'" "sent w' = sent w1 @ take k (concat (map frame ?pkts))" by blast
      then show ?thesis
      proof cases
        case 1
        with complete pk show ?thesis by simp
      next
        case (2 k)
        with complete pk have "sent w' = sent w @ take (length (frame ?d) + k) (concat (map frame pkts))" by simp
        with 2 show ?thesis by blast
      qed
    next
      case (partial k)
      with udpToStream_broken [OF partial(2), of i turns] run
      have w': "broken w'" "sent w' = sent w @ take k (frame ?d)" by simp_all
      have "take k (frame ?d) = take (min k (length (frame ?d))) (concat (map frame pkts))"
        unfolding pk by (simp add: min_def)
      with w' show ?thesis by auto
    qed
  qed
qed simp

end

section \<open>Properties\<close>

text \<open>C7. However the operations of the bridge interleave, whichever ports can be opened, the peers
  have proxy ports of their own: two peers never share a port, every port lies in the range handed
  out so far, and the relay behind it is open and has a goroutine that reads its socket.\<close>

theorem bridge_ports_distinct:
  assumes run: "b = fst (bridge_run listen cs (NewBridge host wgPort base, w))"
    and p: "GetProxyPort p b = (m, True)" and q: "q \<noteq> p" "GetProxyPort q b = (n, True)"
  shows "m \<noteq> n \<and> base \<le> m \<and> m < b_nextPort b
    \<and> (\<exists>i. b_relays b ! i = the (relay_of b p) \<and> pr_proxyPort (b_relays b ! i) = m
          \<and> \<not> pr_cancelled (b_relays b ! i) \<and> UdpToStream i \<in> set (b_tasks b))"
proof -
  have inv: "bridge_inv base b" unfolding run by (rule bridge_run_inv) (simp add: NewBridge_inv)
  obtain r r' where r: "relay_of b p = Some r" "pr_proxyPort r = m" and r': "relay_of b q = Some r'" "pr_proxyPort r' = n"
    using p q by (auto simp: GetProxyPort_relay split: option.splits)
  from bridge_inv_relay [OF inv r(1)] obtain i where "r = b_relays b ! i" "\<not> pr_cancelled r"
    "UdpToStream i \<in> set (b_tasks b)" "base \<le> pr_proxyPort r" "pr_proxyPort r < b_nextPort b" by metis
  with bridge_ports_ne [OF inv r(1) r'(1)] q r r' show ?thesis by auto
qed

text \<open>A machine on which every port can be opened.\<close>

definition all_ports :: "int \<Rightarrow> 'w \<Rightarrow> go_error option \<times> 'w" where
  "all_ports port w = (None, w)"

theorem bridge_ports_distinct_witness:
  "(51920 :: int) \<noteq> 51921 \<and> 51920 \<le> (51920 :: int) \<and> 51920 < b_nextPort (fst (bridge_run all_ports
     [SNoStream ''p'', SStream ''q'' 7] (NewBridge ''h'' 51820 51920, ())))"
proof -
  let ?b = "fst (bridge_run all_ports [SNoStream ''p'', SStream ''q'' 7] (NewBridge ''h'' 51820 51920, ()))"
  have "GetProxyPort ''p'' ?b = (51920, True)" "GetProxyPort ''q'' ?b = (51921, True)"
    by (simp_all add: bridge_run_def NewBridge_def allocateRelayNoStream_def allocateRelay_def all_ports_def
        put_peer_def drop_peer_def GetProxyPort_def)
  from bridge_ports_distinct [OF refl this(1) _ this(2)] show ?thesis by simp
qed

text \<open>C6. The bridge delivers packets in order, unaltered, and without gaps. Whatever WireGuard sends
  to a peer's proxy port while the relay has its stream, and wherever the stream breaks or is cut,
  the packets that the other end hands to its WireGuard are the first so many of those sent (a
  packet longer than the buffer of 65535 bytes is cut to it); as long as the stream does not break
  and is read to its end, they are all of them.\<close>

theorem bridge_delivers_prefix:
  assumes stream: "out_stream put sent broken" "\<not> broken w" "sent w = []"
    and relay: "\<forall>(b0, rd, b1) \<in> set turns. \<not> pr_cancelled (b_relays b0 ! i)
      \<and> \<not> pr_cancelled (b_relays b1 ! i) \<and> pr_stream (b_relays b1 ! i) \<noteq> None"
    and pkts: "pkts = [take 65535 p. (b0, Inr p, b1) \<leftarrow> turns]"
    and w': "w' = udpToStream (\<lambda>_. put) i turns w"
  shows "(\<exists>j. snd (receive \<lparr>rd_bytes = take k (sent w'), rd_end = e\<rparr>) = take j pkts)
    \<and> (\<not> broken w' \<longrightarrow> receive \<lparr>rd_bytes = sent w', rd_end = e\<rparr> = (e, pkts))"
proof -
  have short: "\<forall>d \<in> set pkts. length d < 65536" unfolding pkts by (auto split: sum.splits)
  note out = out_stream.udpToStream_sent [OF stream(1,2) relay pkts w']
  obtain n where "sent w' = take n (concat (map frame pkts))"
    using out stream(3) take_all_iff by (metis append_Nil order_refl)
  then have "take k (sent w') = take (min k n) (concat (map frame pkts))" by (simp add: min.commute)
  then have "\<exists>j. snd (receive \<lparr>rd_bytes = take k (sent w'), rd_end = e\<rparr>) = take j pkts"
    using receive_take [OF short] by metis
  moreover have "receive \<lparr>rd_bytes = sent w', rd_end = e\<rparr> = (e, pkts)" if "\<not> broken w'"
    using out that stream(3) receive_all [OF short] by auto
  ultimately show ?thesis by blast
qed

definition demo_bridge :: Bridge where
  "demo_bridge = fst (bridge_run all_ports [SStream ''q'' 7] (NewBridge ''h'' 51820 51920, ()))"

theorem bridge_delivers_prefix_witness:
  "receive \<lparr>rd_bytes = pipe_sent (udpToStream (\<lambda>_. pipe_write) 0
      [(demo_bridge, Inr [1, 2, 3], demo_bridge), (demo_bridge, Inl (Plain ''read''), demo_bridge),
       (demo_bridge, Inr [4], demo_bridge)]
      \<lparr>pipe_sent = [], pipe_room = 100, pipe_broken = False\<rparr>), rd_end = EOF\<rparr>
   = (EOF, [[1, 2, 3], [4]])"
proof (rule bridge_delivers_prefix [OF pipe_stream.out_stream_axioms, THEN conjunct2, THEN mp, OF _ _ _ _ refl])
  show "\<not> pipe_broken (udpToStream (\<lambda>_. pipe_write) 0
      [(demo_bridge, Inr [1, 2, 3], demo_bridge), (demo_bridge, Inl (Plain ''read''), demo_bridge),
       (demo_bridge, Inr [4], demo_bridge)]
      \<lparr>pipe_sent = [], pipe_room = 100, pipe_broken = False\<rparr>)"
    by (simp add: demo_bridge_def bridge_run_def NewBridge_def allocateRelay_def all_ports_def udpToStream_turn_def
        writePacket_def pipe_write_def)
qed (simp_all add: demo_bridge_def bridge_run_def NewBridge_def allocateRelay_def all_ports_def)

text \<open>C18. Exactly one side opens the stream between two hosts, and both end up with it. The host
  with the larger id opens it when it adds the peer; the other one never does. On the waiting side
  it makes no difference whether the peer is added before or after the stream comes in: \<open>AddPeer\<close>
  returns the port of the peer's only relay, and that relay has the stream.\<close>

theorem bridge_one_side_opens:
  assumes inv: "bridge_inv base b" and new: "relay_of b p = None"
    and open_ok: "\<And>port w. fst (listen port w) = None" and NewStream: "\<And>w. NewStream p w = (Inr s, w)"
    and r: "r = \<lparr>pr_proxyPort = b_nextPort b, pr_stream = Some s, pr_cancelled = False\<rparr>"
  shows "if b_host b < p
    then (\<exists>b1 w1 b2 w2. (\<forall>NS. bridge_AddPeer listen NS p b w = (Inr (b_nextPort b), b1, w1))
            \<and> RegisterIncoming listen p s b1 w1 = (b2, w2) \<and> relay_of b2 p = Some r)
       \<and> (\<exists>b1 w1. RegisterIncoming listen p s b w = (b1, w1) \<and> relay_of b1 p = Some r
            \<and> (\<forall>NS. bridge_AddPeer listen NS p b1 w1 = (Inr (b_nextPort b), b1, w1)))
    else (\<exists>b1 w1. bridge_AddPeer listen NewStream p b w = (Inr (b_nextPort b), b1, w1) \<and> relay_of b1 p = Some r)"
proof -
  from new have none: "map_of (b_peers b) p = None" by (simp add: relay_of_def)
  obtain w1 where l: "listen (b_nextPort b) w = (None, w1)" using open_ok by (metis prod.collapse)
  note defs = bridge_AddPeer_def allocateRelay_def allocateRelayNoStream_def RegisterIncoming_def replace_stream_def
    Let_def none l
  have "(\<exists>b1 w1 b2 w2. (\<forall>NS. bridge_AddPeer listen NS p b w = (Inr (b_nextPort b), b1, w1))
      \<and> RegisterIncoming listen p s b1 w1 = (b2, w2) \<and> relay_of b2 p = Some r)" if "b_host b < p"
    using that r by (simp add: defs map_of_put_peer relay_of_def set_stream_def)
  moreover have "(\<exists>b1 w1. RegisterIncoming listen p s b w = (b1, w1) \<and> relay_of b1 p = Some r
      \<and> (\<forall>NS. bridge_AddPeer listen NS p b1 w1 = (Inr (b_nextPort b), b1, w1)))" if "b_host b < p"
    using that r by (simp add: defs map_of_put_peer relay_of_def)
  moreover have "\<exists>b1 w1. bridge_AddPeer listen NewStream p b w = (Inr (b_nextPort b), b1, w1) \<and> relay_of b1 p = Some r"
    if "\<not> b_host b < p"
    using that r by (simp add: defs NewStream map_of_put_peer relay_of_def)
  ultimately show ?thesis by simp
qed

theorem bridge_one_side_opens_witness:
  "\<exists>b1 w1. RegisterIncoming all_ports ''q'' 7 (NewBridge ''h'' 51820 51920) () = (b1, w1)
    \<and> relay_of b1 ''q'' = Some \<lparr>pr_proxyPort = 51920, pr_stream = Some 7, pr_cancelled = False\<rparr>
    \<and> (\<forall>NS. bridge_AddPeer all_ports NS ''q'' b1 w1 = (Inr 51920, b1, w1))"
proof -
  have less: "(''h'' :: string) < ''q''" by (simp add: less_char_def)
  have new: "relay_of (NewBridge ''h'' 51820 51920) ''q'' = None" by (simp add: relay_of_def NewBridge_def)
  have "b_host (NewBridge ''h'' 51820 51920) = ''h''" "b_nextPort (NewBridge ''h'' 51820 51920) = 51920"
    by (simp_all add: NewBridge_def)
  with less bridge_one_side_opens [OF NewBridge_inv new, of all_ports "\<lambda>p w. (Inr 7, w)" 7, OF _ _ refl, of "()"]
  show ?thesis by (simp add: all_ports_def)
qed

lemma fold_stop_relay_other: "i \<notin> set js \<Longrightarrow> b_relays (fold stop_relay js c) ! i = b_relays c ! i"
  by (induction js arbitrary: c) (simp_all add: stop_relay_def Let_def nth_update)

text \<open>C19. The two sections of \<open>AddPeer\<close> leave a gap. If the peer's stream comes in after \<open>AddPeer\<close>
  found no relay and before it allocates one, the handler's relay with the stream is replaced by
  one without: the peer's proxy port is that of a relay that drops every packet, and the relay with
  the stream keeps its socket and is stopped neither by \<open>RemovePeer\<close> nor by \<open>Close\<close>. In the other
  order the stream goes to the relay that \<open>AddPeer\<close> allocated.\<close>

theorem bridge_incoming_race:
  assumes inv: "bridge_inv base b" and new: "relay_of b p = None"
    and open_ok: "\<And>port w. fst (listen port w) = None"
    and orphan: "orphan = \<lparr>pr_proxyPort = b_nextPort b, pr_stream = Some s, pr_cancelled = False\<rparr>"
    and raced: "b1 = fst (bridge_run listen [SStream p s, SNoStream p] (b, w))"
  shows "relay_of b1 p = Some \<lparr>pr_proxyPort = b_nextPort b + 1, pr_stream = None, pr_cancelled = False\<rparr>
    \<and> b_relays (bridge_RemovePeer p b1) ! length (b_relays b) = orphan
    \<and> b_relays (bridge_Close b1) ! length (b_relays b) = orphan
    \<and> relay_of (fst (bridge_run listen [SNoStream p, SStream p s] (b, w))) p = Some orphan"
proof -
  from new have none: "map_of (b_peers b) p = None" by (simp add: relay_of_def)
  let ?n = "length (b_relays b)"
  obtain w1 where l: "listen (b_nextPort b) w = (None, w1)" using open_ok by (metis prod.collapse)
  obtain w2 where l2: "listen (b_nextPort b + 1) w1 = (None, w2)" using open_ok by (metis prod.collapse)
  have b1: "b_relays b1 = b_relays b @ [orphan, \<lparr>pr_proxyPort = b_nextPort b + 1, pr_stream = None, pr_cancelled = False\<rparr>]"
    "b_peers b1 = put_peer p (Suc ?n) (put_peer p ?n (b_peers b))"
    unfolding raced by (simp_all add: bridge_run_def allocateRelay_def allocateRelayNoStream_def none l l2 orphan Let_def)
  have "?n \<notin> snd ` set (b_peers b1)"
    using inv by (auto simp: b1 put_peer_def set_drop_peer bridge_inv_def)
  then have "b_relays (bridge_Close b1) ! ?n = orphan"
    by (simp add: bridge_Close_def fold_stop_relay_other b1)
  moreover have "b_relays (bridge_RemovePeer p b1) ! ?n = orphan"
    by (simp add: bridge_RemovePeer_def stop_relay_def Let_def b1 map_of_put_peer nth_update nth_append)
  moreover have "relay_of b1 p = Some \<lparr>pr_proxyPort = b_nextPort b + 1, pr_stream = None, pr_cancelled = False\<rparr>"
    by (simp add: relay_of_def b1 map_of_put_peer nth_append)
  moreover have "relay_of (fst (bridge_run listen [SNoStream p, SStream p s] (b, w))) p = Some orphan"
    by (simp add: bridge_run_def allocateRelay_def allocateRelayNoStream_def none l orphan relay_of_def
        map_of_put_peer set_stream_def Let_def)
  ultimately show ?thesis by blast
qed

theorem bridge_incoming_race_witness:
  "relay_of (fst (bridge_run all_ports [SStream ''q'' 7, SNoStream ''q''] (NewBridge ''h'' 51820 51920, ()))) ''q''
   = Some \<lparr>pr_proxyPort = 51921, pr_stream = None, pr_cancelled = False\<rparr>"
proof -
  have new: "relay_of (NewBridge ''h'' 51820 51920) ''q'' = None" by (simp add: relay_of_def NewBridge_def)
  from bridge_incoming_race [where s = 7 and w = "()" and listen = all_ports, OF NewBridge_inv new _ refl refl]
  show ?thesis by (simp add: all_ports_def NewBridge_def)
qed

end
