(* ===== verification/Wireguard.thy ===== *)
theory Wireguard
  imports Go_Std
begin

text \<open>
  The agent's operating-system side: key generation and WireGuard configuration
  (\<open>src/services/agent/internal/wireguard\<close>) and the exit node's packet forwarding
  (\<open>src/services/agent/internal/gateway\<close>). Commands and files act on a world \<open>'w\<close>; what
  they do there is a parameter. The three build variants of the gateway are chosen by an argument.
  An index out of range panics, which the outcome type makes a value.
\<close>

section \<open>The operating system\<close>

datatype goos = Linux | Darwin | Windows | OtherOS string

text \<open>\<open>os_exec\<close> runs a command line and returns the error and the output; \<open>os_open\<close> creates or
  truncates a file, \<open>os_write\<close> writes to it; \<open>os_rand\<close> is \<open>rand.Read\<close> of so many bytes.\<close>

record 'w os_env =
  os_goos :: goos
  os_exec :: "string list \<Rightarrow> 'w \<Rightarrow> (go_error option \<times> string) \<times> 'w"
  os_open :: "string \<Rightarrow> 'w \<Rightarrow> go_error option \<times> 'w"
  os_write :: "string \<Rightarrow> string \<Rightarrow> 'w \<Rightarrow> go_error option \<times> 'w"
  os_rand :: "nat \<Rightarrow> 'w \<Rightarrow> 8 word list result \<times> 'w"

datatype 'a outcome = Returned 'a | Panicked

text \<open>\<open>s[:n]\<close>.\<close>

definition slice_to :: "nat \<Rightarrow> string \<Rightarrow> string outcome" where
  "slice_to n s = (if n \<le> length s then Returned (take n s) else Panicked)"

definition nl :: string where
  "nl = [CHR 0x0A]"

section \<open>Keys\<close>

record KeyPair =
  kp_PrivateKey :: string
  kp_PublicKey :: string

text \<open>\<open>base64.StdEncoding\<close>.\<close>

definition b64_char :: "nat \<Rightarrow> char" where
  "b64_char n =
     (if n < 26 then char_of (65 + n)
      else if n < 52 then char_of (97 + (n - 26))
      else if n < 62 then char_of (48 + (n - 52))
      else if n = 62 then CHR ''+'' else CHR ''/'')"

fun b64_encode :: "8 word list \<Rightarrow> string" where
  "b64_encode [] = []"
| "b64_encode [a] = [b64_char (unat a div 4), b64_char (unat a mod 4 * 16), CHR ''='', CHR ''='']"
| "b64_encode [a, b] =
     [b64_char (unat a div 4), b64_char (unat a mod 4 * 16 + unat b div 16), b64_char (unat b mod 16 * 4), CHR ''='']"
| "b64_encode (a # b # c # bs) =
     b64_char (unat a div 4) # b64_char (unat a mod 4 * 16 + unat b div 16)
     # b64_char (unat b mod 16 * 4 + unat c div 64) # b64_char (unat c mod 64) # b64_encode bs"

unbundle bit_operations_syntax

definition clamp :: "8 word list \<Rightarrow> 8 word list" where
  "clamp privateKey =
     (let k = privateKey[0 := privateKey ! 0 AND 248];
          k = k[31 := k ! 31 AND 127];
          k = k[31 := k ! 31 OR 64] in k)"

definition GenerateKeyPair ::
  "'w os_env \<Rightarrow> (8 word list \<Rightarrow> 8 word list) \<Rightarrow> 'w \<Rightarrow> KeyPair result \<times> 'w" where
  "GenerateKeyPair E ScalarBaseMult w =
     (case os_rand E 32 w of
        (Inl err, w1) \<Rightarrow> (Inl (Wrapped ''failed to generate private key'' err), w1)
      | (Inr bytes, w1) \<Rightarrow>
          let privateKey = clamp bytes; publicKey = ScalarBaseMult privateKey in
          (Inr \<lparr>kp_PrivateKey = b64_encode privateKey, kp_PublicKey = b64_encode publicKey\<rparr>, w1))"

section \<open>The WireGuard configuration\<close>

record PeerConfig =
  wp_PublicKey :: string
  wp_Endpoint :: string
  wp_AllowedIPs :: string

record wg_Config =
  wc_PrivateKey :: string
  wc_ListenPort :: int
  wc_Address :: string
  wc_MTU :: int
  wc_DNS :: string
  wc_Peers :: "PeerConfig list"

record wg_Manager =
  wg_iface :: string
  wg_configDir :: string
  wg_dryRun :: bool

definition render_peer :: "PeerConfig \<Rightarrow> string" where
  "render_peer p =
     ''[Peer]'' @ nl @ ''PublicKey = '' @ wp_PublicKey p @ nl @ ''Endpoint = '' @ wp_Endpoint p @ nl
     @ ''AllowedIPs = '' @ wp_AllowedIPs p @ nl @ ''PersistentKeepalive = 25'' @ nl @ nl"

definition render :: "wg_Config \<Rightarrow> string" where
  "render cfg =
     ''[Interface]'' @ nl @ ''PrivateKey = '' @ wc_PrivateKey cfg @ nl
     @ ''ListenPort = '' @ itoa (wc_ListenPort cfg) @ nl @ ''Address = '' @ wc_Address cfg @ nl
     @ ''MTU = '' @ itoa (wc_MTU cfg) @ nl
     @ (if wc_DNS cfg \<noteq> '''' then ''DNS = '' @ wc_DNS cfg else '''') @ nl @ nl
     @ concat (map render_peer (wc_Peers cfg))"

text \<open>\<open>filepath.Join\<close> of a clean directory and a file name.\<close>

definition path_join :: "goos \<Rightarrow> string \<Rightarrow> string \<Rightarrow> string" where
  "path_join os dir f = dir @ (if os = Windows then [CHR 0x5C] else ''/'') @ f"

definition NewManager ::
  "goos \<Rightarrow> string \<Rightarrow> string result \<Rightarrow> (string \<Rightarrow> 'w \<Rightarrow> go_error option \<times> 'w) \<Rightarrow> bool \<Rightarrow> 'w \<Rightarrow> wg_Manager \<times> 'w" where
  "NewManager os TempDir UserConfigDir MkdirAll dryRun w =
     (let iface = (if os = Windows then ''gordion'' else ''wg0'') in
      case UserConfigDir of
        Inl _ \<Rightarrow> (\<lparr>wg_iface = iface, wg_configDir = TempDir, wg_dryRun = dryRun\<rparr>, w)
      | Inr dir \<Rightarrow>
          let gordionDir = path_join os dir ''gordion'' in
          (case MkdirAll gordionDir w of
             (Some _, w1) \<Rightarrow> (\<lparr>wg_iface = iface, wg_configDir = TempDir, wg_dryRun = dryRun\<rparr>, w1)
           | (None, w1) \<Rightarrow> (\<lparr>wg_iface = iface, wg_configDir = gordionDir, wg_dryRun = dryRun\<rparr>, w1)))"

definition wg_runCmd :: "'w os_env \<Rightarrow> string list \<Rightarrow> 'w \<Rightarrow> go_error option \<times> 'w" where
  "wg_runCmd E argv w =
     (case os_exec E argv w of
        ((Some err, output), w1) \<Rightarrow> (Some (Wrapped (hd argv @ '' failed'') err), w1)
      | ((None, output), w1) \<Rightarrow> (None, w1))"

definition runWG :: "'w os_env \<Rightarrow> string list \<Rightarrow> 'w \<Rightarrow> go_error option \<times> 'w" where
  "runWG E args w = wg_runCmd E (''wg'' # args) w"

definition wg_up :: "'w os_env \<Rightarrow> string \<Rightarrow> 'w \<Rightarrow> go_error option \<times> 'w" where
  "wg_up E configPath w =
     (case os_goos E of
        Windows \<Rightarrow> wg_runCmd E [''wireguard'', ''/installtunnelservice'', configPath] w
      | OtherOS os \<Rightarrow> (Some (Plain (''unsupported OS: '' @ os)), w)
      | _ \<Rightarrow> wg_runCmd E [''wg-quick'', ''up'', configPath] w)"

definition Configure :: "'w os_env \<Rightarrow> wg_Manager \<Rightarrow> wg_Config \<Rightarrow> 'w \<Rightarrow> go_error option \<times> 'w" where
  "Configure E m cfg w =
     (let configPath = path_join (os_goos E) (wg_configDir m) (wg_iface m @ ''.conf'') in
      case os_open E configPath w of
        (Some err, w1) \<Rightarrow> (Some (Wrapped ''config file create error'' err), w1)
      | (None, w1) \<Rightarrow>
          (case os_write E configPath (render cfg) w1 of
             (Some err, w2) \<Rightarrow> (Some (Wrapped ''template execute error'' err), w2)
           | (None, w2) \<Rightarrow> if wg_dryRun m then (None, w2) else wg_up E configPath w2))"

definition wg_AddPeer :: "'w os_env \<Rightarrow> wg_Manager \<Rightarrow> PeerConfig \<Rightarrow> 'w \<Rightarrow> go_error option outcome \<times> 'w" where
  "wg_AddPeer E m peer w =
     (if wg_dryRun m then
        (case slice_to 8 (wp_PublicKey peer) of
           Panicked \<Rightarrow> (Panicked, w)
         | Returned _ \<Rightarrow> (Returned None, w))
      else
        (case runWG E [''set'', wg_iface m, ''peer'', wp_PublicKey peer, ''endpoint'', wp_Endpoint peer,
               ''allowed-ips'', wp_AllowedIPs peer, ''persistent-keepalive'', ''25''] w of
           (x, w1) \<Rightarrow> (Returned x, w1)))"

definition wg_RemovePeer :: "'w os_env \<Rightarrow> wg_Manager \<Rightarrow> string \<Rightarrow> 'w \<Rightarrow> go_error option outcome \<times> 'w" where
  "wg_RemovePeer E m publicKey w =
     (if wg_dryRun m then
        (case slice_to 8 publicKey of Panicked \<Rightarrow> (Panicked, w) | Returned _ \<Rightarrow> (Returned None, w))
      else (case runWG E [''set'', wg_iface m, ''peer'', publicKey, ''remove''] w of (x, w1) \<Rightarrow> (Returned x, w1)))"

definition wg_Down :: "'w os_env \<Rightarrow> wg_Manager \<Rightarrow> 'w \<Rightarrow> go_error option \<times> 'w" where
  "wg_Down E m w =
     (if wg_dryRun m then (None, w)
      else
        let configPath = path_join (os_goos E) (wg_configDir m) (wg_iface m @ ''.conf'') in
        (case os_goos E of
           Windows \<Rightarrow> wg_runCmd E [''wireguard'', ''/uninstalltunnelservice'', wg_iface m] w
         | OtherOS os \<Rightarrow> (Some (Plain (''unsupported OS: '' @ os)), w)
         | _ \<Rightarrow> wg_runCmd E [''wg-quick'', ''down'', configPath] w))"

section \<open>The gateway\<close>

record gw_Manager =
  gw_iface :: string
  gw_outIface :: string
  gw_enabled :: bool

definition defaultIface :: "goos \<Rightarrow> string" where
  "defaultIface os = (if os = Windows then ''gordion'' else ''wg0'')"

definition gw_New :: "goos \<Rightarrow> string \<Rightarrow> gw_Manager" where
  "gw_New os wgIface =
     \<lparr>gw_iface = (if wgIface = '''' then defaultIface os else wgIface), gw_outIface = '''', gw_enabled = False\<rparr>"

definition gw_runCmd :: "'w os_env \<Rightarrow> string list \<Rightarrow> 'w \<Rightarrow> go_error option \<times> 'w" where
  "gw_runCmd E argv w =
     (case os_exec E argv w of
        ((Some err, out), w1) \<Rightarrow> (Some (Wrapped (hd argv) err), w1)
      | ((None, out), w1) \<Rightarrow> (None, w1))"

subsection \<open>Linux\<close>

text \<open>The word after \<open>dev\<close> in the answer of \<open>ip route get\<close>.\<close>

fun dev_field :: "string list \<Rightarrow> string option" where
  "dev_field (f # g # fs) = (if f = ''dev'' then Some g else dev_field (g # fs))"
| "dev_field _ = None"

definition linux_outbound_iface :: "'w os_env \<Rightarrow> 'w \<Rightarrow> string result \<times> 'w" where
  "linux_outbound_iface E w =
     (case os_exec E [''ip'', ''route'', ''get'', ''8.8.8.8''] w of
        ((Some err, _), w1) \<Rightarrow> (Inl (Wrapped ''ip route get'' err), w1)
      | ((None, out), w1) \<Rightarrow>
          (case dev_field (Fields out) of
             Some f \<Rightarrow> (Inr f, w1)
           | None \<Rightarrow> (Inl (Plain (''no dev field in: '' @ TrimSpace out)), w1)))"

definition masquerade :: "string \<Rightarrow> string \<Rightarrow> string list" where
  "masquerade op iface = [''iptables'', ''-t'', ''nat'', op, ''POSTROUTING'', ''-o'', iface, ''-j'', ''MASQUERADE'']"

definition forward_in :: "string \<Rightarrow> string \<Rightarrow> string list" where
  "forward_in op iface = [''iptables'', op, ''FORWARD'', ''-i'', iface, ''-j'', ''ACCEPT'']"

definition forward_out :: "string \<Rightarrow> string \<Rightarrow> string list" where
  "forward_out op iface = [''iptables'', op, ''FORWARD'', ''-o'', iface, ''-m'', ''state'', ''--state'',
     ''RELATED,ESTABLISHED'', ''-j'', ''ACCEPT'']"

definition ip_forward :: "string \<Rightarrow> string list" where
  "ip_forward v = [''sysctl'', ''-w'', ''net.ipv4.ip_forward='' @ v]"

text \<open>Commands one after the other, up to the first that fails.\<close>

fun run_cmds :: "'w os_env \<Rightarrow> string list list \<Rightarrow> 'w \<Rightarrow> go_error option \<times> 'w" where
  "run_cmds E [] w = (None, w)"
| "run_cmds E (c # cs) w =
     (case gw_runCmd E c w of
        (Some err, w1) \<Rightarrow> (Some err, w1)
      | (None, w1) \<Rightarrow> run_cmds E cs w1)"

text \<open>Commands one after the other, whatever their errors.\<close>

definition try_cmds :: "'w os_env \<Rightarrow> string list list \<Rightarrow> 'w \<Rightarrow> 'w" where
  "try_cmds E cs w = fold (\<lambda>c w. snd (gw_runCmd E c w)) cs w"

definition linux_enable :: "'w os_env \<Rightarrow> gw_Manager \<Rightarrow> 'w \<Rightarrow> go_error option \<times> gw_Manager \<times> 'w" where
  "linux_enable E m w =
     (case linux_outbound_iface E w of
        (Inl err, w1) \<Rightarrow> (Some (Wrapped ''detect outbound iface'' err), m, w1)
      | (Inr iface, w1) \<Rightarrow>
          (case run_cmds E [ip_forward ''1'', masquerade ''-A'' iface, forward_in ''-A'' (gw_iface m),
                 forward_out ''-A'' (gw_iface m)] w1 of
             (Some err, w2) \<Rightarrow> (Some err, m, w2)
           | (None, w2) \<Rightarrow> (None, m\<lparr>gw_outIface := iface\<rparr>, w2)))"

definition linux_disable :: "'w os_env \<Rightarrow> gw_Manager \<Rightarrow> 'w \<Rightarrow> 'w" where
  "linux_disable E m w =
     (let (iface, w1) =
        (if gw_outIface m = '''' then
           (case linux_outbound_iface E w of (x, w1) \<Rightarrow> (case x of Inl _ \<Rightarrow> '''' | Inr f \<Rightarrow> f, w1))
         else (gw_outIface m, w)) in
      try_cmds E [masquerade ''-D'' iface, forward_in ''-D'' (gw_iface m), forward_out ''-D'' (gw_iface m),
        ip_forward ''0''] w1)"

subsection \<open>macOS\<close>

definition darwin_enable :: "'w os_env \<Rightarrow> gw_Manager \<Rightarrow> 'w \<Rightarrow> go_error option \<times> 'w" where
  "darwin_enable E m w =
     (case gw_runCmd E [''sysctl'', ''-w'', ''net.inet.ip.forwarding=1''] w of
        (Some err, w1) \<Rightarrow> (Some (Wrapped ''sysctl forwarding failed'' err), w1)
      | (None, w1) \<Rightarrow>
          let pfRule = ''nat on en0 from '' @ gw_iface m @ '':network to any -> (en0)'' @ nl in
          (case gw_runCmd E [''sh'', ''-c'', ''echo '' @ [CHR 0x27] @ pfRule @ [CHR 0x27] @ '' | pfctl -f - && pfctl -e''] w1 of
             (Some err, w2) \<Rightarrow> (Some (Wrapped ''pfctl NAT failed'' err), w2)
           | (None, w2) \<Rightarrow> (None, w2)))"

definition darwin_disable :: "'w os_env \<Rightarrow> 'w \<Rightarrow> 'w" where
  "darwin_disable E w = try_cmds E [[''pfctl'', ''-d''], [''sysctl'', ''-w'', ''net.inet.ip.forwarding=0'']] w"

subsection \<open>Windows\<close>

definition quoted :: "string \<Rightarrow> string" where
  "quoted s = [CHR 0x27] @ s @ [CHR 0x27]"

definition powershell :: "string \<Rightarrow> string list" where
  "powershell s = [''powershell'', ''-NoProfile'', ''-Command'', s]"

definition natPS :: string where
  "natPS =
     (let tab = [CHR 0x09]; natName = quoted ''GordionNAT'' in
      nl @ tab @ tab @ ''if (-not (Get-NetNat -Name '' @ natName @ '' -ErrorAction SilentlyContinue)) {'' @ nl
      @ tab @ tab @ tab @ ''New-NetNat -Name '' @ natName @ '' -InternalIPInterfaceAddressPrefix '' @ quoted ''10.8.0.0/16'' @ nl
      @ tab @ tab @ ''}'')"

definition forwarding_PS :: "string \<Rightarrow> string \<Rightarrow> string" where
  "forwarding_PS iface v = ''Set-NetIPInterface -InterfaceAlias '' @ quoted iface @ '' -Forwarding '' @ v @ '' -ErrorAction SilentlyContinue''"

definition windows_enable :: "'w os_env \<Rightarrow> gw_Manager \<Rightarrow> 'w \<Rightarrow> go_error option \<times> 'w" where
  "windows_enable E m w =
     (let w1 = snd (gw_runCmd E (powershell (forwarding_PS (gw_iface m) ''Enabled'')) w) in
      case gw_runCmd E (powershell natPS) w1 of
        (Some err, w2) \<Rightarrow> (Some (Wrapped ''New-NetNat (run as Administrator)'' err), w2)
      | (None, w2) \<Rightarrow> (None, w2))"

definition windows_disable :: "'w os_env \<Rightarrow> gw_Manager \<Rightarrow> 'w \<Rightarrow> 'w" where
  "windows_disable E m w =
     try_cmds E [powershell (''Remove-NetNat -Name '' @ quoted ''GordionNAT'' @ '' -Confirm:$false -ErrorAction SilentlyContinue''),
       powershell (forwarding_PS (gw_iface m) ''Disabled'')] w"

subsection \<open>Enable and Disable\<close>

definition enableForwarding :: "'w os_env \<Rightarrow> gw_Manager \<Rightarrow> 'w \<Rightarrow> go_error option \<times> gw_Manager \<times> 'w" where
  "enableForwarding E m w =
     (case os_goos E of
        Darwin \<Rightarrow> (case darwin_enable E m w of (x, w1) \<Rightarrow> (x, m, w1))
      | Windows \<Rightarrow> (case windows_enable E m w of (x, w1) \<Rightarrow> (x, m, w1))
      | _ \<Rightarrow> linux_enable E m w)"

definition disableForwarding :: "'w os_env \<Rightarrow> gw_Manager \<Rightarrow> 'w \<Rightarrow> go_error option \<times> 'w" where
  "disableForwarding E m w =
     (case os_goos E of
        Darwin \<Rightarrow> (None, darwin_disable E w)
      | Windows \<Rightarrow> (None, windows_disable E m w)
      | _ \<Rightarrow> (None, linux_disable E m w))"

definition gw_Enable :: "'w os_env \<Rightarrow> gw_Manager \<Rightarrow> 'w \<Rightarrow> go_error option \<times> gw_Manager \<times> 'w" where
  "gw_Enable E m w =
     (if gw_enabled m then (None, m, w)
      else case enableForwarding E m w of
        (Some err, m1, w1) \<Rightarrow> (Some (Wrapped ''gateway enable failed'' err), m1, w1)
      | (None, m1, w1) \<Rightarrow> (None, m1\<lparr>gw_enabled := True\<rparr>, w1))"

definition gw_Disable :: "'w os_env \<Rightarrow> gw_Manager \<Rightarrow> 'w \<Rightarrow> go_error option \<times> gw_Manager \<times> 'w" where
  "gw_Disable E m w =
     (if \<not> gw_enabled m then (None, m, w)
      else case disableForwarding E m w of
        (Some err, w1) \<Rightarrow> (Some (Wrapped ''gateway disable failed'' err), m, w1)
      | (None, w1) \<Rightarrow> (None, m\<lparr>gw_enabled := False\<rparr>, w1))"

section \<open>Lemmas\<close>

text \<open>The lines of a text.\<close>

definition text_lines :: "string \<Rightarrow> string list" where
  "text_lines s = split_on (CHR 0x0A) s"

abbreviation one_line :: "string \<Rightarrow> bool" where
  "one_line s \<equiv> CHR 0x0A \<notin> set s"

lemma text_lines_nl: "one_line l \<Longrightarrow> text_lines (l @ nl @ s) = l # text_lines s"
  by (simp add: text_lines_def nl_def split_on_append)

lemma text_lines_concat:
  "\<forall>l \<in> set ls. one_line l \<Longrightarrow> text_lines (concat (map (\<lambda>l. l @ nl) ls) @ s) = ls @ text_lines s"
  by (induction ls) (simp_all add: text_lines_nl)

lemma text_lines_Nil [simp]: "text_lines '''' = ['''']"
  by (simp add: text_lines_def)

lemma one_line_itoa [simp]: "one_line (itoa i)"
  by (simp add: itoa_def dec_nat_no_char)

text \<open>The lines a configuration is meant to have.\<close>

definition peer_lines :: "PeerConfig \<Rightarrow> string list" where
  "peer_lines p = [''[Peer]'', ''PublicKey = '' @ wp_PublicKey p, ''Endpoint = '' @ wp_Endpoint p,
     ''AllowedIPs = '' @ wp_AllowedIPs p, ''PersistentKeepalive = 25'', '''']"

definition interface_lines :: "wg_Config \<Rightarrow> string list" where
  "interface_lines cfg = [''[Interface]'', ''PrivateKey = '' @ wc_PrivateKey cfg,
     ''ListenPort = '' @ itoa (wc_ListenPort cfg), ''Address = '' @ wc_Address cfg,
     ''MTU = '' @ itoa (wc_MTU cfg), if wc_DNS cfg = '''' then '''' else ''DNS = '' @ wc_DNS cfg, '''']"

lemma render_lines:
  "render cfg = concat (map (\<lambda>l. l @ nl) (interface_lines cfg @ concat (map peer_lines (wc_Peers cfg))))"
proof -
  have "concat (map render_peer ps) = concat (map (\<lambda>l. l @ nl) (concat (map peer_lines ps)))" for ps
    by (induction ps) (simp_all add: render_peer_def peer_lines_def)
  then show ?thesis by (simp add: render_def interface_lines_def)
qed

lemma split_on_more: "\<exists>l ls. split_on c (s @ t) = butlast (split_on c s) @ (last (split_on c s) @ l) # ls
  \<and> l # ls = split_on c t"
proof (induction s)
  case Nil
  show ?case by (cases "split_on c t") auto
qed (auto split: list.splits)

lemma in_text_lines_middle:
  assumes "one_line l"
  shows "l \<in> set (text_lines (s @ nl @ l @ nl @ t))"
proof -
  have "text_lines (nl @ l @ nl @ t) = [] # l # text_lines t"
    using text_lines_nl [of "[]" "l @ nl @ t"] text_lines_nl [OF assms, of t] by simp
  with split_on_more [of "CHR 0x0A" s "nl @ l @ nl @ t"] show ?thesis
    by (auto simp: text_lines_def)
qed

lemma Fields_nonempty: "f \<in> set (Fields s) \<Longrightarrow> f \<noteq> ''''"
proof -
  have "f \<in> set (fields_acc w s) \<Longrightarrow> f \<noteq> ''''" for w
    by (induction w s rule: fields_acc.induct) (auto split: if_splits)
  then show "f \<in> set (Fields s) \<Longrightarrow> f \<noteq> ''''" by (simp add: Fields_def)
qed

lemma dev_field_in: "dev_field fs = Some f \<Longrightarrow> f \<in> set fs"
  by (induction fs rule: dev_field.induct) (auto split: if_splits)

lemma length_b64_encode: "length (b64_encode bs) = 4 * ((length bs + 2) div 3)"
proof (induction bs rule: b64_encode.induct)
  case (4 a b c bs)
  have "(length (a # b # c # bs) + 2) div 3 = Suc ((length bs + 2) div 3)" by simp
  with 4 show ?case by simp
qed simp_all

lemma b64_char_not_nl: "b64_char n \<noteq> CHR 0x0A"
proof -
  have "of_char (b64_char n) \<noteq> (10 :: nat)" by (auto simp: b64_char_def)
  then show ?thesis by auto
qed

lemma b64_encode_one_line: "one_line (b64_encode bs)"
  by (induction bs rule: b64_encode.induct) (auto simp: b64_char_not_nl dest: b64_char_not_nl [THEN notE, OF sym])

text \<open>The environment with a log of the commands it runs.\<close>

definition logged :: "'w os_env \<Rightarrow> (string list list \<times> 'w) os_env" where
  "logged E = \<lparr>os_goos = os_goos E,
     os_exec = (\<lambda>argv (log, w). case os_exec E argv w of (x, w1) \<Rightarrow> (x, log @ [argv], w1)),
     os_open = (\<lambda>f (log, w). case os_open E f w of (x, w1) \<Rightarrow> (x, log, w1)),
     os_write = (\<lambda>f t (log, w). case os_write E f t w of (x, w1) \<Rightarrow> (x, log, w1)),
     os_rand = (\<lambda>n (log, w). case os_rand E n w of (x, w1) \<Rightarrow> (x, log, w1))\<rparr>"

lemma logged_sel [simp]: "os_goos (logged E) = os_goos E"
  "os_exec (logged E) argv (log, w) = (case os_exec E argv w of (x, w1) \<Rightarrow> (x, log @ [argv], w1))"
  by (simp_all add: logged_def)

lemma gw_runCmd_log: "gw_runCmd (logged E) c (log, w) = (x, log', w') \<Longrightarrow> log' = log @ [c]"
  by (auto simp: gw_runCmd_def split: prod.splits option.splits)

lemma run_cmds_log:
  "run_cmds (logged E) cs (log, w) = (None, log', w') \<Longrightarrow> log' = log @ cs"
proof (induction cs arbitrary: log w)
  case (Cons c cs)
  obtain x log1 w1 where c: "gw_runCmd (logged E) c (log, w) = (x, log1, w1)" using prod_cases3 by blast
  with Cons.prems have "x = None" "run_cmds (logged E) cs (log1, w1) = (None, log', w')"
    by (auto split: option.splits)
  with Cons.IH gw_runCmd_log [OF c] show ?case by fastforce
qed simp

lemma try_cmds_log: "\<exists>w'. try_cmds (logged E) cs (log, w) = (log @ cs, w')"
proof (induction cs arbitrary: log w)
  case (Cons c cs)
  obtain x log1 w1 where c: "gw_runCmd (logged E) c (log, w) = (x, log1, w1)" using prod_cases3 by blast
  with Cons.IH [of log1 w1] gw_runCmd_log [OF c] show ?case by (simp add: try_cmds_def)
qed (simp add: try_cmds_def)

lemma linux_outbound_log:
  assumes "linux_outbound_iface (logged E) (log, w) = (Inr iface, log', w')"
  shows "log' = log @ [[''ip'', ''route'', ''get'', ''8.8.8.8'']] \<and> iface \<noteq> ''''"
  using assms
  by (auto simp: linux_outbound_iface_def split: prod.splits option.splits
      dest!: dev_field_in Fields_nonempty)

section \<open>Properties\<close>

text \<open>The configuration file has exactly the lines of the template. If no field contains a line
  break, the lines of the file are the interface section with the fields of the configuration
  and one section for each peer, in order, with its key, endpoint and allowed addresses; the keys
  that \<open>GenerateKeyPair\<close> makes are such fields.\<close>

theorem wg_render_lines:
  assumes "one_line (wc_PrivateKey cfg)" "one_line (wc_Address cfg)" "one_line (wc_DNS cfg)"
    and "\<forall>p \<in> set (wc_Peers cfg). one_line (wp_PublicKey p) \<and> one_line (wp_Endpoint p) \<and> one_line (wp_AllowedIPs p)"
  shows "text_lines (render cfg) = interface_lines cfg @ concat (map peer_lines (wc_Peers cfg)) @ [''''] 
    \<and> (GenerateKeyPair E mult w = (Inr kp, w1) \<longrightarrow> one_line (kp_PrivateKey kp) \<and> one_line (kp_PublicKey kp))"
proof -
  have "\<forall>l \<in> set (interface_lines cfg @ concat (map peer_lines (wc_Peers cfg))). one_line l"
    using assms by (auto simp: interface_lines_def peer_lines_def)
  from text_lines_concat [OF this, of "[]"] have "text_lines (render cfg)
      = interface_lines cfg @ concat (map peer_lines (wc_Peers cfg)) @ ['''']"
    unfolding render_lines by simp
  then show ?thesis
    by (auto simp: GenerateKeyPair_def Let_def b64_encode_one_line split: prod.splits sum.splits)
qed

definition demo_wg :: wg_Config where
  "demo_wg = \<lparr>wc_PrivateKey = ''priv'', wc_ListenPort = 51820, wc_Address = ''10.8.0.2/16'', wc_MTU = 1420,
     wc_DNS = '''', wc_Peers = [\<lparr>wp_PublicKey = ''pub'', wp_Endpoint = ''127.0.0.1:51920'', wp_AllowedIPs = ''10.8.0.3/32''\<rparr>]\<rparr>"

theorem wg_render_lines_witness:
  "text_lines (render demo_wg) = interface_lines demo_wg @ concat (map peer_lines (wc_Peers demo_wg)) @ ['''']"
  by (rule wg_render_lines [THEN conjunct1]) (simp_all add: demo_wg_def)

text \<open>C12. What the gateway sets up it takes down. On Linux, if \<open>Enable\<close> succeeds, it has run the
  commands that turn on forwarding and add three rules for the interface of the default route;
  \<open>Disable\<close>, at any later time, whatever the route is then, deletes these rules, for the same
  interface, turns forwarding off, and returns the gateway to its disabled state.\<close>

theorem gateway_disable_undoes:
  assumes linux: "os_goos E = Linux" and off: "\<not> gw_enabled m"
    and on: "gw_Enable (logged E) m ([], w) = (None, m1, log1, w1)"
    and later: "gw_Disable (logged E) m1 ([], w2) = (x, m2, log2, w3)"
  shows "\<exists>iface. log1 = [[''ip'', ''route'', ''get'', ''8.8.8.8''], ip_forward ''1'', masquerade ''-A'' iface,
        forward_in ''-A'' (gw_iface m), forward_out ''-A'' (gw_iface m)]
    \<and> log2 = [masquerade ''-D'' iface, forward_in ''-D'' (gw_iface m), forward_out ''-D'' (gw_iface m), ip_forward ''0'']
    \<and> x = None \<and> m2 = m\<lparr>gw_outIface := iface\<rparr>"
proof -
  from linux off on obtain iface log0 w0 where out: "linux_outbound_iface (logged E) ([], w) = (Inr iface, log0, w0)"
    and run: "run_cmds (logged E) [ip_forward ''1'', masquerade ''-A'' iface, forward_in ''-A'' (gw_iface m),
      forward_out ''-A'' (gw_iface m)] (log0, w0) = (None, log1, w1)"
    and m1: "m1 = m\<lparr>gw_outIface := iface, gw_enabled := True\<rparr>"
    by (auto simp del: run_cmds.simps simp: gw_Enable_def enableForwarding_def linux_enable_def split: prod.splits option.splits sum.splits)
  note iface = linux_outbound_log [OF out]
  obtain w' where "try_cmds (logged E) [masquerade ''-D'' iface, forward_in ''-D'' (gw_iface m),
      forward_out ''-D'' (gw_iface m), ip_forward ''0''] ([], w2) = ([masquerade ''-D'' iface, forward_in ''-D'' (gw_iface m),
      forward_out ''-D'' (gw_iface m), ip_forward ''0''], w')"
    using try_cmds_log [of E _ "[]" w2] by (metis append_Nil)
  with later linux iface have "log2 = [masquerade ''-D'' iface, forward_in ''-D'' (gw_iface m),
      forward_out ''-D'' (gw_iface m), ip_forward ''0'']" "x = None" "m2 = m1\<lparr>gw_enabled := False\<rparr>"
    by (auto simp: m1 gw_Disable_def disableForwarding_def linux_disable_def Let_def)
  with run_cmds_log [OF run] iface off show ?thesis by (intro exI [of _ iface]) (simp add: m1)
qed

text \<open>A machine whose default route is over \<open>eth0\<close>, where the commands of the list \<open>bad\<close> fail.\<close>

definition demo_os :: "string list list \<Rightarrow> unit os_env" where
  "demo_os bad = \<lparr>os_goos = Linux,
     os_exec = (\<lambda>argv w. ((if argv \<in> set bad then Some (Plain ''exit status 1'') else None,
       if hd argv = ''ip'' then ''8.8.8.8 via 192.168.1.1 dev eth0 src 192.168.1.7'' else ''''), w)),
     os_open = (\<lambda>f w. (None, w)), os_write = (\<lambda>f t w. (None, w)), os_rand = (\<lambda>n w. (Inr (replicate n 255), w))\<rparr>"

lemma demo_route: "dev_field (Fields ''8.8.8.8 via 192.168.1.1 dev eth0 src 192.168.1.7'') = Some ''eth0''"
  by (simp add: Fields_def is_space_def)

lemmas gateway_defs = gw_Enable_def gw_Disable_def enableForwarding_def disableForwarding_def linux_enable_def linux_disable_def
  linux_outbound_iface_def demo_os_def demo_route gw_runCmd_def try_cmds_def gw_New_def defaultIface_def
  ip_forward_def masquerade_def forward_in_def forward_out_def

theorem gateway_disable_undoes_witness:
  "\<exists>m1 log1 m2 log2. gw_Enable (logged (demo_os [])) (gw_New Linux '''') ([], ()) = (None, m1, log1, ())
    \<and> gw_Disable (logged (demo_os [])) m1 ([], ()) = (None, m2, log2, ()) \<and> \<not> gw_enabled m2"
proof -
  obtain m1 log1 where on: "gw_Enable (logged (demo_os [])) (gw_New Linux '''') ([], ()) = (None, m1, log1, ())"
    by (simp add: gateway_defs)
  obtain x m2 log2 where off: "gw_Disable (logged (demo_os [])) m1 ([], ()) = (x, m2, log2, ())"
    by (metis (full_types) old.unit.exhaust prod_cases4)
  have "os_goos (demo_os []) = Linux" "\<not> gw_enabled (gw_New Linux '''')" by (simp_all add: demo_os_def gw_New_def)
  from gateway_disable_undoes [OF this on off] on off show ?thesis by (auto simp: gw_New_def)
qed

text \<open>An \<open>Enable\<close> that fails half-way is never undone: the rules it has added stay, and a later
  \<open>Disable\<close> runs no command at all, because the gateway does not count as enabled.\<close>

theorem gateway_partial_enable_leaks:
  assumes "os_goos E = Linux" and "\<not> gw_enabled m"
    and "gw_Enable (logged E) m (log, w) = (Some err, m1, log1, w1)"
  shows "gw_Disable (logged E) m1 (log1, w2) = (None, m1, log1, w2) \<and> gw_Enable (logged E) m1 (log1, w2) = gw_Enable (logged E) m (log1, w2)"
proof -
  have "m1 = m" using assms
    by (auto simp del: run_cmds.simps simp: gw_Enable_def enableForwarding_def linux_enable_def
        split: prod.splits option.splits sum.splits)
  with assms(2) show ?thesis by (simp add: gw_Disable_def)
qed

theorem gateway_partial_enable_leaks_witness:
  "\<exists>err m1 log1. gw_Enable (logged (demo_os [forward_out ''-A'' ''wg0''])) (gw_New Linux '''') ([], ()) = (Some err, m1, log1, ())
    \<and> masquerade ''-A'' ''eth0'' \<in> set log1
    \<and> gw_Disable (logged (demo_os [forward_out ''-A'' ''wg0''])) m1 (log1, ()) = (None, m1, log1, ())"
proof -
  let ?E = "demo_os [forward_out ''-A'' ''wg0'']"
  have "\<exists>err m1 log1. gw_Enable (logged ?E) (gw_New Linux '''') ([], ()) = (Some err, m1, log1, ())
      \<and> masquerade ''-A'' ''eth0'' \<in> set log1"
    by (simp add: gateway_defs)
  then obtain err m1 log1 where on: "gw_Enable (logged ?E) (gw_New Linux '''') ([], ()) = (Some err, m1, log1, ())"
    "masquerade ''-A'' ''eth0'' \<in> set log1" by blast
  have "os_goos ?E = Linux" "\<not> gw_enabled (gw_New Linux '''')" by (simp_all add: demo_os_def gw_New_def)
  from gateway_partial_enable_leaks [OF this on(1)] on show ?thesis by blast
qed

end
