(* ===== verification/Agent.thy ===== *)
theory Agent
  imports Agent_Client Bridge Wireguard Net_IP
begin

text \<open>
  The agent (\<open>src/services/agent/internal/agent/agent.go\<close> and \<open>clistate.go\<close>): start-up, the
  heartbeat, token and peer loops, and stopping. It works on the client, the bridge, WireGuard and
  the gateway of the imported theories; what they call outside the process is the record
  \<open>agent_env\<close> over a world \<open>'w\<close>. Go iterates a map in an order of its choice: the maps here are
  lists of pairs with distinct keys, and the order is the environment's. Logging is left out.
\<close>

section \<open>The environment and the state\<close>

text \<open>The state file that the agent shares with the command line (\<open>clistate.go\<close>).\<close>

record cliState =
  cs_PID :: int
  cs_VPNAddr :: string
  cs_Token :: string
  cs_LogFile :: string
  cs_StartedAt :: instant
  cs_ConfigFile :: string
  cs_IsExitNode :: bool
  cs_UseExitNode :: bool
  cs_ExitNodeID :: string

text \<open>\<open>ae_wait\<close> waits for a time and tells whether the context was done before; \<open>ae_sleep\<close> takes no
  notice of the context. \<open>ae_order\<close> is the
  order of an iteration over a map. \<open>ae_loadState\<close> reads the state file, as far as it can be read,
  and \<open>ae_saveState\<close> writes it, if it can be written.\<close>

record 'w agent_env =
  ae_rpcs :: "'w rpcs"
  ae_os :: "'w os_env"
  ae_libp2p :: "string \<Rightarrow> p2p_Manager result"
  ae_peerInfo :: "string \<Rightarrow> string result"
  ae_connect :: "string \<Rightarrow> 'w \<Rightarrow> go_error option \<times> 'w"
  ae_ping :: "string \<Rightarrow> 'w \<Rightarrow> go_error option \<times> 'w"
  ae_NewStream :: "string \<Rightarrow> 'w \<Rightarrow> nat result \<times> 'w"
  ae_listen :: "int \<Rightarrow> 'w \<Rightarrow> go_error option \<times> 'w"
  ae_ScalarBaseMult :: "8 word list \<Rightarrow> 8 word list"
  ae_wait :: "duration \<Rightarrow> 'w \<Rightarrow> bool \<times> 'w"
  ae_sleep :: "duration \<Rightarrow> 'w \<Rightarrow> 'w"
  ae_order :: "(string \<times> string) list \<Rightarrow> (string \<times> string) list"
  ae_loadState :: "'w \<Rightarrow> cliState"
  ae_saveState :: "cliState \<Rightarrow> 'w \<Rightarrow> 'w"

record Agent =
  a_cfg :: ag_Config
  a_client :: Client
  a_wg_mgr :: wg_Manager
  a_p2p_mgr :: "p2p_Manager option"
  a_bridge :: "Bridge option"
  a_gateway :: gw_Manager
  a_nodeID :: string
  a_vpnIP :: string
  a_publicKey :: string
  a_token :: string
  a_expiresAt :: int
  a_activePeers :: "(string \<times> string) list"

definition New_Agent :: "ag_Config \<Rightarrow> wg_Manager \<Rightarrow> goos \<Rightarrow> Agent" where
  "New_Agent cfg wgMgr os =
     \<lparr>a_cfg = cfg, a_client = new_Client, a_wg_mgr = wgMgr, a_p2p_mgr = None, a_bridge = None,
      a_gateway = gw_New os '''', a_nodeID = '''', a_vpnIP = '''', a_publicKey = '''', a_token = '''',
      a_expiresAt = 0, a_activePeers = []\<rparr>"

definition setToken :: "string \<Rightarrow> int \<Rightarrow> Agent \<Rightarrow> Agent" where
  "setToken token expiresAt a = a\<lparr>a_token := token, a_expiresAt := expiresAt\<rparr>"

definition getToken :: "Agent \<Rightarrow> string" where
  "getToken a = a_token a"

definition getExpiresAt :: "Agent \<Rightarrow> int" where
  "getExpiresAt a = a_expiresAt a"

text \<open>A write to a map.\<close>

definition map_set :: "string \<Rightarrow> string \<Rightarrow> (string \<times> string) list \<Rightarrow> (string \<times> string) list" where
  "map_set k v m = (k, v) # filter (\<lambda>x. fst x \<noteq> k) m"

definition map_delete :: "string \<Rightarrow> (string \<times> string) list \<Rightarrow> (string \<times> string) list" where
  "map_delete k m = filter (\<lambda>x. fst x \<noteq> k) m"

section \<open>Registration with retries\<close>

definition maxRetries :: nat where
  "maxRetries = 5"

text \<open>The loop from attempt \<open>i\<close> on, with \<open>n\<close> attempts left.\<close>

fun retry_loop ::
  "'w agent_env \<Rightarrow> string \<Rightarrow> string \<Rightarrow> nat \<Rightarrow> nat \<Rightarrow> Agent \<Rightarrow> 'w
    \<Rightarrow> (string \<times> string \<times> int) result \<times> Agent \<times> 'w" where
  "retry_loop E publicKey peerID 0 i a w = (Inl (Plain ''unreachable''), a, w)"
| "retry_loop E publicKey peerID (Suc n) i a w =
     (case c_Register (ae_rpcs E) publicKey peerID (ac_NetworkSecret (a_cfg a)) (a_client a) w of
        (Inr x, c, w1) \<Rightarrow> (Inr x, a\<lparr>a_client := c\<rparr>, w1)
      | (Inl err, c, w1) \<Rightarrow>
          if i = maxRetries - 1
          then (Inl (Wrapped ''registration failed after 5 attempts'' err), a\<lparr>a_client := c\<rparr>, w1)
          else let backoff = 2 ^ i * time_Second in
            (case ae_wait E backoff w1 of
               (True, w2) \<Rightarrow> (Inl (Plain ''context canceled''), a\<lparr>a_client := c\<rparr>, w2)
             | (False, w2) \<Rightarrow> retry_loop E publicKey peerID n (i + 1) (a\<lparr>a_client := c\<rparr>) w2))"

definition retryRegister ::
  "'w agent_env \<Rightarrow> string \<Rightarrow> string \<Rightarrow> Agent \<Rightarrow> 'w \<Rightarrow> (string \<times> string \<times> int) result \<times> Agent \<times> 'w" where
  "retryRegister E publicKey peerID a w = retry_loop E publicKey peerID maxRetries 0 a w"

section \<open>The heartbeat loop\<close>

definition heartbeat_backoff :: "int \<Rightarrow> duration" where
  "heartbeat_backoff failCount = min (failCount * failCount) 60 * time_Second"

text \<open>One tick: the new number of failures.\<close>

definition heartbeat_tick :: "'w agent_env \<Rightarrow> int \<Rightarrow> Agent \<Rightarrow> 'w \<Rightarrow> int \<times> Agent \<times> 'w" where
  "heartbeat_tick E failCount a w =
     (case c_Heartbeat (ae_rpcs E) (getToken a) (a_client a) w of
        (Some err, c, w1) \<Rightarrow>
          let failCount = failCount + 1 in
          (failCount, a\<lparr>a_client := c\<rparr>, ae_sleep E (heartbeat_backoff failCount) w1)
      | (None, c, w1) \<Rightarrow> (0, a\<lparr>a_client := c\<rparr>, w1))"

section \<open>The token refresh loop\<close>

text \<open>Rounding of an integer to a double: 53 significant bits, ties to even.\<close>

function bit_length :: "int \<Rightarrow> nat" where
  "bit_length n = (if n \<le> 0 then 0 else Suc (bit_length (n div 2)))"
  by pat_completeness auto
termination by (relation "measure nat") auto

declare bit_length.simps [simp del]

definition round53 :: "int \<Rightarrow> int" where
  "round53 x =
     (let n = \<bar>x\<bar>; s = bit_length n - 53; q = n div 2 ^ s; r = n mod 2 ^ s;
          up = (2 * r > 2 ^ s \<or> (2 * r = 2 ^ s \<and> odd q));
          m = (if up then q + 1 else q) * 2 ^ s in
      if x < 0 then - m else m)"

text \<open>\<open>time.Duration(float64(remaining) * 0.8)\<close>: the double nearest to 0.8 is 3602879701896397
  over \<open>2 ^ 52\<close>; the conversion truncates.\<close>

definition scale08 :: "duration \<Rightarrow> duration" where
  "scale08 remaining =
     (let p = round53 (round53 remaining * 3602879701896397) in
      if p < 0 then - (- p div 2 ^ 52) else p div 2 ^ 52)"

text \<open>\<open>time.Until\<close> saturates at the ends of \<open>Duration\<close>.\<close>

definition time_Until :: "instant \<Rightarrow> instant \<Rightarrow> duration" where
  "time_Until t now = max (- (2 ^ 63)) (min (t - now) (2 ^ 63 - 1))"

definition refreshIn :: "int \<Rightarrow> instant \<Rightarrow> duration" where
  "refreshIn expiresAt now =
     (let remaining = time_Until (from_unix expiresAt) now; r = scale08 remaining in
      if r < 30 * time_Second then 30 * time_Second else r)"

text \<open>One turn of the loop: it waits, and registers again unless the context is done, which ends the
  loop: the result starts with whether it goes on.\<close>

definition refresh_turn :: "'w agent_env \<Rightarrow> string \<Rightarrow> Agent \<Rightarrow> 'w \<Rightarrow> bool \<times> Agent \<times> 'w" where
  "refresh_turn E peerID a w =
     (case ae_wait E (refreshIn (getExpiresAt a) (rpc_clock (ae_rpcs E) w)) w of
        (True, w1) \<Rightarrow> (False, a, w1)
      | (False, w1) \<Rightarrow>
          (case retryRegister E (a_publicKey a) peerID a w1 of
             (Inl err, a1, w2) \<Rightarrow> (True, a1, w2)
           | (Inr (_, token, expiresAt), a1, w2) \<Rightarrow> (True, setToken token expiresAt a1, w2)))"

section \<open>Peer synchronisation\<close>

text \<open>The choice of the exit node: the loop over the peers, with its \<open>break\<close>.\<close>

fun exit_loop :: "string \<Rightarrow> string \<Rightarrow> string \<Rightarrow> ProtoPeer list \<Rightarrow> string" where
  "exit_loop want self exitNodeID [] = exitNodeID"
| "exit_loop want self exitNodeID (p # ps) =
     (if \<not> pp_IsExitNode p \<or> pp_NodeId p = self then exit_loop want self exitNodeID ps
      else if want \<noteq> '''' \<and> pp_NodeId p = want then pp_NodeId p
      else if want = '''' \<and> exitNodeID = '''' then exit_loop want self (pp_NodeId p) ps
      else exit_loop want self exitNodeID ps)"

definition choose_exit :: "ag_Config \<Rightarrow> string \<Rightarrow> ProtoPeer list \<Rightarrow> string" where
  "choose_exit cfg self peers =
     (if ac_UseExitNode cfg then exit_loop (ac_ExitNodeID cfg) self '''' peers else '''')"

text \<open>The online peers with their keys; a peer whose key cannot be had is left out.\<close>

fun online_loop ::
  "'w agent_env \<Rightarrow> ProtoPeer list \<Rightarrow> (string \<times> string) list \<Rightarrow> Agent \<Rightarrow> 'w
    \<Rightarrow> (string \<times> string) list \<times> Agent \<times> 'w" where
  "online_loop E [] online a w = (online, a, w)"
| "online_loop E (p # ps) online a w =
     (if pp_NodeId p = a_nodeID a then online_loop E ps online a w
      else case c_GetPeerPublicKey (ae_rpcs E) (pp_NodeId p) (a_client a) w of
        (Inl err, c, w1) \<Rightarrow> online_loop E ps online (a\<lparr>a_client := c\<rparr>) w1
      | (Inr key, c, w1) \<Rightarrow> online_loop E ps (map_set (pp_NodeId p) key online) (a\<lparr>a_client := c\<rparr>) w1)"

text \<open>Connecting to a peer over libp2p and adding it to the bridge: the proxy port, 0 if it fails.
  The same steps run in a goroutine at start-up.\<close>

definition connect_peer :: "'w agent_env \<Rightarrow> string list \<Rightarrow> Bridge \<Rightarrow> 'w \<Rightarrow> int \<times> Bridge \<times> 'w" where
  "connect_peer E addrs b w =
     (case addrs of
        [] \<Rightarrow> (0, b, w)
      | addr # _ \<Rightarrow>
          (case ae_peerInfo E addr of
             Inl err \<Rightarrow> (0, b, w)
           | Inr pInfo \<Rightarrow>
               (case ConnectAndPing (ae_connect E) (ae_ping E) pInfo w of
                  (Some err, w1) \<Rightarrow> (0, b, w1)
                | (None, w1) \<Rightarrow>
                    (case bridge_AddPeer (ae_listen E) (ae_NewStream E) pInfo b w1 of
                       (Inl err, b1, w2) \<Rightarrow> (0, b1, w2)
                     | (Inr port, b1, w2) \<Rightarrow> (port, b1, w2)))))"

definition allowed_ips :: "string \<Rightarrow> string \<Rightarrow> string \<Rightarrow> string \<Rightarrow> string" where
  "allowed_ips networkCIDR exitNodeID nodeID vpnIP =
     (if nodeID = exitNodeID then ''0.0.0.0/0, ::/0''
      else if vpnIP = '''' then networkCIDR
      else vpnIP @ ''/32'')"

definition proxy_endpoint :: "int \<Rightarrow> string" where
  "proxy_endpoint proxyPort = ''127.0.0.1:'' @ itoa proxyPort"

text \<open>The loop over the online peers that are not active yet.\<close>

fun add_loop ::
  "'w agent_env \<Rightarrow> string \<Rightarrow> string \<Rightarrow> ProtoPeer list \<Rightarrow> (string \<times> string) list \<Rightarrow> Bridge \<Rightarrow> Agent \<Rightarrow> 'w
    \<Rightarrow> (Bridge \<times> Agent) outcome \<times> 'w" where
  "add_loop E cidr exitNodeID peers [] b a w = (Returned (b, a), w)"
| "add_loop E cidr exitNodeID peers ((nodeID, pubKey) # online) b a w =
     (if map_of (a_activePeers a) nodeID \<noteq> None then add_loop E cidr exitNodeID peers online b a w
      else
        let (p2pAddrs, vpnIP) = (case find (\<lambda>p. pp_NodeId p = nodeID) peers of
                                   None \<Rightarrow> ([], '''') | Some p \<Rightarrow> (pp_P2PAddrs p, pp_IpAddress p)) in
        (case connect_peer E p2pAddrs b w of
           (proxyPort, b1, w1) \<Rightarrow>
             if proxyPort = 0 then add_loop E cidr exitNodeID peers online b1 a w1
             else
               (case wg_AddPeer (ae_os E) (a_wg_mgr a)
                       \<lparr>wp_PublicKey = pubKey, wp_Endpoint = proxy_endpoint proxyPort,
                        wp_AllowedIPs = allowed_ips cidr exitNodeID nodeID vpnIP\<rparr> w1 of
                  (Panicked, w2) \<Rightarrow> (Panicked, w2)
                | (Returned (Some err), w2) \<Rightarrow> add_loop E cidr exitNodeID peers online b1 a w2
                | (Returned None, w2) \<Rightarrow>
                    add_loop E cidr exitNodeID peers online b1
                      (a\<lparr>a_activePeers := map_set nodeID pubKey (a_activePeers a)\<rparr>) w2)))"

text \<open>The loop that removes the active peers that are not online.\<close>

fun remove_loop ::
  "'w agent_env \<Rightarrow> (string \<times> string) list \<Rightarrow> (string \<times> string) list \<Rightarrow> Agent \<Rightarrow> 'w \<Rightarrow> Agent outcome \<times> 'w" where
  "remove_loop E online [] a w = (Returned a, w)"
| "remove_loop E online ((nodeID, pubKey) # active) a w =
     (if map_of online nodeID \<noteq> None then remove_loop E online active a w
      else
        (case wg_RemovePeer (ae_os E) (a_wg_mgr a) pubKey w of
           (Panicked, w1) \<Rightarrow> (Panicked, w1)
         | (Returned (Some err), w1) \<Rightarrow> remove_loop E online active a w1
         | (Returned None, w1) \<Rightarrow>
             remove_loop E online active (a\<lparr>a_activePeers := map_delete nodeID (a_activePeers a)\<rparr>) w1))"

definition syncPeers :: "'w agent_env \<Rightarrow> string \<Rightarrow> Bridge \<Rightarrow> Agent \<Rightarrow> 'w \<Rightarrow> (Bridge \<times> Agent) outcome \<times> 'w" where
  "syncPeers E networkCIDR b a w =
     (case c_DiscoverPeers (ae_rpcs E) (getToken a) 50 (a_client a) w of
        (Inl err, c, w1) \<Rightarrow> (Returned (b, a\<lparr>a_client := c\<rparr>), w1)
      | (Inr peers, c, w1) \<Rightarrow>
          let a1 = a\<lparr>a_client := c\<rparr>; exitNodeID = choose_exit (a_cfg a1) (a_nodeID a1) peers in
          (case online_loop E peers [] a1 w1 of
             (online, a2, w2) \<Rightarrow>
               (case add_loop E networkCIDR exitNodeID peers (ae_order E online) b a2 w2 of
                  (Panicked, w3) \<Rightarrow> (Panicked, w3)
                | (Returned (b3, a3), w3) \<Rightarrow>
                    (case remove_loop E online (ae_order E (a_activePeers a3)) a3 w3 of
                       (Panicked, w4) \<Rightarrow> (Panicked, w4)
                     | (Returned a4, w4) \<Rightarrow> (Returned (b3, a4), w4)))))"

section \<open>Starting\<close>

definition maskToCIDR :: "string \<Rightarrow> nat" where
  "maskToCIDR netmask =
     (case ParseIP netmask of
        None \<Rightarrow> 24
      | Some ip \<Rightarrow> fst (IPMask_Size (case To4 ip of Some m \<Rightarrow> m | None \<Rightarrow> [])))"

definition updateCLIState :: "'w agent_env \<Rightarrow> Agent \<Rightarrow> string \<Rightarrow> string \<Rightarrow> 'w \<Rightarrow> 'w" where
  "updateCLIState E a vpnAddr token w =
     ae_saveState E ((ae_loadState E w)\<lparr>cs_VPNAddr := vpnAddr, cs_Token := token,
       cs_IsExitNode := ac_IsExitNode (a_cfg a), cs_UseExitNode := ac_UseExitNode (a_cfg a),
       cs_ExitNodeID := ac_ExitNodeID (a_cfg a)\<rparr>) w"

text \<open>The goroutines that connect to the discovered peers, by the addresses they connect to.\<close>

definition start_goroutines :: "string \<Rightarrow> ProtoPeer list \<Rightarrow> string list list" where
  "start_goroutines self peers =
     map pp_P2PAddrs (filter (\<lambda>p. pp_NodeId p \<noteq> self \<and> pp_P2PAddrs p \<noteq> []) peers)"

definition run_goroutines :: "'w agent_env \<Rightarrow> string list list \<Rightarrow> Bridge \<Rightarrow> 'w \<Rightarrow> Bridge \<times> 'w" where
  "run_goroutines E gs b w = fold (\<lambda>addrs (b, w). snd (connect_peer E addrs b w)) gs (b, w)"

text \<open>The loop over the discovered peers, which races with the goroutines: \<open>sched k pending\<close> are those
  of the pending ones that finish before its turn \<open>k\<close>, in the order they finish.\<close>

fun start_loop ::
  "'w agent_env \<Rightarrow> (nat \<Rightarrow> string list list \<Rightarrow> string list list) \<Rightarrow> nat \<Rightarrow> string list list \<Rightarrow> ProtoPeer list
    \<Rightarrow> PeerConfig list \<Rightarrow> Bridge \<Rightarrow> Agent \<Rightarrow> 'w
    \<Rightarrow> (PeerConfig list \<times> string list list \<times> Bridge \<times> Agent) outcome \<times> 'w" where
  "start_loop E sched k pending [] wps b a w = (Returned (wps, pending, b, a), w)"
| "start_loop E sched k pending (p # ps) wps b a w =
     (let finished = sched k pending; pending = fold remove1 finished pending;
          (b, w) = run_goroutines E finished b w in
      if pp_NodeId p = a_nodeID a then start_loop E sched (k + 1) pending ps wps b a w
      else case c_GetPeerPublicKey (ae_rpcs E) (pp_NodeId p) (a_client a) w of
        (Inl err, c, w) \<Rightarrow> start_loop E sched (k + 1) pending ps wps b (a\<lparr>a_client := c\<rparr>) w
      | (Inr peerKey, c, w) \<Rightarrow>
          (case pp_P2PAddrs p of
             [] \<Rightarrow> (Panicked, w)
           | addr # _ \<Rightarrow>
               let a = a\<lparr>a_client := c\<rparr>;
                   endpoint = (case ae_peerInfo E addr of
                       Inl _ \<Rightarrow> ''''
                     | Inr pInfo \<Rightarrow> (case GetProxyPort pInfo b of (port, ok) \<Rightarrow> if ok then proxy_endpoint port else '''')) in
               if endpoint = '''' then start_loop E sched (k + 1) pending ps wps b a w
               else start_loop E sched (k + 1) pending ps
                 (wps @ [\<lparr>wp_PublicKey = peerKey, wp_Endpoint = endpoint, wp_AllowedIPs = pp_IpAddress p @ ''/32''\<rparr>]) b
                 (a\<lparr>a_activePeers := map_set (pp_NodeId p) peerKey (a_activePeers a)\<rparr>) w))"

text \<open>The configuration of the tunnel, without its peers.\<close>

definition start_wgConfig :: "ag_Config \<Rightarrow> string \<Rightarrow> GetConfigResponse \<Rightarrow> string \<Rightarrow> string \<Rightarrow> wg_Config" where
  "start_wgConfig cfg privateKey netCfg ip subnet =
     \<lparr>wc_PrivateKey = privateKey, wc_ListenPort = ac_WireGuardPort cfg,
      wc_Address = ip @ ''/'' @ itoa (int (maskToCIDR subnet)), wc_MTU = gcr_Mtu netCfg,
      wc_DNS = (if ac_UseExitNode cfg then ac_ExitNodeDNS cfg
                else if gcr_DnsServers netCfg \<noteq> [] then Join '', '' (gcr_DnsServers netCfg) else ''''),
      wc_Peers = []\<rparr>"

text \<open>What is left when \<open>Start\<close> ends: its error, or the network that the synchronisation is started with,
  the goroutines that have not finished, and the bridge; the three loops are started then.\<close>

datatype started = StartFailed go_error | Running string "string list list" Bridge

text \<open>From the registration with the discovery service to the end.\<close>

definition start_peers ::
  "'w agent_env \<Rightarrow> (nat \<Rightarrow> string list list \<Rightarrow> string list list) \<Rightarrow> string \<Rightarrow> wg_Config \<Rightarrow> p2p_Manager \<Rightarrow> Bridge \<Rightarrow> Agent \<Rightarrow> 'w
    \<Rightarrow> started outcome \<times> Agent \<times> 'w" where
  "start_peers E sched networkCIDR wgCfg m b a w =
     (case c_RegisterPeer (ae_rpcs E) (a_token a) (a_vpnIP a) (int32 (ac_WireGuardPort (a_cfg a))) (PeerID_p2p m)
             (Multiaddrs m) (ac_IsExitNode (a_cfg a)) (a_client a) w of
        (Some err, c, w1) \<Rightarrow> (Returned (StartFailed err), a\<lparr>a_client := c\<rparr>, w1)
      | (None, c, w1) \<Rightarrow>
          let a1 = a\<lparr>a_client := c\<rparr>;
              (gw, w2) = (if ac_IsExitNode (a_cfg a1) then snd (gw_Enable (ae_os E) (a_gateway a1) w1) else (a_gateway a1, w1));
              a2 = a1\<lparr>a_gateway := gw\<rparr>;
              (found, c, w3) = c_DiscoverPeers (ae_rpcs E) (getToken a2) 10 (a_client a2) w2;
              a3 = a2\<lparr>a_client := c\<rparr>;
              peers = (case found of Inl _ \<Rightarrow> [] | Inr ps \<Rightarrow> ps) in
          (case start_loop E sched 0 (start_goroutines (a_nodeID a3) peers) peers [] b a3 w3 of
             (Panicked, w4) \<Rightarrow> (Panicked, a3, w4)
           | (Returned (wps, pending, b, a4), w4) \<Rightarrow>
               (case Configure (ae_os E) (a_wg_mgr a4) (wgCfg\<lparr>wc_Peers := wps\<rparr>) w4 of
                  (_, w5) \<Rightarrow> (Returned (Running networkCIDR pending b), a4\<lparr>a_bridge := Some b\<rparr>, w5))))"

definition Start ::
  "'w agent_env \<Rightarrow> (nat \<Rightarrow> string list list \<Rightarrow> string list list) \<Rightarrow> Agent \<Rightarrow> 'w \<Rightarrow> started outcome \<times> Agent \<times> 'w" where
  "Start E sched a w =
     (case p2p_New (ae_libp2p E) (ac_P2PPort (a_cfg a)) of
        Inl err \<Rightarrow> (Returned (StartFailed (Wrapped ''failed to start p2p host'' err)), a, w)
      | Inr m \<Rightarrow>
          let wgPort = ac_WireGuardPort (a_cfg a);
              b = NewBridge (host_ID m) wgPort (wgPort + 100);
              a = a\<lparr>a_p2p_mgr := Some m, a_bridge := Some b\<rparr> in
          (case GenerateKeyPair (ae_os E) (ae_ScalarBaseMult E) w of
             (Inl err, w) \<Rightarrow> (Returned (StartFailed err), a, w)
           | (Inr keyPair, w) \<Rightarrow>
               let a = a\<lparr>a_publicKey := kp_PublicKey keyPair\<rparr> in
               (case slice_to 16 (kp_PublicKey keyPair) of
                  Panicked \<Rightarrow> (Panicked, a, w)
                | Returned _ \<Rightarrow>
               (case retryRegister E (kp_PublicKey keyPair) (PeerID_p2p m) a w of
                  (Inl err, a, w) \<Rightarrow> (Returned (StartFailed err), a, w)
                | (Inr (nodeID, token, expiresAt), a, w) \<Rightarrow>
                    let a = setToken token expiresAt (a\<lparr>a_nodeID := nodeID\<rparr>) in
               (case c_GetNetworkConfig (ae_rpcs E) (a_token a) (a_client a) w of
                  (Inl err, c, w) \<Rightarrow> (Returned (StartFailed err), a\<lparr>a_client := c\<rparr>, w)
                | (Inr netCfg, c, w) \<Rightarrow>
                    let a = a\<lparr>a_client := c\<rparr> in
               (case c_RequestIP (ae_rpcs E) (a_token a) (a_nodeID a) (a_client a) w of
                  (Inl err, c, w) \<Rightarrow> (Returned (StartFailed err), a\<lparr>a_client := c\<rparr>, w)
                | (Inr (ip, subnet, gw), c, w) \<Rightarrow>
                    let a = a\<lparr>a_client := c, a_vpnIP := ip\<rparr>;
                        w = updateCLIState E a ip token w in
                    start_peers E sched (gcr_NetworkCidr netCfg) (start_wgConfig (a_cfg a) (kp_PrivateKey keyPair) netCfg ip subnet) m b a w))))))"

section \<open>Stopping\<close>

text \<open>After the loops have ended; the errors are only logged.\<close>

definition Stop :: "'w agent_env \<Rightarrow> Agent \<Rightarrow> 'w \<Rightarrow> Agent \<times> 'w" where
  "Stop E a w =
     (let tok = getToken a;
          (c, w) = (if a_vpnIP a \<noteq> '''' \<and> tok \<noteq> ''''
                    then snd (c_ReleaseIP (ae_rpcs E) tok (a_nodeID a) (a_vpnIP a) (a_client a) w) else (a_client a, w));
          a = a\<lparr>a_client := c\<rparr>;
          w = snd (wg_Down (ae_os E) (a_wg_mgr a) w);
          a = a\<lparr>a_bridge := map_option bridge_Close (a_bridge a)\<rparr>;
          (gw, w) = (if ac_IsExitNode (a_cfg a) then snd (gw_Disable (ae_os E) (a_gateway a) w) else (a_gateway a, w)) in
      (a\<lparr>a_gateway := gw\<rparr>, w))"

section \<open>Lemmas: the refresh delay\<close>

lemma bit_length_bounds:
  assumes "0 < n"
  shows "2 ^ (bit_length n - 1) \<le> n \<and> n < 2 ^ bit_length n \<and> 0 < bit_length n"
  using assms
proof (induction n rule: bit_length.induct)
  case (1 n)
  show ?case
  proof (cases "n = 1")
    case True
    then show ?thesis by (simp add: bit_length.simps)
  next
    case False
    with 1 have "2 ^ (bit_length (n div 2) - 1) \<le> n div 2" "n div 2 < 2 ^ bit_length (n div 2)" "0 < bit_length (n div 2)"
      by auto
    then have "2 * 2 ^ (bit_length (n div 2) - 1) \<le> n" "n < 2 * 2 ^ bit_length (n div 2)" by linarith+
    moreover have "bit_length n = Suc (bit_length (n div 2))" using 1 by (simp add: bit_length.simps [of n])
    ultimately show ?thesis using \<open>0 < bit_length (n div 2)\<close>
      by (cases "bit_length (n div 2)") simp_all
  qed
qed

text \<open>Rounding adds at most a part in \<open>2 ^ 53\<close>.\<close>

lemma round53_upper:
  assumes "0 \<le> x"
  shows "0 \<le> round53 x \<and> 2 ^ 53 * round53 x \<le> (2 ^ 53 + 1) * x"
proof (cases "bit_length x - 53")
  case 0
  with assms show ?thesis by (simp add: round53_def Let_def)
next
  case (Suc t)
  define s where "s = bit_length x - 53"
  have x: "0 < x"
  proof (rule ccontr)
    assume "\<not> 0 < x"
    with assms have "x = 0" by simp
    with Suc show False by (simp add: bit_length.simps)
  qed
  define q r where "q = x div 2 ^ s" and "r = x mod 2 ^ s"
  have xqr: "x = q * 2 ^ s + r" unfolding q_def r_def by (rule div_mult_mod_eq [symmetric])
  have r: "0 \<le> r" "r < 2 ^ s" by (simp_all add: r_def)
  have "2 ^ (bit_length x - 1) \<le> x" using bit_length_bounds [OF x] by simp
  moreover have "bit_length x - 1 = s + 52" using Suc by (simp add: s_def)
  ultimately have big: "2 ^ s * 2 ^ 52 \<le> x" by (simp add: power_add)
  define up where "up \<longleftrightarrow> 2 * r > 2 ^ s \<or> (2 * r = 2 ^ s \<and> odd q)"
  have rd: "round53 x = (if up then q + 1 else q) * 2 ^ s"
    using assms by (simp add: round53_def Let_def s_def q_def r_def up_def)
  have q0: "0 \<le> q" using assms by (simp add: q_def pos_imp_zdiv_nonneg_iff)
  show ?thesis
  proof (cases up)
    case False
    have "2 ^ 53 * (q * 2 ^ s) \<le> (2 ^ 53 + 1) * x" using xqr r assms by simp
    with rd False q0 show ?thesis by simp
  next
    case True
    then have half: "2 ^ s \<le> 2 * r" by (auto simp: up_def)
    have "round53 x = x - r + 2 ^ s" using rd True xqr by (simp add: algebra_simps)
    then have "2 * round53 x \<le> 2 * x + 2 ^ s" using half by simp
    then have "2 ^ 53 * round53 x \<le> 2 ^ 53 * x + 2 ^ s * 2 ^ 52" by simp
    with big have "2 ^ 53 * round53 x \<le> (2 ^ 53 + 1) * x" by (simp add: algebra_simps)
    moreover have "0 \<le> round53 x" using rd True q0 by simp
    ultimately show ?thesis by simp
  qed
qed

lemma scale08_le:
  assumes "0 \<le> x" and "x < 2 ^ 63"
  shows "0 \<le> scale08 x \<and> scale08 x \<le> x"
proof -
  define a where "a = round53 x"
  define p where "p = round53 (a * 3602879701896397)"
  have a: "0 \<le> a" "2 ^ 53 * a \<le> (2 ^ 53 + 1) * x" using round53_upper [of x] assms by (simp_all add: a_def)
  with round53_upper [of "a * 3602879701896397"]
  have p: "0 \<le> p" "2 ^ 53 * p \<le> (2 ^ 53 + 1) * (a * 3602879701896397)" by (simp_all add: p_def)
  have "p \<le> 2 ^ 52 * x" using a(2) p(2) assms by simp
  then have "p div 2 ^ 52 \<le> x" using p(1) by simp
  moreover have "0 \<le> p div 2 ^ 52" using p(1) by (simp add: pos_imp_zdiv_nonneg_iff)
  ultimately show ?thesis using p(1) by (simp add: scale08_def Let_def a_def [symmetric] p_def [symmetric])
qed

lemma round53_neg: "x < 0 \<Longrightarrow> round53 x = - round53 (- x)"
  by (simp add: round53_def Let_def)

lemma scale08_neg:
  assumes "x < 0"
  shows "scale08 x \<le> 0"
proof -
  have "round53 x \<le> 0" if "x \<le> 0" for x
    using that round53_neg [of x] round53_upper [of "- x"] round53_upper [of x] by (cases "x = 0") auto
  from this [of x] this [of "round53 x * 3602879701896397"] assms
  show ?thesis by (auto simp: scale08_def Let_def pos_imp_zdiv_nonneg_iff)
qed

section \<open>Lemmas: synchronisation\<close>

lemma map_of_map_set: "map_of (map_set k v m) n = (if n = k then Some v else map_of m n)"
proof -
  have "map_of (filter (\<lambda>x. fst x \<noteq> k) m) n = map_of m n" if "n \<noteq> k"
    using that by (induction m) auto
  then show ?thesis by (simp add: map_set_def)
qed

lemma map_of_map_delete: "map_of (map_delete k m) n = (if n = k then None else map_of m n)"
  by (induction m) (auto simp: map_delete_def)

lemma distinct_map_set [simp]:
  "distinct (map fst m) \<Longrightarrow> distinct (map fst (map_set k v m))"
  "distinct (map fst m) \<Longrightarrow> distinct (map fst (map_delete k m))"
  by (auto simp: map_set_def map_delete_def distinct_map_filter)

text \<open>What the loops change: the client in the first, the active peers in the others.\<close>

lemma subset_insert_step: "A \<subseteq> B \<union> (C - {s}) \<Longrightarrow> B \<subseteq> D \<union> {p} \<Longrightarrow> p \<noteq> s \<Longrightarrow> A \<subseteq> D \<union> (insert p C - {s})"
  by blast

lemma online_loop_frame:
  assumes "online_loop E ps on a w = (on', a', w')"
  shows "(\<exists>c. a' = a\<lparr>a_client := c\<rparr>) \<and> dom (map_of on') \<subseteq> dom (map_of on) \<union> (pp_NodeId ` set ps - {a_nodeID a})
    \<and> (distinct (map fst on) \<longrightarrow> distinct (map fst on'))"
  using assms
proof (induction ps arbitrary: on a w)
  case Nil
  then show ?case by (metis Agent.surjective Agent.update_convs(2) Un_upper1 old.prod.inject online_loop.simps(1))
next
  case (Cons p ps)
  show ?case
  proof (cases "pp_NodeId p = a_nodeID a")
    case True
    with Cons.prems Cons.IH [of on a w] show ?thesis by auto
  next
    case False
    obtain x c w1 where x: "c_GetPeerPublicKey (ae_rpcs E) (pp_NodeId p) (a_client a) w = (x, c, w1)"
      using prod_cases3 by blast
    let ?a = "a\<lparr>a_client := c\<rparr>"
    define on1 where "on1 = (case x of Inl _ \<Rightarrow> on | Inr key \<Rightarrow> map_set (pp_NodeId p) key on)"
    have "online_loop E ps on1 ?a w1 = (on', a', w')" using Cons.prems False x
      by (cases x) (simp_all add: on1_def)
    from Cons.IH [OF this] obtain c' where "a' = ?a\<lparr>a_client := c'\<rparr>"
      and d: "dom (map_of on') \<subseteq> dom (map_of on1) \<union> (pp_NodeId ` set ps - {a_nodeID a})"
        "distinct (map fst on1) \<longrightarrow> distinct (map fst on')" by auto
    then have "a' = a\<lparr>a_client := c'\<rparr>" by simp
    then have "\<exists>c. a' = a\<lparr>a_client := c\<rparr>" by (rule exI)
    moreover have "dom (map_of on1) \<subseteq> dom (map_of on) \<union> {pp_NodeId p}"
      by (cases x) (auto simp: on1_def map_of_map_set dom_def)
    then have "dom (map_of on') \<subseteq> dom (map_of on) \<union> (pp_NodeId ` set (p # ps) - {a_nodeID a})"
      unfolding list.set image_insert by (rule subset_insert_step [OF d(1) _ False])
    moreover have "distinct (map fst on) \<Longrightarrow> distinct (map fst on1)"
      by (cases x) (simp_all add: on1_def)
    ultimately show ?thesis using d(2) by blast
  qed
qed

text \<open>A map after entries of \<open>xs\<close> were added, and after keys outside \<open>on\<close> were deleted.\<close>

definition adds :: "(string \<times> string) list \<Rightarrow> (string \<times> string) list \<Rightarrow> (string \<times> string) list \<Rightarrow> bool" where
  "adds xs m m' \<longleftrightarrow> (\<forall>n. map_of m' n = map_of m n \<or> map_of m n = None \<and> (\<exists>k. map_of m' n = Some k \<and> (n, k) \<in> set xs))"

definition drops :: "(string \<times> string) list \<Rightarrow> (string \<times> string) list \<Rightarrow> (string \<times> string) list \<Rightarrow> bool" where
  "drops on m m' \<longleftrightarrow> (\<forall>n. map_of m' n = map_of m n \<or> map_of on n = None \<and> map_of m' n = None)"

lemma adds_refl [simp]: "adds xs m m"
  by (simp add: adds_def)

lemma drops_refl [simp]: "drops on m m"
  by (simp add: drops_def)

lemma adds_Cons: "adds xs m m' \<Longrightarrow> adds (x # xs) m m'"
  unfolding adds_def by (meson list.set_intros(2))

lemma adds_set:
  assumes "adds xs (map_set n k m) m'" and "map_of m n = None"
  shows "adds ((n, k) # xs) m m'"
  unfolding adds_def
proof
  fix j
  from assms(1) have "map_of m' j = map_of (map_set n k m) j
    \<or> map_of (map_set n k m) j = None \<and> (\<exists>k. map_of m' j = Some k \<and> (j, k) \<in> set xs)" by (simp add: adds_def)
  with assms(2) show "map_of m' j = map_of m j
    \<or> map_of m j = None \<and> (\<exists>ka. map_of m' j = Some ka \<and> (j, ka) \<in> set ((n, k) # xs))"
    by (cases "j = n") (auto simp: map_of_map_set)
qed

lemma drops_delete:
  assumes "drops on (map_delete n m) m'" and "map_of on n = None"
  shows "drops on m m' \<and> map_of m' n = None"
proof -
  have j: "map_of m' j = (if j = n then None else map_of m j) \<or> map_of on j = None \<and> map_of m' j = None" for j
    using assms(1) unfolding drops_def map_of_map_delete by blast
  have "drops on m m'" unfolding drops_def
  proof
    fix j
    show "map_of m' j = map_of m j \<or> map_of on j = None \<and> map_of m' j = None"
      using j [of j] assms(2) by (cases "j = n") auto
  qed
  with j [of n] show ?thesis by auto
qed

lemma add_loop_active:
  "add_loop E cidr ex peers xs b a w = (Returned (b', a'), w') \<Longrightarrow>
   \<exists>act. a' = a\<lparr>a_activePeers := act\<rparr> \<and> adds xs (a_activePeers a) act"
proof (induction xs arbitrary: b a w)
  case Nil
  then show ?case by (intro exI [of _ "a_activePeers a"]) simp
next
  case (Cons x xs)
  obtain n k where x: "x = (n, k)" by fastforce
  show ?case
  proof (cases "map_of (a_activePeers a) n = None")
    case False
    with Cons.prems x have "add_loop E cidr ex peers xs b a w = (Returned (b', a'), w')" by simp
    from Cons.IH [OF this] adds_Cons show ?thesis by blast
  next
    case True
    obtain addrs ip where pa: "(case find (\<lambda>p. pp_NodeId p = n) peers of
        None \<Rightarrow> ([], '''') | Some p \<Rightarrow> (pp_P2PAddrs p, pp_IpAddress p)) = (addrs, ip)" by fastforce
    obtain port b1 w1 where c: "connect_peer E addrs b w = (port, b1, w1)" using prod_cases3 by blast
    obtain y w2 where y: "wg_AddPeer (ae_os E) (a_wg_mgr a) \<lparr>wp_PublicKey = k, wp_Endpoint = proxy_endpoint port,
        wp_AllowedIPs = allowed_ips cidr ex n ip\<rparr> w1 = (y, w2)" by fastforce
    consider (skip) w0 where "add_loop E cidr ex peers xs b1 a w0 = (Returned (b', a'), w')"
      | (added) "add_loop E cidr ex peers xs b1 (a\<lparr>a_activePeers := map_set n k (a_activePeers a)\<rparr>) w2 = (Returned (b', a'), w')"
      using Cons.prems True x pa c y
      by (auto split: if_splits outcome.splits option.splits)
    then show ?thesis
    proof cases
      case skip
      from Cons.IH [OF this] adds_Cons show ?thesis by blast
    next
      case added
      from Cons.IH [OF this] obtain act where "a' = a\<lparr>a_activePeers := act\<rparr>"
        "adds xs (map_set n k (a_activePeers a)) act" by auto
      with adds_set True x show ?thesis by blast
    qed
  qed
qed

lemma add_loop_nothing:
  "\<forall>(n, k) \<in> set xs. map_of (a_activePeers a) n \<noteq> None \<Longrightarrow>
   add_loop E cidr ex peers xs b a w = (Returned (b, a), w)"
  by (induction xs) auto

lemma wg_RemovePeer_fails:
  "wg_RemovePeer Os m k w = (Returned (Some err), w1) \<Longrightarrow> \<exists>argv w. fst (fst (os_exec Os argv w)) \<noteq> None"
  by (intro exI [of _ "[''wg'', ''set'', wg_iface m, ''peer'', k, ''remove'']"] exI [of _ w])
    (auto simp: wg_RemovePeer_def runWG_def wg_runCmd_def split: if_splits outcome.splits option.splits prod.splits)

lemma remove_loop_active:
  "remove_loop E on xs a w = (Returned a', w') \<Longrightarrow>
   \<exists>act. a' = a\<lparr>a_activePeers := act\<rparr> \<and> drops on (a_activePeers a) act
     \<and> ((\<forall>argv w. fst (fst (os_exec (ae_os E) argv w)) = None) \<longrightarrow>
        (\<forall>n. n \<in> fst ` set xs \<longrightarrow> map_of on n = None \<longrightarrow> map_of act n = None))"
proof (induction xs arbitrary: a w)
  case Nil
  then show ?case by (intro exI [of _ "a_activePeers a"]) simp
next
  case (Cons x xs)
  obtain n k where x: "x = (n, k)" by fastforce
  show ?case
  proof (cases "map_of on n = None")
    case False
    with Cons.prems x have "remove_loop E on xs a w = (Returned a', w')" by auto
    from Cons.IH [OF this] x False show ?thesis by auto
  next
    case True
    obtain y w1 where y: "wg_RemovePeer (ae_os E) (a_wg_mgr a) k w = (y, w1)" by fastforce
    consider (failed) err where "y = Returned (Some err)" "remove_loop E on xs a w1 = (Returned a', w')"
      | (removed) "remove_loop E on xs (a\<lparr>a_activePeers := map_delete n (a_activePeers a)\<rparr>) w1 = (Returned a', w')"
      using Cons.prems True x y by (auto split: outcome.splits option.splits)
    then show ?thesis
    proof cases
      case failed
      then have "\<not> (\<forall>argv w. fst (fst (os_exec (ae_os E) argv w)) = None)"
        using wg_RemovePeer_fails y by metis
      with Cons.IH [OF failed(2)] show ?thesis by blast
    next
      case removed
      from Cons.IH [OF this] obtain act where act: "a' = a\<lparr>a_activePeers := act\<rparr>"
        "drops on (map_delete n (a_activePeers a)) act"
        "(\<forall>argv w. fst (fst (os_exec (ae_os E) argv w)) = None) \<longrightarrow>
           (\<forall>n. n \<in> fst ` set xs \<longrightarrow> map_of on n = None \<longrightarrow> map_of act n = None)" by auto
      with drops_delete [OF act(2) True] x show ?thesis by (intro exI [of _ act]) auto
    qed
  qed
qed

lemma remove_loop_nothing:
  "\<forall>(n, k) \<in> set xs. map_of on n \<noteq> None \<Longrightarrow> remove_loop E on xs a w = (Returned a, w)"
  by (induction xs) auto

section \<open>Lemmas: retries\<close>

text \<open>The world of an outage: the identity service fails before time \<open>T\<close> and answers from then on;
  time passes only while waiting.\<close>

locale outage =
  fixes E :: "'w agent_env" and T :: instant and resp :: RegisterNodeResponse
  assumes fails: "rpc_clock (ae_rpcs E) w < T \<Longrightarrow> \<exists>m. rpc_RegisterNode (ae_rpcs E) q w = (Inl (Plain m), w)"
    and answers: "T \<le> rpc_clock (ae_rpcs E) w \<Longrightarrow> rpc_RegisterNode (ae_rpcs E) q w = (Inr resp, w)"
    and waits: "\<exists>w'. ae_wait E d w = (False, w') \<and> rpc_clock (ae_rpcs E) w' = rpc_clock (ae_rpcs E) w + d"
    and plain: "rpc_FromError (ae_rpcs E) (Plain m) = None"
begin

lemma register_answers:
  assumes "cb_state (cbIdentity c) = StateClosed" and "T \<le> rpc_clock (ae_rpcs E) w"
  shows "\<exists>c'. c_Register (ae_rpcs E) k p s c w = (Inr (rnr_NodeId resp, rnr_Token resp, rnr_ExpiresAt resp), c', w)"
proof -
  let ?q = "\<lparr>rnq_PublicKey = k, rnq_Version = ''1.0.0'', rnq_PeerId = p, rnq_NetworkSecret = s\<rparr>"
  obtain cb where "guarded (ae_rpcs E) (rpc_RegisterNode (ae_rpcs E) ?q) (cbIdentity c) w = (Inr resp, cb, w)"
    using guarded_closed [OF assms(1), of "ae_rpcs E" "rpc_RegisterNode (ae_rpcs E) ?q" w] answers [OF assms(2), of ?q] by auto
  then show ?thesis by (simp add: c_Register_def)
qed

lemma register_fails:
  assumes "cb_state (cbIdentity c) = StateClosed" "failures (cbIdentity c) + 1 < MaxFailures (cb_cfg (cbIdentity c))"
    and "rpc_clock (ae_rpcs E) w < T"
  shows "\<exists>err c'. c_Register (ae_rpcs E) k p s c w = (Inl err, c', w) \<and> cb_state (cbIdentity c') = StateClosed
    \<and> failures (cbIdentity c') = failures (cbIdentity c) + 1 \<and> cb_cfg (cbIdentity c') = cb_cfg (cbIdentity c)"
proof -
  let ?q = "\<lparr>rnq_PublicKey = k, rnq_Version = ''1.0.0'', rnq_PeerId = p, rnq_NetworkSecret = s\<rparr>"
  obtain m where "rpc_RegisterNode (ae_rpcs E) ?q w = (Inl (Plain m), w)" using fails [OF assms(3)] by blast
  with assms(1,2) plain show ?thesis
    by (auto simp: c_Register_def guarded_def cb_Execute_def cb_Allow_def cb_RecordFailure_def in_closure_def Let_def)
qed

lemma retry_until:
  assumes "cb_state (cbIdentity (a_client a)) = StateClosed" "failures (cbIdentity (a_client a)) = int i"
    "MaxFailures (cb_cfg (cbIdentity (a_client a))) = 5" and "i + n = 5" "0 < n"
    and "T \<le> rpc_clock (ae_rpcs E) w + (16 - 2 ^ i) * time_Second"
  shows "\<exists>a' w'. retry_loop E k p n i a w = (Inr (rnr_NodeId resp, rnr_Token resp, rnr_ExpiresAt resp), a', w')"
  using assms
proof (induction n arbitrary: i a w)
  case (Suc n)
  show ?case
  proof (cases "T \<le> rpc_clock (ae_rpcs E) w")
    case True
    from register_answers [OF Suc.prems(1) this, of k p "ac_NetworkSecret (a_cfg a)"] show ?thesis by auto
  next
    case False
    have "i \<noteq> 4" using False Suc.prems(6) by auto
    then have i: "i < 4" "0 < n" using Suc.prems(4) by auto
    then obtain err c where c: "c_Register (ae_rpcs E) k p (ac_NetworkSecret (a_cfg a)) (a_client a) w = (Inl err, c, w)"
      "cb_state (cbIdentity c) = StateClosed" "failures (cbIdentity c) = int i + 1" "MaxFailures (cb_cfg (cbIdentity c)) = 5"
      using register_fails [OF Suc.prems(1), of w k p "ac_NetworkSecret (a_cfg a)"] Suc.prems(2,3) False by auto
    obtain w2 where w2: "ae_wait E (2 ^ i * time_Second) w = (False, w2)"
      "rpc_clock (ae_rpcs E) w2 = rpc_clock (ae_rpcs E) w + 2 ^ i * time_Second" using waits by blast
    have "(2 ^ i + (16 - 2 ^ (i + 1))) * time_Second = (16 - 2 ^ i) * time_Second" by simp
    then have "T \<le> rpc_clock (ae_rpcs E) w2 + (16 - 2 ^ (i + 1)) * time_Second"
      using Suc.prems(6) w2(2) by (simp add: algebra_simps)
    with Suc.IH [of "a\<lparr>a_client := c\<rparr>" "i + 1" w2] c i Suc.prems(4)
    obtain a' w' where "retry_loop E k p n (i + 1) (a\<lparr>a_client := c\<rparr>) w2
        = (Inr (rnr_NodeId resp, rnr_Token resp, rnr_ExpiresAt resp), a', w')" by auto
    with c(1) w2(1) i show ?thesis by (simp add: maxRetries_def)
  qed
qed simp

end

text \<open>A listed peer, and a configuration with the defaults.\<close>

definition demo_proto :: "string \<Rightarrow> bool \<Rightarrow> ProtoPeer" where
  "demo_proto n e = \<lparr>pp_NodeId = n, pp_IpAddress = ''10.8.0.3'', pp_Port = 51820, pp_Region = ''1.0.0'', pp_Bandwidth = 0,
     pp_LastSeen = 0, pp_PeerId = '''', pp_P2PAddrs = [''q''], pp_IsExitNode = e\<rparr>"

definition demo_cfg :: ag_Config where
  "demo_cfg = ag_setDefaults \<lparr>ac_IdentityAddr = '''', ac_DiscoveryAddr = '''', ac_ConfigAddr = '''', ac_LogLevel = '''',
     ac_Heartbeat = 0, ac_PeerSyncInterval = 0, ac_DryRun = None, ac_WireGuardPort = 0, ac_P2PPort = 0, ac_TLSCACert = '''',
     ac_NetworkSecret = '''', ac_IsExitNode = False, ac_UseExitNode = True, ac_ExitNodeID = '''', ac_ExitNodeDNS = ''''\<rparr>"

text \<open>An environment with a clock, an identity service that is down before a time, a discovery service
  that lists the given peers, and an operating system whose commands succeed.\<close>

definition outage_rpcs :: "instant \<Rightarrow> RegisterNodeResponse \<Rightarrow> ProtoPeer list \<Rightarrow> instant rpcs" where
  "outage_rpcs T resp ps = \<lparr>rpc_clock = (\<lambda>w. w), rpc_FromError = status_code,
     rpc_RegisterNode = (\<lambda>q w. (if w < T then Inl (Plain ''down'') else Inr resp, w)),
     rpc_GetPublicKey = (\<lambda>q w. (Inr \<lparr>gpr_PublicKey = ''key of '' @ gpq_NodeId q\<rparr>, w)),
     rpc_GetConfig = (\<lambda>q w. (Inl (Plain ''down''), w)), rpc_RequestIP = (\<lambda>q w. (Inl (Plain ''down''), w)),
     rpc_ReleaseIP = (\<lambda>q w. (Inl (Plain ''down''), w)), rpc_RegisterPeer = (\<lambda>q w. (Inl (Plain ''down''), w)),
     rpc_ListPeers = (\<lambda>md q w. (Inr \<lparr>lpr_Peers = ps\<rparr>, w)), rpc_Heartbeat = (\<lambda>q w. (Inl (Plain ''down''), w))\<rparr>"

definition quiet_os :: "'w os_env" where
  "quiet_os = \<lparr>os_goos = Linux, os_exec = (\<lambda>argv w. ((None, ''''), w)), os_open = (\<lambda>f w. (None, w)),
     os_write = (\<lambda>f t w. (None, w)), os_rand = (\<lambda>n w. (Inr (replicate n 0), w))\<rparr>"

definition zero_cliState :: cliState where
  "zero_cliState = \<lparr>cs_PID = 0, cs_VPNAddr = [], cs_Token = [], cs_LogFile = [], cs_StartedAt = 0, cs_ConfigFile = [],
     cs_IsExitNode = False, cs_UseExitNode = False, cs_ExitNodeID = []\<rparr>"

definition outage_env :: "instant \<Rightarrow> RegisterNodeResponse \<Rightarrow> ProtoPeer list \<Rightarrow> instant agent_env" where
  "outage_env T resp ps = \<lparr>ae_rpcs = outage_rpcs T resp ps, ae_os = quiet_os,
     ae_libp2p = (\<lambda>_. Inr \<lparr>host_ID = ''h'', host_Addrs = []\<rparr>), ae_peerInfo = (\<lambda>s. Inr s),
     ae_connect = (\<lambda>p w. (None, w)), ae_ping = (\<lambda>p w. (None, w)), ae_NewStream = (\<lambda>p w. (Inr 0, w)),
     ae_listen = (\<lambda>p w. (None, w)), ae_ScalarBaseMult = (\<lambda>k. k), ae_wait = (\<lambda>d w. (False, w + d)), ae_sleep = (\<lambda>d w. w + d),
     ae_order = (\<lambda>m. m), ae_loadState = (\<lambda>w. zero_cliState), ae_saveState = (\<lambda>s w. w)\<rparr>"

interpretation outage_demo: outage "outage_env T resp ps" T resp for T resp ps
  by unfold_locales (auto simp: outage_env_def outage_rpcs_def)

section \<open>Properties\<close>

text \<open>C13. The token is renewed in time exactly when there is time. The delay before a refresh is never
  shorter than 30 seconds, and the refresh falls before the token's expiry if and only if at least
  30 seconds are left, in spite of the rounding of the floating-point product; a token with less
  left, or expired already, is renewed 30 seconds from now.\<close>

theorem agent_refresh_before_expiry:
  assumes "from_unix ex - now < 2 ^ 63"
  shows "30 * time_Second \<le> refreshIn ex now
    \<and> (now + refreshIn ex now \<le> from_unix ex \<longleftrightarrow> now + 30 * time_Second \<le> from_unix ex)
    \<and> (from_unix ex < now + 30 * time_Second \<longrightarrow> refreshIn ex now = 30 * time_Second)"
proof -
  define r where "r = time_Until (from_unix ex) now"
  have r: "r = max (- (2 ^ 63)) (from_unix ex - now)" "r < 2 ^ 63"
    using assms by (simp_all add: r_def time_Until_def)
  have pos: "scale08 r \<le> r" if "0 \<le> r" using scale08_le [OF that r(2)] by simp
  have short: "scale08 r < 30 * time_Second" if "r < 30 * time_Second"
    using that pos scale08_neg [of r] by (cases "0 \<le> r") (auto simp: time_Second_def)
  have ref: "refreshIn ex now = (if scale08 r < 30 * time_Second then 30 * time_Second else scale08 r)"
    by (simp add: refreshIn_def Let_def r_def)
  show ?thesis
  proof (cases "r < 30 * time_Second")
    case True
    with short ref r(1) show ?thesis by (auto simp: time_Second_def)
  next
    case False
    then have "r = from_unix ex - now" "scale08 r \<le> r" using r(1) pos by (auto simp: time_Second_def)
    with False ref show ?thesis by auto
  qed
qed

theorem agent_refresh_before_expiry_witness:
  "0 + refreshIn 86400 0 \<le> from_unix 86400 \<longleftrightarrow> 0 + 30 * time_Second \<le> from_unix 86400"
  using agent_refresh_before_expiry [of 86400 0] by (simp add: from_unix_def time_Second_def)




definition demo_agent :: "(string \<times> string) list \<Rightarrow> Agent" where
  "demo_agent act = (New_Agent demo_cfg \<lparr>wg_iface = ''wg0'', wg_configDir = '''', wg_dryRun = True\<rparr> Linux)
     \<lparr>a_nodeID := ''me'', a_token := ''tok'', a_activePeers := act\<rparr>"

abbreviation demo_env :: "ProtoPeer list \<Rightarrow> instant agent_env" where
  "demo_env ps \<equiv> outage_env 0 \<lparr>rnr_NodeId = ''me'', rnr_Token = ''tok'', rnr_ExpiresAt = 5\<rparr> ps"

lemma demo_discover: "c_DiscoverPeers (ae_rpcs (demo_env ps)) tok lim (a_client (demo_agent act)) w
  = (Inr ps, a_client (demo_agent act), w)"
  by (simp add: c_DiscoverPeers_def guarded_def demo_agent_def New_Agent_def new_Client_def cb_Execute_def cb_Allow_def
      in_closure_def cb_RecordSuccess_def cb_New_def newCBConfig_def outage_env_def outage_rpcs_def Let_def)

lemma demo_key: "c_GetPeerPublicKey (ae_rpcs (demo_env ps)) n (a_client (demo_agent act)) w
  = (Inr (''key of '' @ n), a_client (demo_agent act), w)"
  by (simp add: c_GetPeerPublicKey_def guarded_def demo_agent_def New_Agent_def new_Client_def cb_Execute_def cb_Allow_def
      in_closure_def cb_RecordSuccess_def cb_New_def newCBConfig_def outage_env_def outage_rpcs_def Let_def)

lemma demo_agent_client [simp]: "(demo_agent act)\<lparr>a_client := a_client (demo_agent act)\<rparr> = demo_agent act"
  by simp

lemma demo_online: "online_loop (demo_env ps) [demo_proto ''n1'' e] [] (demo_agent act) w
  = ([(''n1'', ''key of n1'')], demo_agent act, w)"
proof -
  have "a_nodeID (demo_agent act) = ''me''" "pp_NodeId (demo_proto ''n1'' e) = ''n1''"
    by (simp_all add: demo_agent_def demo_proto_def)
  then show ?thesis by (simp add: demo_key map_set_def)
qed

lemma demo_sync: "\<exists>b' a'. syncPeers (demo_env [demo_proto ''n1'' True]) cidr (NewBridge ''h'' 51820 51920)
    (demo_agent [(''old'', ''key of old'')]) w = (Returned (b', a'), w)"
  by (simp add: syncPeers_def demo_discover demo_online Let_def del: online_loop.simps add_loop.simps remove_loop.simps)
    (simp add: demo_agent_def New_Agent_def demo_proto_def outage_env_def quiet_os_def connect_peer_def ConnectAndPing_def
      bridge_AddPeer_def NewBridge_def less_char_def allocateRelay_def allocateRelayNoStream_def Let_def wg_AddPeer_def wg_RemovePeer_def
      slice_to_def map_set_def map_delete_def)


text \<open>A synchronisation that finds nothing new does nothing: if every online peer is active and
  every active peer is online, it runs no command, opens no stream and changes no peer, whatever
  the configuration says about exit nodes. In particular a peer that is active already, for
  example since start-up, where it gets a host route, never gets the default route of an exit
  node.\<close>

theorem agent_sync_fixpoint:
  assumes order: "\<And>m. set (ae_order E m) = set m"
    and listed: "c_DiscoverPeers (ae_rpcs E) (getToken a) 50 (a_client a) w = (Inr peers, c, w1)"
    and online: "online_loop E peers [] (a\<lparr>a_client := c\<rparr>) w1 = (online, a2, w2)"
    and same: "fst ` set online = fst ` set (a_activePeers a)"
  shows "syncPeers E cidr b a w = (Returned (b, a2), w2) \<and> a_activePeers a2 = a_activePeers a"
proof -
  obtain c2 where a2: "a2 = a\<lparr>a_client := c2\<rparr>" using online_loop_frame [OF online] by auto
  have "map_of (a_activePeers a) n \<noteq> None" if "(n, k) \<in> set online" for n k
  proof -
    from that have "n \<in> fst ` set online" by force
    with same show ?thesis by (simp add: map_of_eq_None_iff)
  qed
  then have add: "add_loop E cidr ex peers (ae_order E online) b a2 w2 = (Returned (b, a2), w2)" for ex
    by (intro add_loop_nothing) (auto simp: a2 order)
  have "map_of online n \<noteq> None" if "(n, k) \<in> set (a_activePeers a)" for n k
  proof -
    from that have "n \<in> fst ` set (a_activePeers a)" by force
    with same show ?thesis by (simp add: map_of_eq_None_iff)
  qed
  then have rem: "remove_loop E online (ae_order E (a_activePeers a2)) a2 w2 = (Returned a2, w2)"
    by (intro remove_loop_nothing) (auto simp: a2 order)
  have "syncPeers E cidr b a w = (Returned (b, a2), w2)"
    using listed online add rem by (simp add: syncPeers_def Let_def)
  then show ?thesis by (simp add: a2)
qed

theorem agent_sync_fixpoint_witness:
  "\<exists>a2. syncPeers (demo_env [demo_proto ''n1'' True]) ''10.8.0.0/16'' (NewBridge ''h'' 51820 51920)
      (demo_agent [(''n1'', ''key of n1'')]) 0 = (Returned (NewBridge ''h'' 51820 51920, a2), 0)"
proof -
  let ?E = "demo_env [demo_proto ''n1'' True]" and ?a = "demo_agent [(''n1'', ''key of n1'')]"
  have on: "online_loop ?E [demo_proto ''n1'' True] [] (?a\<lparr>a_client := a_client ?a\<rparr>) 0 = ([(''n1'', ''key of n1'')], ?a, 0)"
    using demo_online [of "[demo_proto ''n1'' True]" True "[(''n1'', ''key of n1'')]" 0] by simp
  have same: "fst ` set [(''n1'', ''key of n1'')] = fst ` set (a_activePeers ?a)" by (simp add: demo_agent_def)
  from agent_sync_fixpoint [OF _ demo_discover on same] show ?thesis by (auto simp: outage_env_def)
qed

text \<open>The exit node is the first suitable peer of the listing: when an exit node is used, the loop
  chooses the first peer that offers itself as one, is not the agent, has an id and is the one
  asked for, if one is asked for; otherwise it chooses none.\<close>

theorem agent_choose_exit_first:
  "choose_exit cfg self peers =
     (if \<not> ac_UseExitNode cfg then ''''
      else case find (\<lambda>p. pp_IsExitNode p \<and> pp_NodeId p \<noteq> self \<and> pp_NodeId p \<noteq> ''''
                     \<and> (ac_ExitNodeID cfg = '''' \<or> pp_NodeId p = ac_ExitNodeID cfg)) peers of
             None \<Rightarrow> '''' | Some p \<Rightarrow> pp_NodeId p)"
proof -
  have chosen: "exit_loop '''' self c ps = c" if "c \<noteq> ''''" for c ps
    using that by (induction ps) auto
  have "exit_loop want self '''' ps =
      (case find (\<lambda>p. pp_IsExitNode p \<and> pp_NodeId p \<noteq> self \<and> pp_NodeId p \<noteq> '''' \<and> (want = '''' \<or> pp_NodeId p = want)) ps of
         None \<Rightarrow> '''' | Some p \<Rightarrow> pp_NodeId p)" for want ps
  proof (induction ps)
    case (Cons p ps)
    then show ?case using chosen [of "pp_NodeId p" ps] by (cases "want = ''''"; cases "pp_NodeId p = ''''") auto
  qed simp
  then show ?thesis by (simp add: choose_exit_def)
qed

text \<open>C36. A short key takes a dry-running agent down. Dry run, the default, logs the first eight
  characters of the key of a peer it adds or removes; for a listed peer that can be connected and
  whose key is shorter, the slice panics, and with it the agent.\<close>

theorem agent_short_key_panics:
  assumes "wg_dryRun (a_wg_mgr a)" and "length key < 8"
    and "map_of (a_activePeers a) n = None" and "find (\<lambda>p. pp_NodeId p = n) peers = Some p"
    and "connect_peer E (pp_P2PAddrs p) b w = (port, b1, w1)" "port \<noteq> 0"
  shows "add_loop E cidr ex peers ((n, key) # online) b a w = (Panicked, w1)"
  using assms by (simp add: wg_AddPeer_def slice_to_def)

theorem agent_short_key_panics_witness:
  "add_loop (demo_env []) ''10.8.0.0/16'' '''' [demo_proto ''n1'' False] ((''n1'', ''short'') # [])
      (NewBridge ''h'' 51820 51920) (demo_agent []) 0 = (Panicked, 0)"
proof -
  obtain b1 where "connect_peer (demo_env []) [''q''] (NewBridge ''h'' 51820 51920) 0 = (51920, b1, 0)"
    by (simp add: connect_peer_def outage_env_def ConnectAndPing_def bridge_AddPeer_def NewBridge_def less_char_def
        allocateRelayNoStream_def Let_def)
  then have "connect_peer (demo_env []) (pp_P2PAddrs (demo_proto ''n1'' False)) (NewBridge ''h'' 51820 51920) 0 = (51920, b1, 0)"
    by (simp add: demo_proto_def)
  from agent_short_key_panics [OF _ _ _ _ this] show ?thesis
    by (simp add: demo_agent_def New_Agent_def demo_proto_def)
qed

text \<open>A peer without libp2p addresses takes a starting agent down: unlike the synchronisation,
  which skips such a peer, the loop of \<open>Start\<close> takes its first address as soon as its key could be
  read, and panics.\<close>

theorem agent_start_needs_addresses:
  assumes "pp_NodeId p \<noteq> a_nodeID a" and "pp_P2PAddrs p = []"
    and "c_GetPeerPublicKey (ae_rpcs E) (pp_NodeId p) (a_client a) w = (Inr key, c, w1)"
    and "sched k pending = []"
  shows "start_loop E sched k pending (p # ps) wps b a w = (Panicked, w1)
    \<and> connect_peer E (pp_P2PAddrs p) b w = (0, b, w)"
  using assms by (simp add: run_goroutines_def connect_peer_def)

theorem agent_start_needs_addresses_witness:
  "start_loop (demo_env []) (\<lambda>k g. []) 0 [] ((demo_proto ''n1'' False)\<lparr>pp_P2PAddrs := []\<rparr> # []) []
      (NewBridge ''h'' 51820 51920) (demo_agent []) 0 = (Panicked, 0)"
  by (rule agent_start_needs_addresses [OF _ _ demo_key, THEN conjunct1])
    (simp_all add: demo_agent_def New_Agent_def demo_proto_def)

end
