(* ===== verification/Server.thy ===== *)
theory Server
  imports Rate_Limiter Auth
begin

text \<open>
  What the three servers wrap around their handlers: the request log
  (\<open>src/pkg/middleware/logging.go\<close>), trace ids (\<open>src/pkg/tracing/tracing.go\<close>), the request metrics
  (\<open>src/services/*/internal/grpc/metrics_interceptor.go\<close>, the same code three times) and the rate
  limiter, in the order of the \<open>ChainUnaryInterceptor\<close> of the three main programs; the health
  check (\<open>src/pkg/healthcheck\<close>), the error helpers (\<open>src/pkg/grpcutil\<close>) and the common
  configuration loader (\<open>src/pkg/config\<close>). The text that grpc gives a status code is a parameter.
\<close>

section \<open>What the interceptors of a server share\<close>

text \<open>The clock, the random source, the log and the metrics, beside the state of the handlers.
  A log line is a value: its message with the values printed into it.\<close>

datatype log_line =
    RequestBegins string string
  | RequestFails string string string duration go_error
  | RequestEnds string string duration
  | TraceBegins string string string
  | TraceFails string string string go_error
  | TraceEnds string string string

record 's server =
  sv_clock :: instant
  sv_random :: "nat \<Rightarrow> 8 word"
  sv_log :: "log_line list"
  sv_metrics :: "metric_call list"
  sv_state :: 's

type_synonym ('s, 'a) handler = "rpc_context \<Rightarrow> 's server \<Rightarrow> 'a result \<times> 's server"

definition rand_Read :: "nat \<Rightarrow> 's server \<Rightarrow> 8 word list \<times> 's server" where
  "rand_Read n s = (map (sv_random s) [0..<n], s\<lparr>sv_random := \<lambda>i. sv_random s (i + n)\<rparr>)"

definition put_log :: "log_line \<Rightarrow> 's server \<Rightarrow> 's server" where
  "put_log l s = s\<lparr>sv_log := sv_log s @ [l]\<rparr>"

definition put_metric :: "metric_call \<Rightarrow> 's server \<Rightarrow> 's server" where
  "put_metric m s = s\<lparr>sv_metrics := sv_metrics s @ [m]\<rparr>"

section \<open>The request log\<close>

definition RequestIDKey :: string where
  "RequestIDKey = ''request_id''"

definition generateRequestID :: "'s server \<Rightarrow> string \<times> 's server" where
  "generateRequestID s = (case rand_Read 4 s of (b, s1) \<Rightarrow> (hex_encode b, s1))"

definition LoggingInterceptor ::
  "(go_error \<Rightarrow> string) \<Rightarrow> string \<Rightarrow> ('s, 'a) handler \<Rightarrow> ('s, 'a) handler" where
  "LoggingInterceptor code_text method handler ctx s =
     (case generateRequestID s of
        (requestID, s1) \<Rightarrow>
          (let ctx1 = ctx\<lparr>ctx_value := (ctx_value ctx)(RequestIDKey \<mapsto> requestID)\<rparr>; start = sv_clock s1 in
           case handler ctx1 (put_log (RequestBegins requestID method) s1) of
             (resp, s2) \<Rightarrow>
               let duration = sv_clock s2 - start in
               (case resp of
                  Inl err \<Rightarrow> (resp, put_log (RequestFails requestID method (code_text err) duration err) s2)
                | Inr _ \<Rightarrow> (resp, put_log (RequestEnds requestID method duration) s2))))"

definition RequestIDFromContext :: "rpc_context \<Rightarrow> string" where
  "RequestIDFromContext ctx = (case ctx_value ctx RequestIDKey of None \<Rightarrow> ''unknown'' | Some i \<Rightarrow> i)"

section \<open>Trace ids\<close>

definition TraceIDKey :: string where
  "TraceIDKey = ''trace_id''"

definition metadataKey :: string where
  "metadataKey = ''x-trace-id''"

definition generateTraceID :: "'s server \<Rightarrow> string \<times> 's server" where
  "generateTraceID s = (case rand_Read 8 s of (b, s1) \<Rightarrow> (hex_encode b, s1))"

definition TraceIDFromContext :: "rpc_context \<Rightarrow> string" where
  "TraceIDFromContext ctx = (case ctx_value ctx TraceIDKey of None \<Rightarrow> '''' | Some i \<Rightarrow> i)"

text \<open>The trace id that the caller sent, or the empty string.\<close>

definition incomingTraceID :: "rpc_context \<Rightarrow> string" where
  "incomingTraceID ctx =
     (case ctx_metadata ctx of
        None \<Rightarrow> ''''
      | Some md \<Rightarrow> (case md metadataKey of [] \<Rightarrow> '''' | v # _ \<Rightarrow> v))"

definition tracing_ServerInterceptor ::
  "string \<Rightarrow> string \<Rightarrow> ('s, 'a) handler \<Rightarrow> ('s, 'a) handler" where
  "tracing_ServerInterceptor serviceName method handler ctx s =
     (case (if incomingTraceID ctx = '''' then generateTraceID s else (incomingTraceID ctx, s)) of
        (traceID, s1) \<Rightarrow>
          (case handler (ctx\<lparr>ctx_value := (ctx_value ctx)(TraceIDKey \<mapsto> traceID)\<rparr>)
                  (put_log (TraceBegins traceID serviceName method) s1) of
             (Inl err, s2) \<Rightarrow> (Inl err, put_log (TraceFails traceID serviceName method err) s2)
           | (Inr resp, s2) \<Rightarrow> (Inr resp, put_log (TraceEnds traceID serviceName method) s2)))"

text \<open>On the caller's side: the outgoing metadata are pairs, the invoker makes the call.\<close>

definition tracing_ClientInterceptor ::
  "((string \<times> string) list \<Rightarrow> 'w \<Rightarrow> 'b) \<Rightarrow> rpc_context \<Rightarrow> (string \<times> string) list \<Rightarrow> 'w \<Rightarrow> 'b" where
  "tracing_ClientInterceptor invoker ctx out w =
     (case ctx_value ctx TraceIDKey of
        Some traceID \<Rightarrow> if traceID \<noteq> '''' then invoker (out @ [(metadataKey, traceID)]) w else invoker out w
      | None \<Rightarrow> invoker out w)"

section \<open>Request metrics\<close>

text \<open>\<open>Dec\<close> is deferred: it comes after the counters.\<close>

definition MetricsInterceptor ::
  "(go_error \<Rightarrow> string) \<Rightarrow> string \<Rightarrow> string \<Rightarrow> ('s, 'a) handler \<Rightarrow> ('s, 'a) handler" where
  "MetricsInterceptor code_text serviceName method handler ctx s =
     (let start = sv_clock s in
      case handler ctx (put_metric (Inc ''gordion_active_connections'' [serviceName]) s) of
        (resp, s1) \<Rightarrow>
          (let duration = sv_clock s1 - start;
               statusLabel = (case resp of Inl err \<Rightarrow> code_text err | Inr _ \<Rightarrow> ''success'') in
           (resp,
            put_metric (Dec ''gordion_active_connections'' [serviceName])
              (put_metric (Observe ''gordion_grpc_request_duration_seconds'' [serviceName, method] duration)
                (put_metric (Inc ''gordion_grpc_requests_total'' [serviceName, method, statusLabel]) s1)))))"

section \<open>The chain\<close>

text \<open>The interceptors inside the rate limiter, outermost first, and the whole chain: a call from
  \<open>peer_addr\<close> to \<open>method\<close>.\<close>

definition inner_chain ::
  "(go_error \<Rightarrow> string) \<Rightarrow> string \<Rightarrow> string \<Rightarrow> ('s, 'a) handler \<Rightarrow> ('s, 'a) handler" where
  "inner_chain code_text serviceName method handler =
     tracing_ServerInterceptor serviceName method
       (LoggingInterceptor code_text method
         (MetricsInterceptor code_text serviceName method handler))"

definition serve ::
  "(go_error \<Rightarrow> string) \<Rightarrow> string \<Rightarrow> string \<Rightarrow> string option \<Rightarrow> ('s, 'a) handler \<Rightarrow> rpc_context
    \<Rightarrow> Limiter \<times> 's server \<Rightarrow> 'a result \<times> Limiter \<times> 's server" where
  "serve code_text serviceName method peer_addr handler ctx ls =
     rl_UnaryInterceptor (sv_clock (snd ls)) peer_addr
       (inner_chain code_text serviceName method handler) ctx ls"

section \<open>Health check\<close>

datatype ServingStatus = UNKNOWN | SERVING | NOT_SERVING

record health_Server =
  hs_serviceName :: string
  hs_checker :: "(unit \<Rightarrow> bool) option"

definition health_New :: "string \<Rightarrow> (unit \<Rightarrow> bool) option \<Rightarrow> health_Server" where
  "health_New serviceName checker = \<lparr>hs_serviceName = serviceName, hs_checker = checker\<rparr>"

definition health_Check :: "health_Server \<Rightarrow> string \<Rightarrow> ServingStatus result" where
  "health_Check s service =
     (if service \<noteq> '''' \<and> service \<noteq> hs_serviceName s then Inl (Status NotFound ''unknown service'' None)
      else case hs_checker s of
        Some checker \<Rightarrow> if \<not> checker () then Inr NOT_SERVING else Inr SERVING
      | None \<Rightarrow> Inr SERVING)"

section \<open>Error helpers and configuration loader\<close>

definition ErrInvalidArgument :: "string \<Rightarrow> go_error" where
  "ErrInvalidArgument msg = Status InvalidArgument msg None"

definition ErrNotFound :: "string \<Rightarrow> go_error" where
  "ErrNotFound msg = Status NotFound msg None"

definition ErrUnauthenticated :: "string \<Rightarrow> go_error" where
  "ErrUnauthenticated msg = Status Unauthenticated msg None"

definition ErrPermissionDenied :: "string \<Rightarrow> go_error" where
  "ErrPermissionDenied msg = Status PermissionDenied msg None"

definition ErrInternal :: "string \<Rightarrow> go_error" where
  "ErrInternal msg = Status Internal msg None"

definition ErrAlreadyExists :: "string \<Rightarrow> go_error" where
  "ErrAlreadyExists msg = Status AlreadyExists msg None"

record common_Config =
  cc_LogLevel :: string
  cc_Environment :: string

text \<open>\<open>Load\<close> fills a configuration from a file's text; the reading of the file and the YAML decoder
  are arguments. \<open>os.IsNotExist\<close> does not look into wrapped errors.\<close>

definition pkg_Load :: "string result \<Rightarrow> (string \<Rightarrow> 'c \<Rightarrow> go_error option \<times> 'c) \<Rightarrow> 'c \<Rightarrow> go_error option \<times> 'c" where
  "pkg_Load file unmarshal cfg =
     (case file of
        Inl err \<Rightarrow> (Some (Wrapped ''failed to read config file'' err), cfg)
      | Inr data \<Rightarrow>
          (case unmarshal data cfg of
             (Some err, cfg1) \<Rightarrow> (Some (Wrapped ''failed to parse config'' err), cfg1)
           | (None, cfg1) \<Rightarrow> (None, cfg1)))"

definition os_IsNotExist :: "go_error \<Rightarrow> bool" where
  "os_IsNotExist err \<longleftrightarrow> err = Plain ''file does not exist''"

definition LoadWithDefaults ::
  "string result \<Rightarrow> (string \<Rightarrow> common_Config \<Rightarrow> go_error option \<times> common_Config) \<Rightarrow> (string \<Rightarrow> string)
    \<Rightarrow> common_Config \<Rightarrow> go_error option \<times> common_Config" where
  "LoadWithDefaults file unmarshal getenv cfg =
     (case pkg_Load file unmarshal cfg of
        (e, c) \<Rightarrow>
          if (case e of Some err \<Rightarrow> \<not> os_IsNotExist err | None \<Rightarrow> False) then (e, c)
          else
            (None, c\<lparr>cc_LogLevel := (if getenv ''LOG_LEVEL'' \<noteq> '''' then getenv ''LOG_LEVEL'' else cc_LogLevel c),
                     cc_Environment := (if getenv ''ENVIRONMENT'' \<noteq> '''' then getenv ''ENVIRONMENT'' else cc_Environment c)\<rparr>))"

text \<open>A missing file is an error after all, although the check means to let it pass.\<close>

lemma LoadWithDefaults_missing_file:
  "LoadWithDefaults (Inl e) unmarshal getenv cfg = (Some (Wrapped ''failed to read config file'' e), cfg)"
  by (simp add: LoadWithDefaults_def pkg_Load_def os_IsNotExist_def)

section \<open>Sequences of calls\<close>

text \<open>A call arrives at a time, from an address, for a method, with a context; \<open>dispatch\<close> gives
  the handler of each method.\<close>

type_synonym arrival = "instant \<times> string option \<times> string \<times> rpc_context"

fun serve_run ::
  "(go_error \<Rightarrow> string) \<Rightarrow> string \<Rightarrow> (string \<Rightarrow> ('s, 'a) handler) \<Rightarrow> arrival list \<Rightarrow> Limiter \<times> 's server
    \<Rightarrow> 'a result list \<times> Limiter \<times> 's server" where
  "serve_run code_text svc dispatch [] ls = ([], ls)"
| "serve_run code_text svc dispatch ((at, addr, method, ctx) # cs) (l, s) =
     (case serve code_text svc method addr (dispatch method) ctx (l, s\<lparr>sv_clock := at\<rparr>) of
        (r, ls1) \<Rightarrow> (case serve_run code_text svc dispatch cs ls1 of (rs, ls2) \<Rightarrow> (r # rs, ls2)))"

definition limiter_key :: "string option \<Rightarrow> string" where
  "limiter_key addr = (case addr of Some a \<Rightarrow> a | None \<Rightarrow> ''unknown'')"

fun arrival_event :: "arrival \<Rightarrow> rl_event" where
  "arrival_event (at, addr, _, _) = Req at (limiter_key addr)"

definition rejected :: "'a result" where
  "rejected = Inl (Status ResourceExhausted ''rate limit exceeded'' None)"

text \<open>The metrics that only the interceptors touch, and what they add up to.\<close>

fun chain_metric :: "metric_call \<Rightarrow> bool" where
  "chain_metric (Inc n _) = (n \<in> {''gordion_active_connections'', ''gordion_grpc_requests_total''})"
| "chain_metric (Dec n _) = (n = ''gordion_active_connections'')"
| "chain_metric _ = False"

fun counts_request :: "metric_call \<Rightarrow> bool" where
  "counts_request (Inc n _) = (n = ''gordion_grpc_requests_total'')"
| "counts_request _ = False"

definition requests_total :: "metric_call list \<Rightarrow> nat" where
  "requests_total ms = length (filter counts_request ms)"

fun connection_change :: "metric_call \<Rightarrow> int" where
  "connection_change (Inc n _) = (if n = ''gordion_active_connections'' then 1 else 0)"
| "connection_change (Dec n _) = (if n = ''gordion_active_connections'' then - 1 else 0)"
| "connection_change _ = 0"

definition active_connections :: "metric_call list \<Rightarrow> int" where
  "active_connections ms = sum_list (map connection_change ms)"

definition own_metrics :: "('s, 'a) handler \<Rightarrow> bool" where
  "own_metrics h \<longleftrightarrow> (\<forall>ctx s. \<exists>ms. sv_metrics (snd (h ctx s)) = sv_metrics s @ ms \<and> (\<forall>m \<in> set ms. \<not> chain_metric m))"

lemma requests_total_append [simp]: "requests_total (xs @ ys) = requests_total xs + requests_total ys"
  by (simp add: requests_total_def)

lemma active_connections_append [simp]:
  "active_connections (xs @ ys) = active_connections xs + active_connections ys"
  by (simp add: active_connections_def)

lemma chain_metric_neutral: "\<not> chain_metric m \<Longrightarrow> \<not> counts_request m \<and> connection_change m = 0"
  by (cases m) auto

lemma own_metrics_neutral:
  "\<forall>m \<in> set ms. \<not> chain_metric m \<Longrightarrow> requests_total ms = 0 \<and> active_connections ms = 0"
proof (induction ms)
  case (Cons m ms)
  then show ?case
    using chain_metric_neutral [of m] by (simp add: requests_total_def active_connections_def)
qed (simp_all add: requests_total_def active_connections_def)

lemma put_metric_sums [simp]:
  "requests_total (sv_metrics (put_metric m s)) = requests_total (sv_metrics s) + (if counts_request m then 1 else 0)"
  "active_connections (sv_metrics (put_metric m s)) = active_connections (sv_metrics s) + connection_change m"
  by (simp_all add: put_metric_def requests_total_def active_connections_def)

lemma put_log_fields [simp]:
  "sv_metrics (put_log l s) = sv_metrics s" "sv_clock (put_log l s) = sv_clock s"
  "sv_random (put_log l s) = sv_random s" "sv_state (put_log l s) = sv_state s"
  by (simp_all add: put_log_def)

lemma rand_Read_fields [simp]:
  "sv_metrics (snd (rand_Read n s)) = sv_metrics s" "sv_clock (snd (rand_Read n s)) = sv_clock s"
  by (simp_all add: rand_Read_def)

lemma own_metricsD:
  assumes "own_metrics h"
  shows "requests_total (sv_metrics (snd (h ctx s))) = requests_total (sv_metrics s)"
    "active_connections (sv_metrics (snd (h ctx s))) = active_connections (sv_metrics s)"
proof -
  from assms obtain ms where "sv_metrics (snd (h ctx s)) = sv_metrics s @ ms" "\<forall>m \<in> set ms. \<not> chain_metric m"
    unfolding own_metrics_def by blast
  with own_metrics_neutral [of ms] show
    "requests_total (sv_metrics (snd (h ctx s))) = requests_total (sv_metrics s)"
    "active_connections (sv_metrics (snd (h ctx s))) = active_connections (sv_metrics s)" by simp_all
qed

lemma MetricsInterceptor_sums:
  assumes "own_metrics h"
  shows "requests_total (sv_metrics (snd (MetricsInterceptor ct svc m h ctx s))) = requests_total (sv_metrics s) + 1"
    "active_connections (sv_metrics (snd (MetricsInterceptor ct svc m h ctx s))) = active_connections (sv_metrics s)"
  by (simp_all add: MetricsInterceptor_def split_beta Let_def own_metricsD [OF assms])

lemma LoggingInterceptor_metrics:
  "\<exists>ctx' s'. sv_metrics s' = sv_metrics s
     \<and> sv_metrics (snd (LoggingInterceptor ct m h ctx s)) = sv_metrics (snd (h ctx' s'))"
proof -
  let ?s1 = "snd (generateRequestID s)" and ?id = "fst (generateRequestID s)"
  let ?ctx = "ctx\<lparr>ctx_value := (ctx_value ctx)(RequestIDKey \<mapsto> ?id)\<rparr>"
  have "sv_metrics (put_log (RequestBegins ?id m) ?s1) = sv_metrics s"
    by (simp add: generateRequestID_def split_beta)
  moreover have "sv_metrics (snd (LoggingInterceptor ct m h ctx s))
      = sv_metrics (snd (h ?ctx (put_log (RequestBegins ?id m) ?s1)))"
    by (simp add: LoggingInterceptor_def split_beta Let_def split: sum.split)
  ultimately show ?thesis by blast
qed

lemma tracing_metrics:
  "\<exists>ctx' s'. sv_metrics s' = sv_metrics s
     \<and> sv_metrics (snd (tracing_ServerInterceptor svc m h ctx s)) = sv_metrics (snd (h ctx' s'))"
proof -
  let ?t = "if incomingTraceID ctx = '''' then generateTraceID s else (incomingTraceID ctx, s)"
  let ?ctx = "ctx\<lparr>ctx_value := (ctx_value ctx)(TraceIDKey \<mapsto> fst ?t)\<rparr>"
  let ?s = "put_log (TraceBegins (fst ?t) svc m) (snd ?t)"
  have "sv_metrics ?s = sv_metrics s" by (simp add: generateTraceID_def split_beta)
  moreover have "sv_metrics (snd (tracing_ServerInterceptor svc m h ctx s)) = sv_metrics (snd (h ?ctx ?s))"
    unfolding tracing_ServerInterceptor_def by (simp only: split_beta) (auto split: sum.split prod.split)
  ultimately show ?thesis by blast
qed

lemma inner_chain_sums:
  assumes "own_metrics h"
  shows "requests_total (sv_metrics (snd (inner_chain ct svc m h ctx s))) = requests_total (sv_metrics s) + 1"
    "active_connections (sv_metrics (snd (inner_chain ct svc m h ctx s))) = active_connections (sv_metrics s)"
proof -
  obtain c1 s1 where 1: "sv_metrics s1 = sv_metrics s" "sv_metrics (snd (inner_chain ct svc m h ctx s))
      = sv_metrics (snd (LoggingInterceptor ct m (MetricsInterceptor ct svc m h) c1 s1))"
    using tracing_metrics unfolding inner_chain_def by metis
  obtain c2 s2 where 2: "sv_metrics s2 = sv_metrics s1"
    "sv_metrics (snd (LoggingInterceptor ct m (MetricsInterceptor ct svc m h) c1 s1))
      = sv_metrics (snd (MetricsInterceptor ct svc m h c2 s2))"
    using LoggingInterceptor_metrics by metis
  show "requests_total (sv_metrics (snd (inner_chain ct svc m h ctx s))) = requests_total (sv_metrics s) + 1"
    "active_connections (sv_metrics (snd (inner_chain ct svc m h ctx s))) = active_connections (sv_metrics s)"
    by (simp_all only: 1 2 MetricsInterceptor_sums [OF assms])
qed

lemma serve_cases:
  "serve ct svc m addr h ctx (l, s) =
     (if fst (rl_Allow (sv_clock s) (limiter_key addr) l)
      then (fst (inner_chain ct svc m h ctx s), snd (rl_Allow (sv_clock s) (limiter_key addr) l),
            snd (inner_chain ct svc m h ctx s))
      else (rejected, snd (rl_Allow (sv_clock s) (limiter_key addr) l), s))"
  by (simp add: serve_def rl_UnaryInterceptor_def limiter_key_def rejected_def split_beta Let_def split: option.split)

lemma serve_run_sums:
  assumes "\<And>m. own_metrics (dispatch m)"
  shows "serve_run ct svc dispatch cs (l, s) = (rs, l', s') \<Longrightarrow>
    requests_total (sv_metrics s') = requests_total (sv_metrics s)
        + length (filter id (rl_answers (map arrival_event cs) l))
    \<and> active_connections (sv_metrics s') = active_connections (sv_metrics s)
    \<and> list_all2 (\<lambda>admitted r. admitted \<or> r = rejected) (rl_answers (map arrival_event cs) l) rs"
proof (induction cs arbitrary: l s rs l' s')
  case (Cons c cs)
  obtain at addr m ctx where c: "c = (at, addr, m, ctx)" by (cases c)
  let ?s = "s\<lparr>sv_clock := at\<rparr>" and ?l = "snd (rl_Allow at (limiter_key addr) l)"
  let ?s1 = "if fst (rl_Allow at (limiter_key addr) l)
     then snd (inner_chain ct svc m (dispatch m) ctx ?s) else ?s"
  obtain rs1 l1 s1 where run: "serve_run ct svc dispatch cs (?l, ?s1) = (rs1, l1, s1)"
    by (metis prod_cases3)
  note IH = Cons.IH [OF run]
  show ?case
  proof (cases "fst (rl_Allow at (limiter_key addr) l)")
    case True
    with Cons.prems run IH inner_chain_sums [OF assms [of m]] show ?thesis
      by (auto simp: c serve_cases split_beta)
  next
    case False
    with Cons.prems run IH show ?thesis
      by (auto simp: c serve_cases split_beta)
  qed
qed simp

lemma rl_fresh_addresses:
  assumes "distinct (map snd reqs)" and "\<forall>a \<in> snd ` set reqs. clients l a = None"
  shows "rl_answers (map (\<lambda>(t, a). Req t a) reqs) l = replicate (length reqs) True"
  using assms
proof (induction reqs arbitrary: l)
  case (Cons r reqs)
  obtain t a where r: "r = (t, a)" by (cases r)
  have "\<forall>b \<in> snd ` set reqs. clients (snd (rl_Allow t a l)) b = None"
  proof
    fix b assume "b \<in> snd ` set reqs"
    with Cons.prems have "b \<noteq> a" "clients l b = None" by (auto simp: r)
    then show "clients (snd (rl_Allow t a l)) b = None" by simp
  qed
  moreover have "fst (rl_Allow t a l)"
    using Cons.prems by (simp add: rl_Allow_def r)
  ultimately show ?case
    using Cons.IH [of "snd (rl_Allow t a l)"] Cons.prems by (simp add: r split_beta)
qed simp

section \<open>Properties\<close>

text \<open>C23. The metrics of a server count the admitted calls and only those. For handlers that leave
  the metrics of the chain alone, after any sequence of calls the counter of requests has grown by
  the number of calls the rate limiter admitted and the gauge of active connections is back where
  it was; a call that the limiter refuses is answered with the rejection.\<close>

theorem server_meters_admitted_only:
  assumes "\<And>m. own_metrics (dispatch m)"
    and "serve_run code_text svc dispatch calls (l, s) = (rs, l', s')"
  shows "requests_total (sv_metrics s') = requests_total (sv_metrics s)
        + length (filter id (rl_answers (map arrival_event calls) l))
    \<and> active_connections (sv_metrics s') = active_connections (sv_metrics s)
    \<and> list_all2 (\<lambda>admitted r. admitted \<or> r = rejected) (rl_answers (map arrival_event calls) l) rs"
  by (rule serve_run_sums [OF assms])

definition demo_server :: "unit server" where
  "demo_server = \<lparr>sv_clock = 0, sv_random = \<lambda>i. 0, sv_log = [], sv_metrics = [], sv_state = ()\<rparr>"

definition demo_handler :: "string \<Rightarrow> (unit, unit) handler" where
  "demo_handler m ctx s = (Inr (), s)"

definition demo_arrival :: "instant \<Rightarrow> arrival" where
  "demo_arrival t = (t, Some ''10.0.0.7:5123'', ''/Heartbeat'', \<lparr>ctx_metadata = None, ctx_value = Map.empty\<rparr>)"

theorem server_meters_admitted_only_witness:
  "requests_total (sv_metrics (snd (snd (serve_run (\<lambda>e. ''Unknown'') ''discovery'' demo_handler
     [demo_arrival 0, demo_arrival 1, demo_arrival 2] (rl_New 2 time_Minute, demo_server))))) = 2"
proof -
  have own: "own_metrics (demo_handler m)" for m by (auto simp: own_metrics_def demo_handler_def)
  obtain rs l' s' where run: "serve_run (\<lambda>e. ''Unknown'') ''discovery'' demo_handler
     [demo_arrival 0, demo_arrival 1, demo_arrival 2] (rl_New 2 time_Minute, demo_server) = (rs, l', s')"
    by (metis prod_cases3)
  have "requests_total (sv_metrics s') = 2"
    using server_meters_admitted_only [OF own run]
    by (simp add: demo_arrival_def limiter_key_def rl_New_def rl_Allow_def demo_server_def requests_total_def
        time_Minute_def time_Second_def)
  with run show ?thesis by simp
qed

text \<open>The limit is per connection. The key of the rate limiter is the remote address with its
  port, so a host that sends each call over a connection of its own has all of them served,
  whatever the limit and however close together they come.\<close>

theorem server_reconnects_unlimited:
  assumes "\<And>m. own_metrics (dispatch m)"
    and "distinct ports"
    and "serve_run code_text svc dispatch
           (map (\<lambda>(p :: nat). (t, Some (ip @ '':'' @ itoa (int p)), method, ctx)) ports) (rl_New n iv, s) = (rs, l', s')"
  shows "requests_total (sv_metrics s') = requests_total (sv_metrics s) + length ports"
proof -
  let ?calls = "map (\<lambda>(p :: nat). (t, Some (ip @ '':'' @ itoa (int p)), method, ctx)) ports"
  let ?reqs = "map (\<lambda>(p :: nat). (t, ip @ '':'' @ itoa (int p))) ports"
  have events: "map arrival_event ?calls = map (\<lambda>(t, a). Req t a) ?reqs"
    by (simp add: limiter_key_def)
  have "inj (\<lambda>(p :: nat). ip @ '':'' @ itoa (int p))"
    by (auto simp: inj_def itoa_def)
  then have "distinct (map snd ?reqs)"
    using assms(2) by (simp add: distinct_map comp_def inj_on_subset [OF _ subset_UNIV])
  then have "rl_answers (map arrival_event ?calls) (rl_New n iv) = replicate (length ports) True"
    unfolding events using rl_fresh_addresses [of ?reqs "rl_New n iv"] by (simp add: rl_New_def)
  with serve_run_sums [OF assms(1) assms(3)] show ?thesis by simp
qed

theorem server_reconnects_unlimited_witness:
  "requests_total (sv_metrics (snd (snd (serve_run (\<lambda>e. ''Unknown'') ''identity'' demo_handler
     (map (\<lambda>p. (0, Some (''10.0.0.7'' @ '':'' @ itoa (int p)), ''/RegisterNode'', \<lparr>ctx_metadata = None, ctx_value = Map.empty\<rparr>))
        [1024..<2024]) (rl_New 100 time_Minute, demo_server))))) = 1000"
proof -
  have own: "own_metrics (demo_handler m)" for m by (auto simp: own_metrics_def demo_handler_def)
  show ?thesis
  proof (cases "serve_run (\<lambda>e. ''Unknown'') ''identity'' demo_handler
     (map (\<lambda>p. (0, Some (''10.0.0.7'' @ '':'' @ itoa (int p)), ''/RegisterNode'', \<lparr>ctx_metadata = None, ctx_value = Map.empty\<rparr>))
        [1024..<2024]) (rl_New 100 time_Minute, demo_server)")
    case (fields rs l' s')
    from server_reconnects_unlimited [OF own distinct_upt fields] show ?thesis
      unfolding fields by (simp add: demo_server_def requests_total_def)
  qed
qed

lemma generateTraceID_nonempty: "fst (generateTraceID s) \<noteq> ''''"
proof -
  have "length (fst (generateTraceID s)) = 16"
    by (simp add: generateTraceID_def rand_Read_def)
  then show ?thesis by auto
qed

text \<open>A trace id goes on from a server's handler, but none ever starts at an agent. A call that
  a handler makes through the client interceptor carries the id of the call it serves: the one it
  came with, or a new one of 16 hexadecimal digits. A call from outside a handler, as all calls of
  the agent are, carries none, so each server makes up its own.\<close>

theorem trace_id_propagation:
  "tracing_ServerInterceptor svc method (\<lambda>ctx' s'. tracing_ClientInterceptor invoke ctx' out s') ctx s
     = (case (if incomingTraceID ctx = '''' then generateTraceID s else (incomingTraceID ctx, s)) of
          (t, s1) \<Rightarrow>
            (case invoke (out @ [(''x-trace-id'', t)]) (put_log (TraceBegins t svc method) s1) of
               (Inl err, s2) \<Rightarrow> (Inl err, put_log (TraceFails t svc method err) s2)
             | (Inr resp, s2) \<Rightarrow> (Inr resp, put_log (TraceEnds t svc method) s2)))
   \<and> length (fst (generateTraceID s)) = 16
   \<and> tracing_ClientInterceptor invoke \<lparr>ctx_metadata = None, ctx_value = Map.empty\<rparr> out w = invoke out w"
proof (intro conjI)
  show "length (fst (generateTraceID s)) = 16" by (simp add: generateTraceID_def rand_Read_def)
  show "tracing_ClientInterceptor invoke \<lparr>ctx_metadata = None, ctx_value = Map.empty\<rparr> out w = invoke out w"
    by (simp add: tracing_ClientInterceptor_def)
qed (auto simp: tracing_ServerInterceptor_def tracing_ClientInterceptor_def metadataKey_def
  generateTraceID_nonempty split: prod.split sum.split dest!: arg_cong [where f = fst])

end
