(* ===== verification/Agent_Loops.thy ===== *)
theory Agent_Loops
  imports Agent
begin

text \<open>
  The goroutines of a running agent (\<open>heartbeatLoop\<close>, \<open>tokenRefreshLoop\<close>, \<open>peerSyncLoop\<close>, the
  connections left over from \<open>Start\<close> and the handler of incoming streams, all of
  \<open>src/services/agent/internal\<close>) as turns that come in any order. The locale \<open>wg_kernel\<close> states
  what the agent relies on of its host: the \<open>wg\<close> tool on the table of peers of the interface.
  Under it every turn keeps the active peers and that table in step.
\<close>

section \<open>The turns\<close>

text \<open>What the goroutines of a running agent do, one at a time: a tick of the heartbeat loop, a turn of
  the token loop, a tick of the synchronisation, one of the connections left over from \<open>Start\<close>,
  and a stream that a peer opens. Two goroutines share only the token, under its mutex, the circuit
  breakers and the bridge, under theirs; the active peers are written by the synchronisation alone.\<close>

datatype turn = HeartbeatTurn | RefreshTurn | SyncTurn | ConnectTurn "string list" | StreamTurn string nat

record loops =
  lp_failCount :: int
  lp_refreshing :: bool
  lp_bridge :: Bridge
  lp_agent :: Agent

definition loops_start :: "Bridge \<Rightarrow> Agent \<Rightarrow> loops" where
  "loops_start b a = \<lparr>lp_failCount = 0, lp_refreshing = True, lp_bridge = b, lp_agent = a\<rparr>"

definition loop_turn :: "'w agent_env \<Rightarrow> string \<Rightarrow> string \<Rightarrow> turn \<Rightarrow> loops \<Rightarrow> 'w \<Rightarrow> loops outcome \<times> 'w" where
  "loop_turn E networkCIDR peerID t s w =
     (case t of
        HeartbeatTurn \<Rightarrow>
          (case heartbeat_tick E (lp_failCount s) (lp_agent s) w of
             (n, a, w1) \<Rightarrow> (Returned (s\<lparr>lp_failCount := n, lp_agent := a\<rparr>), w1))
      | RefreshTurn \<Rightarrow>
          if lp_refreshing s then
            (case refresh_turn E peerID (lp_agent s) w of
               (go, a, w1) \<Rightarrow> (Returned (s\<lparr>lp_refreshing := go, lp_agent := a\<rparr>), w1))
          else (Returned s, w)
      | SyncTurn \<Rightarrow>
          (case syncPeers E networkCIDR (lp_bridge s) (lp_agent s) w of
             (Panicked, w1) \<Rightarrow> (Panicked, w1)
           | (Returned (b, a), w1) \<Rightarrow> (Returned (s\<lparr>lp_bridge := b, lp_agent := a\<rparr>), w1))
      | ConnectTurn addrs \<Rightarrow>
          (case connect_peer E addrs (lp_bridge s) w of (_, b, w1) \<Rightarrow> (Returned (s\<lparr>lp_bridge := b\<rparr>), w1))
      | StreamTurn remote stream \<Rightarrow>
          (case RegisterIncoming (ae_listen E) remote stream (lp_bridge s) w of
             (b, w1) \<Rightarrow> (Returned (s\<lparr>lp_bridge := b\<rparr>), w1)))"

text \<open>The turns come in any order.\<close>

inductive loops_reach :: "'w agent_env \<Rightarrow> string \<Rightarrow> string \<Rightarrow> loops \<times> 'w \<Rightarrow> loops \<times> 'w \<Rightarrow> bool"
  for E cidr peerID x
where
  reach_start: "loops_reach E cidr peerID x x"
| reach_turn: "loops_reach E cidr peerID x (s, w) \<Longrightarrow> loop_turn E cidr peerID t s w = (Returned s', w')
    \<Longrightarrow> loops_reach E cidr peerID x (s', w')"

section \<open>Starting the loops\<close>

text \<open>The tickers of the heartbeat and of the synchronisation; \<open>time.NewTicker\<close> panics unless the
  interval is positive.\<close>

definition NewTicker :: "duration \<Rightarrow> duration outcome" where
  "NewTicker d = (if d \<le> 0 then Panicked else Returned d)"

definition heartbeat_ticker :: "ag_Config \<Rightarrow> duration outcome" where
  "heartbeat_ticker cfg = NewTicker (int64 (ac_Heartbeat cfg * time_Second))"

definition sync_ticker :: "ag_Config \<Rightarrow> duration outcome" where
  "sync_ticker cfg = NewTicker (int64 (ac_PeerSyncInterval cfg * time_Second))"

section \<open>What a turn leaves alone\<close>

lemma retry_loop_frame: "retry_loop E pk pid n i a w = (res, a', w') \<Longrightarrow> \<exists>c. a' = a\<lparr>a_client := c\<rparr>"
proof (induction n arbitrary: i a w)
  case 0
  then show ?case by (intro exI [of _ "a_client a"]) simp
next
  case (Suc n)
  then show ?case
    by (fastforce simp: Let_def split: prod.splits sum.splits bool.splits if_splits)
qed

lemma heartbeat_tick_frame: "heartbeat_tick E n a w = (n', a', w') \<Longrightarrow> \<exists>c. a' = a\<lparr>a_client := c\<rparr>"
  by (auto simp: heartbeat_tick_def Let_def split: prod.splits option.splits)

lemma refresh_turn_frame:
  "refresh_turn E pid a w = (go, a', w') \<Longrightarrow> \<exists>c tok ex. a' = a\<lparr>a_client := c, a_token := tok, a_expiresAt := ex\<rparr>"
proof -
  assume t: "refresh_turn E pid a w = (go, a', w')"
  obtain done1 w1 where wt: "ae_wait E (refreshIn (getExpiresAt a) (rpc_clock (ae_rpcs E) w)) w = (done1, w1)" by fastforce
  obtain res a1 w2 where r: "retryRegister E (a_publicKey a) pid a w1 = (res, a1, w2)" using prod_cases3 by blast
  then obtain c where "a1 = a\<lparr>a_client := c\<rparr>" using retry_loop_frame by (metis retryRegister_def)
  then have cases: "a' = a \<or> a' = a\<lparr>a_client := c\<rparr> \<or> (\<exists>tok ex. a' = setToken tok ex (a\<lparr>a_client := c\<rparr>))"
    using t wt r by (auto simp: refresh_turn_def split: bool.splits sum.splits)
  moreover have "a = a\<lparr>a_client := a_client a, a_token := a_token a, a_expiresAt := a_expiresAt a\<rparr>"
    "a\<lparr>a_client := c\<rparr> = a\<lparr>a_client := c, a_token := a_token a, a_expiresAt := a_expiresAt a\<rparr>" by simp_all
  ultimately show ?thesis unfolding setToken_def by (metis Agent.update_convs)
qed

lemma syncPeers_frame:
  assumes "syncPeers E cidr b a w = (Returned (b', a'), w')"
  shows "\<exists>c act. a' = a\<lparr>a_client := c, a_activePeers := act\<rparr>"
proof -
  obtain res c w1 where d: "c_DiscoverPeers (ae_rpcs E) (getToken a) 50 (a_client a) w = (res, c, w1)"
    using prod_cases3 by blast
  show ?thesis
  proof (cases res)
    case (Inl err)
    with assms d have "a' = a\<lparr>a_client := c\<rparr>" by (simp add: syncPeers_def)
    also have "\<dots> = a\<lparr>a_client := c, a_activePeers := a_activePeers a\<rparr>" by simp
    finally show ?thesis by blast
  next
    case (Inr peers)
    let ?a1 = "a\<lparr>a_client := c\<rparr>" and ?ex = "choose_exit (a_cfg a) (a_nodeID a) peers"
    obtain on a2 w2 where o: "online_loop E peers [] ?a1 w1 = (on, a2, w2)" using prod_cases3 by blast
    obtain c2 where a2: "a2 = ?a1\<lparr>a_client := c2\<rparr>" using online_loop_frame [OF o] by blast
    obtain b3 a3 w3 where add: "add_loop E cidr ?ex peers (ae_order E on) b a2 w2 = (Returned (b3, a3), w3)"
      and rem: "remove_loop E on (ae_order E (a_activePeers a3)) a3 w3 = (Returned a', w')"
      using assms d Inr o by (auto simp: syncPeers_def Let_def split: prod.splits outcome.splits)
    from add_loop_active [OF add] a2 obtain act3 where "a3 = a\<lparr>a_client := c2, a_activePeers := act3\<rparr>" by auto
    with remove_loop_active [OF rem] obtain act where "a' = a\<lparr>a_client := c2, a_activePeers := act\<rparr>" by auto
    then show ?thesis by blast
  qed
qed

section \<open>The peers of the interface\<close>

text \<open>A host whose \<open>wg\<close> tool works on the table of peers of the interface, by their keys: a call that
  succeeds has added or removed the peer, one that fails has changed nothing. Nothing else touches
  the table. The identity service answers for its nodes, each with a key of its own (which
  \<open>identity_node_is_key\<close> shows of it). Iterations over a map see each entry.\<close>

locale wg_kernel =
  fixes E :: "'w agent_env" and iface :: string and kernel :: "'w \<Rightarrow> string set"
    and nodes :: "string set" and key_of :: "string \<Rightarrow> string"
  assumes set_peer: "os_exec (ae_os E) [''wg'', ''set'', iface, ''peer'', k, ''endpoint'', ep, ''allowed-ips'', ips,
        ''persistent-keepalive'', ''25''] w = ((err, out), w') \<Longrightarrow> kernel w' = (if err = None then insert k (kernel w) else kernel w)"
    and remove_peer: "os_exec (ae_os E) [''wg'', ''set'', iface, ''peer'', k, ''remove''] w = ((err, out), w') \<Longrightarrow>
        kernel w' = (if err = None then kernel w - {k} else kernel w)"
    and calls: "kernel (snd (rpc_RegisterNode (ae_rpcs E) q1 w)) = kernel w"
      "kernel (snd (rpc_GetPublicKey (ae_rpcs E) q2 w)) = kernel w"
      "kernel (snd (rpc_ListPeers (ae_rpcs E) md q3 w)) = kernel w"
      "kernel (snd (rpc_Heartbeat (ae_rpcs E) q4 w)) = kernel w"
    and network: "kernel (snd (ae_connect E p w)) = kernel w" "kernel (snd (ae_ping E p w)) = kernel w"
      "kernel (snd (ae_NewStream E p w)) = kernel w" "kernel (snd (ae_listen E port w)) = kernel w"
    and time: "kernel (snd (ae_wait E d w)) = kernel w" "kernel (ae_sleep E d w) = kernel w"
    and keys: "rpc_GetPublicKey (ae_rpcs E) \<lparr>gpq_NodeId = n\<rparr> w = (Inr resp, w') \<Longrightarrow> n \<in> nodes \<and> gpr_PublicKey resp = key_of n"
    and own_key: "inj_on key_of nodes"
    and order: "set (ae_order E m) = set m"
begin

lemma quiet:
  "ae_connect E p w = (r, w') \<Longrightarrow> kernel w' = kernel w" "ae_ping E p w = (r, w') \<Longrightarrow> kernel w' = kernel w"
  "ae_NewStream E p w = (r2, w') \<Longrightarrow> kernel w' = kernel w" "ae_listen E port w = (r, w') \<Longrightarrow> kernel w' = kernel w"
  "ae_wait E d w = (fin, w') \<Longrightarrow> kernel w' = kernel w"
  using network(1) [of p w] network(2) [of p w] network(3) [of p w] network(4) [of port w] time(1) [of d w] by simp_all

lemma guarded_kernel:
  assumes "guarded R call cb w = (x, cb', w')" and "kernel (snd (call w)) = kernel w"
  shows "kernel w' = kernel w"
  using assms(2) by (cases rule: guarded_cases [OF assms(1)]) auto

lemma client_kernel:
  "c_Register (ae_rpcs E) pk pid sec c w = (r1, c', w') \<Longrightarrow> kernel w' = kernel w"
  "c_GetPeerPublicKey (ae_rpcs E) n c w = (r2, c', w') \<Longrightarrow> kernel w' = kernel w"
  "c_DiscoverPeers (ae_rpcs E) tok lim c w = (r3, c', w') \<Longrightarrow> kernel w' = kernel w"
  "c_Heartbeat (ae_rpcs E) tok c w = (r4, c', w') \<Longrightarrow> kernel w' = kernel w"
  unfolding c_Register_def c_GetPeerPublicKey_def c_DiscoverPeers_def c_Heartbeat_def
  by (split prod.splits sum.splits; clarsimp split: sum.splits; erule guarded_kernel; rule calls)+

lemma key_answer: "c_GetPeerPublicKey (ae_rpcs E) n c w = (Inr k, c', w') \<Longrightarrow> n \<in> nodes \<and> k = key_of n"
  by (auto simp: c_GetPeerPublicKey_def split: prod.splits sum.splits elim!: guarded_cases dest!: keys)

lemma retry_kernel: "retry_loop E pk pid n i a w = (res, a', w') \<Longrightarrow> kernel w' = kernel w"
proof (induction n arbitrary: i a w)
  case (Suc n)
  obtain r c w1 where r: "c_Register (ae_rpcs E) pk pid (ac_NetworkSecret (a_cfg a)) (a_client a) w = (r, c, w1)"
    using prod_cases3 by blast
  obtain fin w2 where t: "ae_wait E (2 ^ i * time_Second) w1 = (fin, w2)" by fastforce
  have "kernel w1 = kernel w" "kernel w2 = kernel w1" using client_kernel(1) [OF r] quiet(5) [OF t] by simp_all
  with Suc.prems Suc.IH [of "i + 1" "a\<lparr>a_client := c\<rparr>" w2] r t show ?case
    by (auto simp: Let_def split: sum.splits if_splits bool.splits)
qed simp

lemma heartbeat_kernel: "heartbeat_tick E n a w = (n', a', w') \<Longrightarrow> kernel w' = kernel w"
  by (cases "c_Heartbeat (ae_rpcs E) (getToken a) (a_client a) w")
    (auto simp: heartbeat_tick_def Let_def time(2) client_kernel(4) split: option.splits)

lemma refresh_kernel:
  assumes "refresh_turn E pid a w = (go, a', w')"
  shows "kernel w' = kernel w"
proof -
  obtain fin w1 where t: "ae_wait E (refreshIn (getExpiresAt a) (rpc_clock (ae_rpcs E) w)) w = (fin, w1)" by fastforce
  obtain res a1 w2 where r: "retryRegister E (a_publicKey a) pid a w1 = (res, a1, w2)" using prod_cases3 by blast
  have "kernel w1 = kernel w" using t by (rule quiet(5))
  moreover have "kernel w2 = kernel w1" using retry_kernel r by (simp add: retryRegister_def)
  ultimately show ?thesis using assms t r by (auto simp: refresh_turn_def split: bool.splits sum.splits)
qed

lemma allocate_kernel:
  "allocateRelay (ae_listen E) pid stream b w = (r, b', w') \<Longrightarrow> kernel w' = kernel w"
  "allocateRelayNoStream (ae_listen E) pid b w = (r, b', w') \<Longrightarrow> kernel w' = kernel w"
  by (auto simp: allocateRelay_def allocateRelayNoStream_def Let_def split: option.splits prod.splits dest!: quiet(4))

lemma incoming_kernel: "RegisterIncoming (ae_listen E) remote stream b w = (b', w') \<Longrightarrow> kernel w' = kernel w"
  by (auto simp: RegisterIncoming_def split: option.splits prod.splits sum.splits dest!: allocate_kernel)

lemma connect_kernel:
  assumes "connect_peer E addrs b w = (port, b', w')"
  shows "kernel w' = kernel w"
proof -
  have ping: "kernel w1 = kernel w0" if "ConnectAndPing (ae_connect E) (ae_ping E) p w0 = (r, w1)" for p r w0 w1
    using that by (auto simp: ConnectAndPing_def split: prod.splits option.splits dest!: quiet(1,2))
  have add: "kernel w1 = kernel w0" if "bridge_AddPeer (ae_listen E) (ae_NewStream E) p b0 w0 = (r, b1, w1)" for p r b0 b1 w0 w1
  proof -
    obtain x v where v: "ae_NewStream E p w0 = (x, v)" by fastforce
    then have "kernel v = kernel w0" by (rule quiet(3))
    with that v show ?thesis
      by (auto simp: bridge_AddPeer_def split: if_splits option.splits sum.splits prod.splits dest!: allocate_kernel)
  qed
  show ?thesis using assms by (auto simp: connect_peer_def split: list.splits sum.splits prod.splits option.splits dest!: ping add)
qed

end

text \<open>The active peers are on record with their keys, and these are the peers of the interface.\<close>

context wg_kernel
begin

abbreviation keyed :: "(string \<times> string) list \<Rightarrow> bool" where
  "keyed m \<equiv> \<forall>(n, k) \<in> set m. n \<in> nodes \<and> k = key_of n"

definition tracks :: "Agent \<Rightarrow> 'w \<Rightarrow> bool" where
  "tracks a w \<longleftrightarrow> \<not> wg_dryRun (a_wg_mgr a) \<and> wg_iface (a_wg_mgr a) = iface
     \<and> keyed (a_activePeers a) \<and> kernel w = snd ` set (a_activePeers a)"

lemma tracksD:
  assumes "tracks a w"
  shows "\<not> wg_dryRun (a_wg_mgr a)" "wg_iface (a_wg_mgr a) = iface" "keyed (a_activePeers a)"
    "kernel w = snd ` set (a_activePeers a)"
  using assms unfolding tracks_def by blast+

lemma tracks_mono: "tracks a w \<Longrightarrow> kernel w' = kernel w \<Longrightarrow> a_wg_mgr a' = a_wg_mgr a \<Longrightarrow>
  a_activePeers a' = a_activePeers a \<Longrightarrow> tracks a' w'"
  by (simp add: tracks_def)

lemma AddPeer_kernel:
  assumes "wg_AddPeer (ae_os E) (a_wg_mgr a) \<lparr>wp_PublicKey = k, wp_Endpoint = ep, wp_AllowedIPs = ips\<rparr> w = (y, w')"
    and "\<not> wg_dryRun (a_wg_mgr a)" "wg_iface (a_wg_mgr a) = iface"
  shows "\<exists>x. y = Returned x \<and> kernel w' = (if x = None then insert k (kernel w) else kernel w)"
proof -
  obtain err out w1 where x: "os_exec (ae_os E) [''wg'', ''set'', iface, ''peer'', k, ''endpoint'', ep, ''allowed-ips'', ips,
      ''persistent-keepalive'', ''25''] w = ((err, out), w1)" by (metis prod.collapse)
  from assms x set_peer [OF x] show ?thesis
    by (cases err) (auto simp: wg_AddPeer_def runWG_def wg_runCmd_def intro: exI [of _ "map_option (Wrapped ''wg failed'') err"])
qed

lemma RemovePeer_kernel:
  assumes "wg_RemovePeer (ae_os E) (a_wg_mgr a) k w = (y, w')"
    and "\<not> wg_dryRun (a_wg_mgr a)" "wg_iface (a_wg_mgr a) = iface"
  shows "\<exists>x. y = Returned x \<and> kernel w' = (if x = None then kernel w - {k} else kernel w)"
proof -
  obtain err out w1 where x: "os_exec (ae_os E) [''wg'', ''set'', iface, ''peer'', k, ''remove''] w = ((err, out), w1)"
    by (metis prod.collapse)
  from assms x remove_peer [OF x] show ?thesis
    by (cases err) (auto simp: wg_RemovePeer_def runWG_def wg_runCmd_def intro: exI [of _ "map_option (Wrapped ''wg failed'') err"])
qed

lemma online_loop_keyed:
  "online_loop E ps on a w = (on', a', w') \<Longrightarrow> keyed on \<Longrightarrow> keyed on' \<and> kernel w' = kernel w"
proof (induction ps arbitrary: on a w)
  case (Cons p ps)
  show ?case
  proof (cases "pp_NodeId p = a_nodeID a")
    case False
    obtain res c w1 where k: "c_GetPeerPublicKey (ae_rpcs E) (pp_NodeId p) (a_client a) w = (res, c, w1)"
      using prod_cases3 by blast
    have w1: "kernel w1 = kernel w" using client_kernel(2) [OF k] .
    show ?thesis
    proof (cases res)
      case (Inl err)
      with Cons.prems False k have "online_loop E ps on (a\<lparr>a_client := c\<rparr>) w1 = (on', a', w')" by simp
      with Cons.IH Cons.prems(2) w1 show ?thesis by simp
    next
      case (Inr key)
      with key_answer k have key: "pp_NodeId p \<in> nodes" "key = key_of (pp_NodeId p)" by blast+
      then have "keyed (map_set (pp_NodeId p) key on)" using Cons.prems(2) by (auto simp: map_set_def)
      moreover have "online_loop E ps (map_set (pp_NodeId p) key on) (a\<lparr>a_client := c\<rparr>) w1 = (on', a', w')"
        using Cons.prems False k Inr by simp
      ultimately show ?thesis using Cons.IH w1 by simp
    qed
  qed (use Cons in simp)
qed simp

lemma tracks_add:
  assumes "tracks a w" "kernel w' = insert k (kernel w)" "n \<in> nodes" "k = key_of n" "map_of (a_activePeers a) n = None"
  shows "tracks (a\<lparr>a_activePeers := map_set n k (a_activePeers a)\<rparr>) w'"
proof -
  have "filter (\<lambda>x. fst x \<noteq> n) (a_activePeers a) = a_activePeers a"
    using assms(5) by (intro filter_True) (auto simp: map_of_eq_None_iff)
  with assms show ?thesis by (simp add: tracks_def map_set_def)
qed

lemma tracks_delete:
  assumes "tracks a w" "kernel w' = kernel w - {k}" "n \<in> nodes" "k = key_of n"
  shows "tracks (a\<lparr>a_activePeers := map_delete n (a_activePeers a)\<rparr>) w'"
proof -
  have "m \<noteq> n \<Longrightarrow> m \<in> nodes \<Longrightarrow> key_of m \<noteq> key_of n" for m using own_key assms(3) by (auto dest: inj_onD)
  with assms have "snd ` set (map_delete n (a_activePeers a)) = snd ` set (a_activePeers a) - {k}"
    by (force simp: tracks_def map_delete_def image_iff)
  with assms show ?thesis by (auto simp: tracks_def map_delete_def)
qed

lemma add_loop_tracks:
  "tracks a w \<Longrightarrow> keyed xs \<Longrightarrow> \<exists>b' a' w'. add_loop E cidr ex peers xs b a w = (Returned (b', a'), w') \<and> tracks a' w'"
proof (induction xs arbitrary: b a w)
  case (Cons x xs)
  obtain n k where x: "x = (n, k)" by fastforce
  with Cons.prems have nk: "n \<in> nodes" "k = key_of n" by simp_all
  show ?case
  proof (cases "map_of (a_activePeers a) n = None")
    case True
    obtain addrs ip where pa: "(case find (\<lambda>p. pp_NodeId p = n) peers of
        None \<Rightarrow> ([], '''') | Some p \<Rightarrow> (pp_P2PAddrs p, pp_IpAddress p)) = (addrs, ip)" by fastforce
    obtain port b1 w1 where c: "connect_peer E addrs b w = (port, b1, w1)" using prod_cases3 by blast
    have t1: "tracks a w1" using Cons.prems(1) connect_kernel [OF c] by (simp add: tracks_mono)
    obtain y w2 where y: "wg_AddPeer (ae_os E) (a_wg_mgr a) \<lparr>wp_PublicKey = k, wp_Endpoint = proxy_endpoint port,
        wp_AllowedIPs = allowed_ips cidr ex n ip\<rparr> w1 = (y, w2)" by fastforce
    from AddPeer_kernel [OF y tracksD(1,2) [OF t1]] obtain r where
      r: "y = Returned r" "kernel w2 = (if r = None then insert k (kernel w1) else kernel w1)" by blast
    note step = True x pa c y
    have kx: "keyed xs" using Cons.prems by simp
    consider "port = 0" | err where "port \<noteq> 0" "r = Some err" | "port \<noteq> 0" "r = None" by blast
    then show ?thesis
    proof cases
      case 1
      with step Cons.IH [OF t1 kx, of b1] show ?thesis by simp
    next
      case 2
      with r t1 have "tracks a w2" by (simp add: tracks_mono)
      from Cons.IH [OF this kx, of b1] 2 step r(1) show ?thesis by simp
    next
      case 3
      with tracks_add [OF t1 _ nk True] r have "tracks (a\<lparr>a_activePeers := map_set n k (a_activePeers a)\<rparr>) w2" by simp
      from Cons.IH [OF this kx, of b1] 3 step r(1) show ?thesis by simp
    qed
  next
    case False
    with Cons.IH [OF Cons.prems(1), of b] Cons.prems(2) x show ?thesis by simp
  qed
qed simp

lemma remove_loop_tracks:
  "tracks a w \<Longrightarrow> keyed xs \<Longrightarrow> \<exists>a' w'. remove_loop E on xs a w = (Returned a', w') \<and> tracks a' w'"
proof (induction xs arbitrary: a w)
  case (Cons x xs)
  obtain n k where x: "x = (n, k)" by fastforce
  with Cons.prems have nk: "n \<in> nodes" "k = key_of n" by simp_all
  obtain y w1 where y: "wg_RemovePeer (ae_os E) (a_wg_mgr a) k w = (y, w1)" by fastforce
  from RemovePeer_kernel [OF y tracksD(1,2) [OF Cons.prems(1)]] obtain r where
    r: "y = Returned r" "kernel w1 = (if r = None then kernel w - {k} else kernel w)" by blast
  have kx: "keyed xs" using Cons.prems by simp
  consider "map_of on n \<noteq> None" | err where "map_of on n = None" "r = Some err" | "map_of on n = None" "r = None" by blast
  then show ?case
  proof cases
    case 1
    with x Cons.IH [OF Cons.prems(1) kx] show ?thesis by auto
  next
    case 2
    with r Cons.prems(1) have "tracks a w1" by (simp add: tracks_mono)
    from Cons.IH [OF this kx] 2 x y r(1) show ?thesis by simp
  next
    case 3
    with tracks_delete [OF Cons.prems(1) _ nk] r have "tracks (a\<lparr>a_activePeers := map_delete n (a_activePeers a)\<rparr>) w1" by simp
    from Cons.IH [OF this kx] 3 x y r(1) show ?thesis by simp
  qed
qed simp

lemma sync_tracks:
  assumes "tracks a w"
  shows "\<exists>b' a' w'. syncPeers E cidr b a w = (Returned (b', a'), w') \<and> tracks a' w'"
proof -
  obtain res c w1 where d: "c_DiscoverPeers (ae_rpcs E) (getToken a) 50 (a_client a) w = (res, c, w1)"
    using prod_cases3 by blast
  have t1: "tracks (a\<lparr>a_client := c\<rparr>) w1" using assms client_kernel(3) [OF d] by (simp add: tracks_mono)
  show ?thesis
  proof (cases res)
    case (Inl err)
    with d t1 show ?thesis by (simp add: syncPeers_def)
  next
    case (Inr peers)
    let ?a1 = "a\<lparr>a_client := c\<rparr>" and ?ex = "choose_exit (a_cfg a) (a_nodeID a) peers"
    obtain on a2 w2 where o: "online_loop E peers [] ?a1 w1 = (on, a2, w2)" using prod_cases3 by blast
    have on: "keyed on" "kernel w2 = kernel w1" using online_loop_keyed [OF o] by simp_all
    from online_loop_frame [OF o] obtain c2 where "a2 = ?a1\<lparr>a_client := c2\<rparr>" by blast
    with tracks_mono [OF t1 on(2)] have t2: "tracks a2 w2" by simp
    have "keyed (ae_order E on)" using on(1) by (simp add: order)
    from add_loop_tracks [OF t2 this] obtain b3 a3 w3 where
      add: "add_loop E cidr ?ex peers (ae_order E on) b a2 w2 = (Returned (b3, a3), w3)" "tracks a3 w3" by blast
    have "keyed (ae_order E (a_activePeers a3))" using tracksD(3) [OF add(2)] by (simp add: order)
    from remove_loop_tracks [OF add(2) this] obtain a4 w4 where
      "remove_loop E on (ae_order E (a_activePeers a3)) a3 w3 = (Returned a4, w4)" "tracks a4 w4" by blast
    with d Inr o add show ?thesis by (simp add: syncPeers_def Let_def)
  qed
qed

end

context wg_kernel
begin

lemma turn_tracks:
  assumes "tracks (lp_agent s) w"
  shows "\<exists>s' w'. loop_turn E cidr peerID t s w = (Returned s', w') \<and> tracks (lp_agent s') w'"
proof (cases t)
  case HeartbeatTurn
  obtain n a w1 where h: "heartbeat_tick E (lp_failCount s) (lp_agent s) w = (n, a, w1)" using prod_cases3 by blast
  from heartbeat_tick_frame [OF h] tracks_mono [OF assms heartbeat_kernel [OF h]] have "tracks a w1" by auto
  with HeartbeatTurn h show ?thesis by (simp add: loop_turn_def)
next
  case RefreshTurn
  obtain go a w1 where r: "refresh_turn E peerID (lp_agent s) w = (go, a, w1)" using prod_cases3 by blast
  from refresh_turn_frame [OF r] tracks_mono [OF assms refresh_kernel [OF r]] have "tracks a w1" by auto
  with RefreshTurn r assms show ?thesis by (simp add: loop_turn_def)
next
  case SyncTurn
  with sync_tracks [OF assms, of cidr "lp_bridge s"] show ?thesis by (auto simp: loop_turn_def)
next
  case (ConnectTurn addrs)
  obtain port b w1 where c: "connect_peer E addrs (lp_bridge s) w = (port, b, w1)" using prod_cases3 by blast
  with ConnectTurn tracks_mono [OF assms connect_kernel [OF c]] show ?thesis by (simp add: loop_turn_def)
next
  case (StreamTurn remote stream)
  obtain b w1 where r: "RegisterIncoming (ae_listen E) remote stream (lp_bridge s) w = (b, w1)" by fastforce
  with StreamTurn tracks_mono [OF assms incoming_kernel [OF r]] show ?thesis by (simp add: loop_turn_def)
qed

lemma reach_tracks: "loops_reach E cidr peerID x y \<Longrightarrow> tracks (lp_agent (fst x)) (snd x) \<Longrightarrow> tracks (lp_agent (fst y)) (snd y)"
proof (induction rule: loops_reach.induct)
  case (reach_turn s w t s' w')
  with turn_tracks [of s w cidr peerID t] show ?case by auto
qed

end

text \<open>No turn changes who the agent is: its node, its address, its key pair, its settings.\<close>

definition same_place :: "Agent \<Rightarrow> Agent \<Rightarrow> bool" where
  "same_place a a' \<longleftrightarrow> a_cfg a' = a_cfg a \<and> a_wg_mgr a' = a_wg_mgr a \<and> a_p2p_mgr a' = a_p2p_mgr a
     \<and> a_gateway a' = a_gateway a \<and> a_nodeID a' = a_nodeID a \<and> a_vpnIP a' = a_vpnIP a \<and> a_publicKey a' = a_publicKey a"

lemma same_place_refl [simp]: "same_place a a"
  by (simp add: same_place_def)

lemma same_place_trans: "same_place a b \<Longrightarrow> same_place b c \<Longrightarrow> same_place a c"
  by (simp add: same_place_def)

lemma loop_turn_frame: "loop_turn E cidr peerID t s w = (Returned s', w') \<Longrightarrow> same_place (lp_agent s) (lp_agent s')"
  by (cases t)
    (auto simp: loop_turn_def same_place_def split: prod.splits outcome.splits if_splits
      dest!: heartbeat_tick_frame refresh_turn_frame syncPeers_frame)

lemma loops_reach_frame: "loops_reach E cidr peerID x y \<Longrightarrow> same_place (lp_agent (fst x)) (lp_agent (fst y))"
proof (induction rule: loops_reach.induct)
  case (reach_turn s w t s' w')
  from same_place_trans [OF _ loop_turn_frame [OF reach_turn.hyps(2)]] reach_turn.IH show ?case by simp
qed simp

text \<open>A given list of turns.\<close>

fun loops_run :: "'w agent_env \<Rightarrow> string \<Rightarrow> string \<Rightarrow> turn list \<Rightarrow> loops \<Rightarrow> 'w \<Rightarrow> loops outcome \<times> 'w" where
  "loops_run E cidr peerID [] s w = (Returned s, w)"
| "loops_run E cidr peerID (t # ts) s w =
     (case loop_turn E cidr peerID t s w of
        (Panicked, w1) \<Rightarrow> (Panicked, w1)
      | (Returned s1, w1) \<Rightarrow> loops_run E cidr peerID ts s1 w1)"

lemma loops_run_reach:
  "loops_reach E cidr peerID x (s, w) \<Longrightarrow> loops_run E cidr peerID ts s w = (Returned s', w') \<Longrightarrow> loops_reach E cidr peerID x (s', w')"
proof (induction ts arbitrary: s w)
  case (Cons t ts)
  then obtain s1 w1 where "loop_turn E cidr peerID t s w = (Returned s1, w1)" "loops_run E cidr peerID ts s1 w1 = (Returned s', w')"
    by (auto split: prod.splits outcome.splits)
  with Cons.IH [OF loops_reach.reach_turn [OF Cons.prems(1)]] show ?case by blast
qed simp

lemma loops_run_append:
  "loops_run E cidr peerID (ts @ us) s w =
     (case loops_run E cidr peerID ts s w of
        (Panicked, w1) \<Rightarrow> (Panicked, w1)
      | (Returned s1, w1) \<Rightarrow> loops_run E cidr peerID us s1 w1)"
  by (induction ts arbitrary: s w) (auto split: prod.splits outcome.splits)

text \<open>The runs of lists of turns are all there is to reach.\<close>

lemma loops_reach_iff_run:
  "loops_reach E cidr peerID (s, w) y \<longleftrightarrow> (\<exists>ts. loops_run E cidr peerID ts s w = (Returned (fst y), snd y))"
proof
  assume "loops_reach E cidr peerID (s, w) y"
  then show "\<exists>ts. loops_run E cidr peerID ts s w = (Returned (fst y), snd y)"
  proof (induction rule: loops_reach.induct)
    case reach_start
    show ?case by (rule exI [of _ "[]"]) simp
  next
    case (reach_turn s1 w1 t s2 w2)
    then obtain ts where "loops_run E cidr peerID ts s w = (Returned s1, w1)" by auto
    with reach_turn.hyps(2) have "loops_run E cidr peerID (ts @ [t]) s w = (Returned s2, w2)"
      by (simp add: loops_run_append)
    then show ?case by auto
  qed
next
  assume "\<exists>ts. loops_run E cidr peerID ts s w = (Returned (fst y), snd y)"
  then show "loops_reach E cidr peerID (s, w) y"
    using loops_run_reach [OF loops_reach.reach_start] by (metis prod.collapse)
qed

context wg_kernel
begin

lemma run_tracks: "tracks (lp_agent s) w \<Longrightarrow>
  \<exists>s' w'. loops_run E cidr peerID ts s w = (Returned s', w') \<and> tracks (lp_agent s') w'"
proof (induction ts arbitrary: s w)
  case (Cons t ts)
  obtain s1 w1 where "loop_turn E cidr peerID t s w = (Returned s1, w1)" "tracks (lp_agent s1) w1"
    using turn_tracks [OF Cons.prems] by blast
  with Cons.IH [of s1 w1] show ?case by simp
qed simp

end

end
