(* ===== verification/Agent_Tunnel.thy ===== *)
theory Agent_Tunnel
  imports Agent_Loops Identity
begin

text \<open>
  From the start of an agent to its loops. The locale \<open>wg_host\<close> extends \<open>wg_kernel\<close> by
  \<open>wg-quick up\<close>, which sets the interface up with the keys in the configuration file; then
  \<open>Start\<close> leaves the table of peers in step with the active peers, and the turns keep it so. A host
  in memory, with the identity service's own answers, satisfies both locales.
\<close>

section \<open>From the start on\<close>

text \<open>The keys in a configuration file, and a host whose \<open>wg-quick up\<close> sets the interface up with just
  these. What the services say goes into the file, so it has to be free of line breaks.\<close>

definition conf_keys :: "string \<Rightarrow> string list" where
  "conf_keys text = [drop 12 l. l \<leftarrow> text_lines text, take 12 l = ''PublicKey = '']"

locale wg_host = wg_kernel E iface kernel nodes key_of
  for E :: "'w agent_env" and iface :: string and kernel :: "'w \<Rightarrow> string set"
    and nodes :: "string set" and key_of :: "string \<Rightarrow> string" +
  fixes conf :: "'w \<Rightarrow> string \<Rightarrow> string"
  assumes goos: "os_goos (ae_os E) = Linux"
    and opens: "\<exists>w'. os_open (ae_os E) path w = (None, w')"
    and writes: "\<exists>w'. os_write (ae_os E) path txt w = (None, w') \<and> conf w' path = txt"
    and ups: "\<exists>out w'. os_exec (ae_os E) [''wg-quick'', ''up'', path] w = ((None, out), w') \<and> kernel w' = set (conf_keys (conf w path))"
    and plain_keys: "n \<in> nodes \<Longrightarrow> one_line (key_of n)"
    and plain_addresses: "rpc_ListPeers (ae_rpcs E) md q w = (Inr resp, w') \<Longrightarrow> p \<in> set (lpr_Peers resp) \<Longrightarrow> one_line (pp_IpAddress p)"
    and plain_config: "rpc_GetConfig (ae_rpcs E) q1 w = (Inr cresp, w') \<Longrightarrow> dns \<in> set (gcr_DnsServers cresp) \<Longrightarrow> one_line dns"
      "rpc_RequestIP (ae_rpcs E) q2 w = (Inr rresp, w') \<Longrightarrow> one_line (rir_IpAddress rresp)"

lemma conf_keys_render:
  assumes "one_line (wc_PrivateKey cfg)" "one_line (wc_Address cfg)" "one_line (wc_DNS cfg)"
    and "\<forall>p \<in> set (wc_Peers cfg). one_line (wp_PublicKey p) \<and> one_line (wp_Endpoint p) \<and> one_line (wp_AllowedIPs p)"
  shows "conf_keys (render cfg) = map wp_PublicKey (wc_Peers cfg)"
proof -
  have peers: "[drop 12 l. l \<leftarrow> concat (map peer_lines ps), take 12 l = ''PublicKey = ''] = map wp_PublicKey ps" for ps
    by (induction ps) (simp_all add: peer_lines_def)
  show ?thesis unfolding conf_keys_def wg_render_lines [THEN conjunct1, OF assms] using peers [of "wc_Peers cfg"]
    by (simp add: interface_lines_def)
qed

lemma one_line_Join: "\<forall>x \<in> set xs. one_line x \<Longrightarrow> one_line sep \<Longrightarrow> one_line (Join sep xs)"
  by (induction sep xs rule: Join.induct) auto

context wg_host
begin

text \<open>The peers of the configuration and the active peers, while \<open>Start\<close> collects them.\<close>

definition collected :: "PeerConfig list \<Rightarrow> Agent \<Rightarrow> bool" where
  "collected wps a \<longleftrightarrow> keyed (a_activePeers a) \<and> wp_PublicKey ` set wps = snd ` set (a_activePeers a)
     \<and> (\<forall>p \<in> set wps. one_line (wp_PublicKey p) \<and> one_line (wp_Endpoint p) \<and> one_line (wp_AllowedIPs p))"

lemma collected_add:
  assumes "collected wps a" "n \<in> nodes" "one_line ip"
  shows "collected (wps @ [\<lparr>wp_PublicKey = key_of n, wp_Endpoint = proxy_endpoint port, wp_AllowedIPs = ip @ ''/32''\<rparr>])
    (a\<lparr>a_client := c, a_activePeers := map_set n (key_of n) (a_activePeers a)\<rparr>)"
proof -
  have "snd ` set (map_set n (key_of n) (a_activePeers a)) = insert (key_of n) (snd ` set (a_activePeers a))"
    using assms(1) by (force simp: map_set_def collected_def image_iff)
  moreover have "one_line (proxy_endpoint port)" by (simp add: proxy_endpoint_def)
  ultimately show ?thesis using assms plain_keys [OF assms(2)] by (auto simp: collected_def map_set_def)
qed

lemma start_loop_collected:
  "start_loop E sched k pending ps wps b a w = (Returned (wps', pending', b', a'), w') \<Longrightarrow> collected wps a \<Longrightarrow>
   \<forall>p \<in> set ps. one_line (pp_IpAddress p) \<Longrightarrow> collected wps' a' \<and> same_place a a'"
proof (induction ps arbitrary: k pending wps b a w)
  case Nil
  then show ?case by simp
next
  case (Cons p ps)
  let ?fin = "sched k pending"
  obtain b1 w1 where g: "run_goroutines E ?fin b w = (b1, w1)" by fastforce
  have ps: "\<forall>p \<in> set ps. one_line (pp_IpAddress p)" and ip: "one_line (pp_IpAddress p)" using Cons.prems(3) by simp_all
  show ?case
  proof (cases "pp_NodeId p = a_nodeID a")
    case True
    with Cons.prems(1) g have "start_loop E sched (k + 1) (fold remove1 ?fin pending) ps wps b1 a w1 = (Returned (wps', pending', b', a'), w')"
      by (simp add: Let_def)
    from Cons.IH [OF this Cons.prems(2) ps] show ?thesis .
  next
    case other: False
    obtain res c w2 where key: "c_GetPeerPublicKey (ae_rpcs E) (pp_NodeId p) (a_client a) w1 = (res, c, w2)"
      using prod_cases3 by blast
    have keep: "collected wps (a\<lparr>a_client := c\<rparr>)" "same_place a (a\<lparr>a_client := c\<rparr>)"
      using Cons.prems(2) by (simp_all add: collected_def same_place_def)
    show ?thesis
    proof (cases res)
      case (Inl err)
      with Cons.prems(1) g other key have "start_loop E sched (k + 1) (fold remove1 ?fin pending) ps wps b1 (a\<lparr>a_client := c\<rparr>) w2
          = (Returned (wps', pending', b', a'), w')" by (simp add: Let_def)
      from Cons.IH [OF this keep(1) ps] same_place_trans [OF keep(2)] show ?thesis by blast
    next
      case (Inr pk)
      have pk: "pp_NodeId p \<in> nodes" "pk = key_of (pp_NodeId p)" using key_answer key Inr by blast+
      let ?a = "a\<lparr>a_client := c, a_activePeers := map_set (pp_NodeId p) pk (a_activePeers a)\<rparr>"
      have "same_place a ?a" by (simp add: same_place_def)
      consider (skip) "start_loop E sched (k + 1) (fold remove1 ?fin pending) ps wps b1 (a\<lparr>a_client := c\<rparr>) w2
            = (Returned (wps', pending', b', a'), w')"
        | (added) port where "start_loop E sched (k + 1) (fold remove1 ?fin pending) ps
              (wps @ [\<lparr>wp_PublicKey = pk, wp_Endpoint = proxy_endpoint port, wp_AllowedIPs = pp_IpAddress p @ ''/32''\<rparr>]) b1 ?a w2
            = (Returned (wps', pending', b', a'), w')"
        using Cons.prems(1) g other key Inr
        by (auto simp: Let_def split: list.splits sum.splits prod.splits if_splits)
      then show ?thesis
      proof cases
        case skip
        from Cons.IH [OF this keep(1) ps] same_place_trans [OF keep(2)] show ?thesis by blast
      next
        case added
        from Cons.IH [OF this _ ps] collected_add [OF Cons.prems(2) pk(1) ip, of _ c] pk(2)
          same_place_trans [OF \<open>same_place a ?a\<close>] show ?thesis by auto
      qed
    qed
  qed
qed

lemma Configure_kernel:
  assumes "\<not> wg_dryRun m"
    and "one_line (wc_PrivateKey cfg)" "one_line (wc_Address cfg)" "one_line (wc_DNS cfg)"
    and "\<forall>p \<in> set (wc_Peers cfg). one_line (wp_PublicKey p) \<and> one_line (wp_Endpoint p) \<and> one_line (wp_AllowedIPs p)"
  shows "\<exists>w'. Configure (ae_os E) m cfg w = (None, w') \<and> kernel w' = wp_PublicKey ` set (wc_Peers cfg)"
proof -
  let ?path = "path_join Linux (wg_configDir m) (wg_iface m @ ''.conf'')"
  obtain w1 where o: "os_open (ae_os E) ?path w = (None, w1)" using opens by blast
  obtain w2 where wr: "os_write (ae_os E) ?path (render cfg) w1 = (None, w2)" "conf w2 ?path = render cfg" using writes by blast
  obtain out w3 where "os_exec (ae_os E) [''wg-quick'', ''up'', ?path] w2 = ((None, out), w3)" "kernel w3 = set (conf_keys (conf w2 ?path))"
    using ups by blast
  with o wr assms(1) show ?thesis
    by (simp add: Configure_def Let_def goos wg_up_def wg_runCmd_def conf_keys_render [OF assms(2-5)])
qed

end

context wg_host
begin

lemma discovered_plain:
  "c_DiscoverPeers (ae_rpcs E) tok lim c w = (Inr ps, c', w') \<Longrightarrow> \<forall>p \<in> set ps. one_line (pp_IpAddress p)"
  by (auto simp: c_DiscoverPeers_def split: prod.splits sum.splits elim!: guarded_cases dest: plain_addresses)

lemma start_peers_tracks:
  assumes run: "start_peers E sched cidr wgCfg m b a w = (Returned (Running cidr' pending b'), a', w')"
    and live: "\<not> wg_dryRun (a_wg_mgr a)" "wg_iface (a_wg_mgr a) = iface" "a_activePeers a = []"
    and plain: "one_line (wc_PrivateKey wgCfg)" "one_line (wc_Address wgCfg)" "one_line (wc_DNS wgCfg)"
  shows "tracks a' w'"
proof -
  obtain e c w1 where r: "c_RegisterPeer (ae_rpcs E) (a_token a) (a_vpnIP a) (int32 (ac_WireGuardPort (a_cfg a))) (PeerID_p2p m)
      (Multiaddrs m) (ac_IsExitNode (a_cfg a)) (a_client a) w = (e, c, w1)" using prod_cases3 by blast
  let ?a1 = "a\<lparr>a_client := c\<rparr>"
  obtain gw w2 where gw: "(if ac_IsExitNode (a_cfg ?a1) then snd (gw_Enable (ae_os E) (a_gateway ?a1) w1) else (a_gateway ?a1, w1)) = (gw, w2)"
    by fastforce
  let ?a2 = "?a1\<lparr>a_gateway := gw\<rparr>"
  obtain found c3 w3 where f: "c_DiscoverPeers (ae_rpcs E) (getToken ?a2) 10 (a_client ?a2) w2 = (found, c3, w3)"
    using prod_cases3 by blast
  let ?a3 = "?a2\<lparr>a_client := c3\<rparr>" and ?ps = "case found of Inl _ \<Rightarrow> [] | Inr ps \<Rightarrow> ps"
  obtain x w4 where l: "start_loop E sched 0 (start_goroutines (a_nodeID ?a3) ?ps) ?ps [] b ?a3 w3 = (x, w4)" by fastforce
  have e: "e = None" using run r by (cases e) (simp_all add: start_peers_def)
  note steps = r [unfolded e] gw f l
  obtain wps pend b4 a4 where x: "x = Returned (wps, pend, b4, a4)"
    using run steps by (cases x) (auto simp: start_peers_def Let_def)
  have "collected [] ?a3" using live(3) by (simp add: collected_def)
  moreover have "\<forall>p \<in> set ?ps. one_line (pp_IpAddress p)" using discovered_plain f by (cases found) auto
  ultimately have done4: "collected wps a4" "same_place ?a3 a4" using start_loop_collected [OF l [unfolded x]] by blast+
  have mgr: "a_wg_mgr a4 = a_wg_mgr a" using done4(2) by (simp add: same_place_def)
  obtain w5 where w5: "Configure (ae_os E) (a_wg_mgr a4) (wgCfg\<lparr>wc_Peers := wps\<rparr>) w4 = (None, w5)"
      "kernel w5 = wp_PublicKey ` set wps"
    using Configure_kernel [of "a_wg_mgr a4" "wgCfg\<lparr>wc_Peers := wps\<rparr>" w4] live(1) mgr plain done4(1)
    by (auto simp: collected_def)
  have "a' = a4\<lparr>a_bridge := Some b4\<rparr>" "w' = w5"
    using run steps x w5(1) by (auto simp: start_peers_def Let_def)
  then show ?thesis using done4(1) w5(2) mgr live by (simp add: tracks_def collected_def)
qed

lemma RequestIP_plain: "c_RequestIP (ae_rpcs E) tok n c w = (Inr (ip, sub, gw), c', w') \<Longrightarrow> one_line ip"
  by (auto simp: c_RequestIP_def split: prod.splits sum.splits elim!: guarded_cases dest: plain_config(2))

lemma GetNetworkConfig_plain:
  "c_GetNetworkConfig (ae_rpcs E) tok c w = (Inr cfg, c', w') \<Longrightarrow> \<forall>d \<in> set (gcr_DnsServers cfg). one_line d"
  by (auto simp: c_GetNetworkConfig_def split: prod.splits sum.splits elim!: guarded_cases dest: plain_config(1))

lemma GenerateKeyPair_plain: "GenerateKeyPair (ae_os E) mult w = (Inr kp, w') \<Longrightarrow> one_line (kp_PrivateKey kp)"
  by (auto simp: GenerateKeyPair_def Let_def b64_encode_one_line split: prod.splits sum.splits)

lemma start_wgConfig_plain:
  assumes "one_line key" "one_line ip" "one_line (ac_ExitNodeDNS cfg)" "\<forall>d \<in> set (gcr_DnsServers net). one_line d"
  shows "one_line (wc_PrivateKey (start_wgConfig cfg key net ip subnet))" "one_line (wc_Address (start_wgConfig cfg key net ip subnet))"
    "one_line (wc_DNS (start_wgConfig cfg key net ip subnet))"
  using assms one_line_Join [of "gcr_DnsServers net" "'', ''"] by (simp_all add: start_wgConfig_def)

lemma retryRegister_frame: "retryRegister E pk pid a w = (res, a', w') \<Longrightarrow> \<exists>c. a' = a\<lparr>a_client := c\<rparr>"
  unfolding retryRegister_def by (rule retry_loop_frame)

lemma Start_tracks:
  assumes run: "Start E sched a w = (Returned (Running cidr pending b), a', w')"
    and live: "\<not> wg_dryRun (a_wg_mgr a)" "wg_iface (a_wg_mgr a) = iface" "a_activePeers a = []"
    and dns: "one_line (ac_ExitNodeDNS (a_cfg a))"
  shows "tracks a' w'"
proof -
  obtain m where m: "p2p_New (ae_libp2p E) (ac_P2PPort (a_cfg a)) = Inr m"
    using run by (auto simp: Start_def split: sum.splits)
  let ?b = "NewBridge (host_ID m) (ac_WireGuardPort (a_cfg a)) (ac_WireGuardPort (a_cfg a) + 100)"
  let ?a0 = "a\<lparr>a_p2p_mgr := Some m, a_bridge := Some ?b\<rparr>"
  obtain kp w1 where kp: "GenerateKeyPair (ae_os E) (ae_ScalarBaseMult E) w = (Inr kp, w1)"
    using run m by (cases "GenerateKeyPair (ae_os E) (ae_ScalarBaseMult E) w") (auto simp: Start_def Let_def split: sum.splits)
  let ?a1 = "?a0\<lparr>a_publicKey := kp_PublicKey kp\<rparr>"
  obtain y where y: "slice_to 16 (kp_PublicKey kp) = Returned y"
    using run m kp by (cases "slice_to 16 (kp_PublicKey kp)") (auto simp: Start_def Let_def)
  obtain res a2 w2 where r: "retryRegister E (kp_PublicKey kp) (PeerID_p2p m) ?a1 w1 = (res, a2, w2)" using prod_cases3 by blast
  obtain n tok ex where res: "res = Inr (n, tok, ex)"
    using run m kp y r by (cases res) (auto simp: Start_def Let_def split: prod.splits)
  obtain c0 where a2: "a2 = ?a1\<lparr>a_client := c0\<rparr>" using retryRegister_frame [OF r] by blast
  let ?a3 = "setToken tok ex (a2\<lparr>a_nodeID := n\<rparr>)"
  obtain cfg c1 w3 where cfg: "c_GetNetworkConfig (ae_rpcs E) (a_token ?a3) (a_client ?a3) w2 = (Inr cfg, c1, w3)"
    using run m kp y r res by (cases "c_GetNetworkConfig (ae_rpcs E) (a_token ?a3) (a_client ?a3) w2")
      (auto simp: Start_def Let_def split: sum.splits)
  let ?a4 = "?a3\<lparr>a_client := c1\<rparr>"
  obtain ip sub gw c2 w4 where ip: "c_RequestIP (ae_rpcs E) (a_token ?a4) (a_nodeID ?a4) (a_client ?a4) w3 = (Inr (ip, sub, gw), c2, w4)"
    using run m kp y r res cfg by (cases "c_RequestIP (ae_rpcs E) (a_token ?a4) (a_nodeID ?a4) (a_client ?a4) w3")
      (auto simp: Start_def Let_def split: sum.splits)
  let ?a5 = "?a4\<lparr>a_client := c2, a_vpnIP := ip\<rparr>"
  have peers: "start_peers E sched (gcr_NetworkCidr cfg) (start_wgConfig (a_cfg ?a5) (kp_PrivateKey kp) cfg ip sub) m ?b ?a5
      (updateCLIState E ?a5 ip tok w4) = (Returned (Running cidr pending b), a', w')"
    using run m kp y r res cfg ip by (simp add: Start_def Let_def)
  have "one_line (ac_ExitNodeDNS (a_cfg ?a5))" using dns a2 by (simp add: setToken_def)
  note plain = start_wgConfig_plain [OF GenerateKeyPair_plain [OF kp] RequestIP_plain [OF ip] this GetNetworkConfig_plain [OF cfg], of sub]
  show ?thesis
    by (rule start_peers_tracks [OF peers _ _ _ plain]) (use live a2 in \<open>simp_all add: setToken_def\<close>)
qed

end

section \<open>A host in memory\<close>

text \<open>A host with a \<open>wg\<close> tool that may fail, whose public keys come from the tables of the identity
  service after some history.\<close>

record kernel_host =
  kh_now :: instant
  kh_peers :: "string set"
  kh_conf :: "string \<Rightarrow> string"
  kh_faults :: "bool list"

definition wg_tool :: "string list \<Rightarrow> kernel_host \<Rightarrow> (go_error option \<times> string) \<times> kernel_host" where
  "wg_tool argv h =
     (if take 2 argv = [''wg-quick'', ''up''] then ((None, ''''), h\<lparr>kh_peers := set (conf_keys (kh_conf h (last argv)))\<rparr>)
      else if take 2 argv \<noteq> [''wg'', ''set''] \<or> length argv < 6 then ((None, ''''), h)
      else
        let h' = h\<lparr>kh_faults := tl (kh_faults h)\<rparr> in
        if kh_faults h \<noteq> [] \<and> hd (kh_faults h) then ((Some (Plain ''exit status 1''), ''''), h')
        else ((None, ''''),
          if drop 5 argv = [''remove''] then h'\<lparr>kh_peers := kh_peers h' - {argv ! 4}\<rparr>
          else h'\<lparr>kh_peers := insert (argv ! 4) (kh_peers h')\<rparr>))"

definition kernel_env :: "identity_db \<Rightarrow> ProtoPeer list \<Rightarrow> kernel_host agent_env" where
  "kernel_env d ps = \<lparr>
     ae_rpcs = \<lparr>rpc_clock = kh_now, rpc_FromError = status_code, 
       rpc_RegisterNode = (\<lambda>q w. (Inr \<lparr>rnr_NodeId = ''me'', rnr_Token = ''tok'', rnr_ExpiresAt = 86400\<rparr>, w)),
       rpc_GetPublicKey = (\<lambda>q w. (idh_GetPublicKey NoFault Some q d, w)),
       rpc_GetConfig = (\<lambda>q w. (Inr \<lparr>gcr_NetworkCidr = ''10.8.0.0/24'', gcr_Mtu = 1420, gcr_DnsServers = [''8.8.8.8''],
          gcr_ConfigVersion = 1, gcr_UpToDate = False\<rparr>, w)),
       rpc_RequestIP = (\<lambda>q w. (Inr \<lparr>rir_IpAddress = ''10.8.0.2'', rir_SubnetMask = ''255.255.255.0'', rir_Gateway = ''10.8.0.1''\<rparr>, w)),
       rpc_ReleaseIP = (\<lambda>q w. (Inl (Plain ''down''), w)),
       rpc_RegisterPeer = (\<lambda>q w. (Inr \<lparr>rpr_Success = True, rpr_Message = ''peer registered''\<rparr>, w)),
       rpc_ListPeers = (\<lambda>md q w. (Inr \<lparr>lpr_Peers = ps\<rparr>, w)), rpc_Heartbeat = (\<lambda>q w. (Inl (Plain ''down''), w))\<rparr>,
     ae_os = \<lparr>os_goos = Linux, os_exec = wg_tool, os_open = (\<lambda>f w. (None, w)),
       os_write = (\<lambda>f t w. (None, w\<lparr>kh_conf := (kh_conf w)(f := t)\<rparr>)),
       os_rand = (\<lambda>n w. (Inr (replicate n 0), w))\<rparr>,
     ae_libp2p = (\<lambda>_. Inr \<lparr>host_ID = ''h'', host_Addrs = []\<rparr>), ae_peerInfo = (\<lambda>s. Inr s),
     ae_connect = (\<lambda>p w. (None, w)), ae_ping = (\<lambda>p w. (None, w)), ae_NewStream = (\<lambda>p w. (Inr 0, w)),
     ae_listen = (\<lambda>p w. (None, w)), ae_ScalarBaseMult = (\<lambda>k. k),
     ae_wait = (\<lambda>t w. (False, w\<lparr>kh_now := kh_now w + t\<rparr>)), ae_sleep = (\<lambda>t w. w\<lparr>kh_now := kh_now w + t\<rparr>),
     ae_order = (\<lambda>m. m), ae_loadState = (\<lambda>w. zero_cliState), ae_saveState = (\<lambda>s w. w)\<rparr>"

definition key_on_record :: "identity_db \<Rightarrow> string \<Rightarrow> string" where
  "key_on_record d n = (case find (\<lambda>r. n_ID r = n) (db_nodes d) of None \<Rightarrow> '''' | Some r \<Rightarrow> n_PublicKey r)"

lemma find_row: "find P xs = Some x \<Longrightarrow> x \<in> set xs \<and> P x"
  by (auto simp: find_Some_iff)

lemma key_on_record_inj: "db_ok d \<Longrightarrow> inj_on (key_on_record d) (n_ID ` set (db_nodes d))"
proof (rule inj_onI)
  fix n m
  assume ok: "db_ok d" and n: "n \<in> n_ID ` set (db_nodes d)" and m: "m \<in> n_ID ` set (db_nodes d)"
    and eq: "key_on_record d n = key_on_record d m"
  have row: "\<exists>r. r \<in> set (db_nodes d) \<and> n_ID r = k \<and> key_on_record d k = n_PublicKey r" if "k \<in> n_ID ` set (db_nodes d)" for k
  proof (cases "find (\<lambda>r. n_ID r = k) (db_nodes d)")
    case None
    with that show ?thesis by (auto simp: find_None_iff)
  next
    case (Some r)
    with find_row [OF Some] show ?thesis by (auto simp: key_on_record_def)
  qed
  from row [OF n] row [OF m] eq obtain r s where "r \<in> set (db_nodes d)" "n_ID r = n" "s \<in> set (db_nodes d)" "n_ID s = m"
    "n_PublicKey r = n_PublicKey s" by auto
  moreover have "inj_on n_PublicKey (set (db_nodes d))" using ok by (simp add: db_ok_def distinct_map)
  ultimately show "n = m" by (metis inj_onD)
qed

lemma key_on_record_answer:
  "idh_GetPublicKey NoFault Some \<lparr>gpq_NodeId = n\<rparr> d = Inr resp \<Longrightarrow>
   n \<in> n_ID ` set (db_nodes d) \<and> gpr_PublicKey resp = key_on_record d n"
  by (cases "find (\<lambda>r. n_ID r = n) (db_nodes d)")
    (auto simp: idh_GetPublicKey_def ids_GetPublicKey_def GetNodeByID_def run_query_def key_on_record_def
      split: if_splits dest!: find_row)

interpretation memory_kernel: wg_kernel "kernel_env (id_run J s xs empty_tables) ps" "''wg0''" kh_peers
    "n_ID ` set (db_nodes (id_run J s xs empty_tables))" "key_on_record (id_run J s xs empty_tables)" for J s xs ps
proof (unfold_locales, goal_cases)
  case (1 k ep ips w err out w')
  then show ?case by (auto simp: kernel_env_def wg_tool_def Let_def split: if_splits)
next
  case (2 k w err out w')
  then show ?case by (auto simp: kernel_env_def wg_tool_def Let_def split: if_splits)
next
  case (13 n w resp w')
  then show ?case by (simp add: kernel_env_def key_on_record_answer)
next
  case 14
  have "id_inv J s (id_run J s xs empty_tables)" by (rule id_run_inv) simp
  then show ?case by (intro key_on_record_inj) (simp add: id_inv_def)
qed (simp_all add: kernel_env_def)

lemmas demo_kernel = memory_kernel.wg_kernel_axioms
  [of demo_jwt demo_service "[IRegister (Identity.demo_env ''n'' ''t'' 5) ''k'' ''1'' '''' ''net'']", folded demo_id_run]

lemma demo_key_on_record: "n \<in> n_ID ` set (db_nodes demo_db) \<Longrightarrow> key_on_record demo_db n = ''k''"
  by (simp add: demo_db_def key_on_record_def)

interpretation memory_host: wg_host "kernel_env demo_db [demo_proto ''n'' False]" "''wg0''" kh_peers
    "n_ID ` set (db_nodes demo_db)" "key_on_record demo_db" kh_conf
  by (rule wg_host.intro [OF demo_kernel], unfold_locales)
    (auto simp: kernel_env_def wg_tool_def demo_key_on_record demo_proto_def)

lemma tickers_positive:
  "0 < ac_Heartbeat c \<Longrightarrow> ac_Heartbeat c < 2 ^ 33 \<Longrightarrow> heartbeat_ticker c = Returned (ac_Heartbeat c * time_Second)"
  "0 < ac_PeerSyncInterval c \<Longrightarrow> ac_PeerSyncInterval c < 2 ^ 33 \<Longrightarrow> sync_ticker c = Returned (ac_PeerSyncInterval c * time_Second)"
  by (simp_all add: heartbeat_ticker_def sync_ticker_def NewTicker_def time_Second_def int64_id)

section \<open>Properties\<close>


definition tunnel_agent :: Agent where
  "tunnel_agent = New_Agent demo_cfg \<lparr>wg_iface = ''wg0'', wg_configDir = '''', wg_dryRun = False\<rparr> Linux"

abbreviation idle_host :: kernel_host where
  "idle_host \<equiv> \<lparr>kh_now = 0, kh_peers = {}, kh_conf = (\<lambda>p. ''''), kh_faults = [True]\<rparr>"

abbreviation demo_host :: "kernel_host agent_env" where
  "demo_host \<equiv> kernel_env demo_db [demo_proto ''n'' False]"

definition calm :: "Client \<Rightarrow> bool" where
  "calm c \<longleftrightarrow> cb_state (cbIdentity c) = StateClosed \<and> cb_state (cbDiscovery c) = StateClosed \<and> cb_state (cbConfig c) = StateClosed"

lemma demo_calls:
  assumes "calm c"
  shows "\<exists>c'. c_Register (ae_rpcs demo_host) pk pid sec c w = (Inr (''me'', ''tok'', 86400), c', w) \<and> calm c'"
    "\<exists>cfg c'. c_GetNetworkConfig (ae_rpcs demo_host) tok c w = (Inr cfg, c', w) \<and> gcr_NetworkCidr cfg = ''10.8.0.0/24'' \<and> calm c'"
    "\<exists>x c'. c_RequestIP (ae_rpcs demo_host) tok n c w = (Inr x, c', w) \<and> calm c'"
    "\<exists>c'. c_RegisterPeer (ae_rpcs demo_host) tok ip port pid addrs ex c w = (None, c', w) \<and> calm c'"
    "\<exists>c'. c_DiscoverPeers (ae_rpcs demo_host) tok lim c w = (Inr [demo_proto ''n'' False], c', w) \<and> calm c'"
    "\<exists>c'. c_GetPeerPublicKey (ae_rpcs demo_host) ''n'' c w = (Inr ''k'', c', w) \<and> calm c'"
proof -
  note ok = guarded_closed_ok
  have c: "cb_state (cbIdentity c) = StateClosed" "cb_state (cbDiscovery c) = StateClosed" "cb_state (cbConfig c) = StateClosed"
    using assms by (simp_all add: calm_def)
  have key: "idh_GetPublicKey NoFault Some \<lparr>gpq_NodeId = ''n''\<rparr> demo_db = Inr \<lparr>gpr_PublicKey = ''k''\<rparr>"
    by (simp add: idh_GetPublicKey_def ids_GetPublicKey_def GetNodeByID_def run_query_def demo_db_def)
  show "\<exists>c'. c_Register (ae_rpcs demo_host) pk pid sec c w = (Inr (''me'', ''tok'', 86400), c', w) \<and> calm c'"
    using ok [OF c(1), of "rpc_RegisterNode (ae_rpcs demo_host) \<lparr>rnq_PublicKey = pk, rnq_Version = ''1.0.0'', rnq_PeerId = pid,
        rnq_NetworkSecret = sec\<rparr>" w _ "ae_rpcs demo_host"] c by (auto simp: c_Register_def kernel_env_def calm_def)
  show "\<exists>cfg c'. c_GetNetworkConfig (ae_rpcs demo_host) tok c w = (Inr cfg, c', w) \<and> gcr_NetworkCidr cfg = ''10.8.0.0/24'' \<and> calm c'"
    using ok [OF c(3), of "rpc_GetConfig (ae_rpcs demo_host) \<lparr>gcq_Token = tok, gcq_ConfigVersion = 0\<rparr>" w _ "ae_rpcs demo_host"] c
    by (auto simp: c_GetNetworkConfig_def kernel_env_def calm_def)
  show "\<exists>x c'. c_RequestIP (ae_rpcs demo_host) tok n c w = (Inr x, c', w) \<and> calm c'"
    using ok [OF c(3), of "rpc_RequestIP (ae_rpcs demo_host) \<lparr>riq_Token = tok, riq_NodeId = n\<rparr>" w _ "ae_rpcs demo_host"] c
    by (auto simp: c_RequestIP_def kernel_env_def calm_def)
  show "\<exists>c'. c_DiscoverPeers (ae_rpcs demo_host) tok lim c w = (Inr [demo_proto ''n'' False], c', w) \<and> calm c'"
    using ok [OF c(2), of "rpc_ListPeers (ae_rpcs demo_host) [(''authorization'', tok)] \<lparr>lpq_Region = '''', lpq_Limit = lim\<rparr>" w _
        "ae_rpcs demo_host"] c by (auto simp: c_DiscoverPeers_def kernel_env_def calm_def)
  show "\<exists>c'. c_GetPeerPublicKey (ae_rpcs demo_host) ''n'' c w = (Inr ''k'', c', w) \<and> calm c'"
    using ok [OF c(1), of "rpc_GetPublicKey (ae_rpcs demo_host) \<lparr>gpq_NodeId = ''n''\<rparr>" w _ "ae_rpcs demo_host"] c key
    by (auto simp: c_GetPeerPublicKey_def kernel_env_def calm_def)
  show "\<exists>c'. c_RegisterPeer (ae_rpcs demo_host) tok ip port pid addrs ex c w = (None, c', w) \<and> calm c'"
    using ok [OF c(2), of "rpc_RegisterPeer (ae_rpcs demo_host) \<lparr>rpq_Token = tok, rpq_IpAddress = ip, rpq_Port = port, rpq_Region = ''global'',
        rpq_Bandwidth = 1000000, rpq_PeerId = pid, rpq_P2PAddrs = addrs, rpq_IsExitNode = ex\<rparr>" w _ "ae_rpcs demo_host"] c
    by (auto simp: c_RegisterPeer_def kernel_env_def calm_def only_error_def)
qed

lemma demo_host_sel [simp]:
  "ae_libp2p demo_host s = Inr \<lparr>host_ID = ''h'', host_Addrs = []\<rparr>" "ae_peerInfo demo_host s = Inr s"
  "os_rand (ae_os demo_host) n w = (Inr (replicate n 0), w)" "ae_ScalarBaseMult demo_host ks = ks"
  "ae_loadState demo_host w = zero_cliState" "ae_saveState demo_host st w = w" "os_goos (ae_os demo_host) = Linux"
  by (simp_all add: kernel_env_def)

lemma demo_retry: "calm (a_client a) \<Longrightarrow>
  \<exists>c. retryRegister demo_host pk pid a w = (Inr (''me'', ''tok'', 86400), a\<lparr>a_client := c\<rparr>, w) \<and> calm c"
  using demo_calls(1) [of "a_client a" pk pid "ac_NetworkSecret (a_cfg a)" w]
  by (auto simp: retryRegister_def maxRetries_def eval_nat_numeral)

lemma demo_start_peers:
  assumes "calm (a_client a)" "a_nodeID a = ''me''" "\<not> ac_IsExitNode (a_cfg a)" "b_peers b = []"
  shows "\<exists>b' a' w'. start_peers demo_host (\<lambda>k g. []) cidr cfg m b a w = (Returned (Running cidr [[''q'']] b'), a', w')"
proof -
  obtain c1 where r: "c_RegisterPeer (ae_rpcs demo_host) (a_token a) (a_vpnIP a) (int32 (ac_WireGuardPort (a_cfg a))) (PeerID_p2p m)
      (Multiaddrs m) False (a_client a) w = (None, c1, w)" "calm c1" using demo_calls(4) [OF assms(1)] by blast
  obtain c2 where d: "c_DiscoverPeers (ae_rpcs demo_host) (a_token a) 10 c1 w = (Inr [demo_proto ''n'' False], c2, w)" "calm c2"
    using demo_calls(5) [OF r(2)] by blast
  obtain c3 where k: "c_GetPeerPublicKey (ae_rpcs demo_host) ''n'' c2 w = (Inr ''k'', c3, w)" using demo_calls(6) [OF d(2)] by blast
  have p: "pp_NodeId (demo_proto ''n'' False) = ''n''" "pp_P2PAddrs (demo_proto ''n'' False) = [''q'']" by (simp_all add: demo_proto_def)
  show ?thesis
    by (simp add: start_peers_def r(1) assms(2,3) Let_def getToken_def d(1) start_goroutines_def p run_goroutines_def k
        GetProxyPort_def assms(4) split: prod.split)
qed

lemma tunnel_start: "\<exists>b a w. Start demo_host (\<lambda>k g. []) tunnel_agent idle_host = (Returned (Running ''10.8.0.0/24'' [[''q'']] b), a, w)"
proof -
  have "slice_to 16 (b64_encode (clamp (replicate 32 0))) \<noteq> Panicked"
    by (simp add: slice_to_def length_b64_encode clamp_def Let_def)
  then obtain y where y: "slice_to 16 (b64_encode (clamp (replicate 32 0))) = Returned y"
    by (cases "slice_to 16 (b64_encode (clamp (replicate 32 0)))") auto
  let ?key = "b64_encode (clamp (replicate 32 0))"
  let ?b = "NewBridge ''h'' (ac_WireGuardPort demo_cfg) (ac_WireGuardPort demo_cfg + 100)"
  let ?a1 = "tunnel_agent\<lparr>a_p2p_mgr := Some \<lparr>host_ID = ''h'', host_Addrs = []\<rparr>, a_bridge := Some ?b, a_publicKey := ?key\<rparr>"
  have cfg: "a_cfg tunnel_agent = demo_cfg" "calm (a_client tunnel_agent)" "a_nodeID tunnel_agent = ''''"
    by (simp_all add: tunnel_agent_def New_Agent_def calm_def new_Client_def cb_New_def Let_def)
  obtain c where r: "retryRegister demo_host ?key ''h'' ?a1 idle_host = (Inr (''me'', ''tok'', 86400), ?a1\<lparr>a_client := c\<rparr>, idle_host)"
    "calm c" using demo_retry [of ?a1 ?key "''h''" idle_host] cfg(2) by auto
  obtain net c2 where n: "c_GetNetworkConfig (ae_rpcs demo_host) ''tok'' c idle_host = (Inr net, c2, idle_host)"
    "gcr_NetworkCidr net = ''10.8.0.0/24''" "calm c2" using demo_calls(2) [OF r(2)] by blast
  obtain ip sub gw c3 where i: "c_RequestIP (ae_rpcs demo_host) ''tok'' ''me'' c2 idle_host = (Inr (ip, sub, gw), c3, idle_host)" "calm c3"
    using demo_calls(3) [OF n(3), of "''tok''" "''me''" idle_host] by auto
  let ?a5 = "?a1\<lparr>a_nodeID := ''me'', a_token := ''tok'', a_expiresAt := 86400, a_client := c3, a_vpnIP := ip\<rparr>"
  have "calm (a_client ?a5)" "a_nodeID ?a5 = ''me''" "\<not> ac_IsExitNode (a_cfg ?a5)" "b_peers ?b = []"
    by (simp_all add: i(2) cfg(1) NewBridge_def demo_cfg_def ag_setDefaults_def)
  from demo_start_peers [OF this] obtain b a w where "start_peers demo_host (\<lambda>k g. []) ''10.8.0.0/24''
      (start_wgConfig demo_cfg ?key net ip sub) \<lparr>host_ID = ''h'', host_Addrs = []\<rparr> ?b ?a5 idle_host
      = (Returned (Running ''10.8.0.0/24'' [[''q'']] b), a, w)" by blast
  then show ?thesis
    using y r(1) n(1,2) i(1) cfg(1)
    by (simp add: Start_def p2p_New_def GenerateKeyPair_def Let_def PeerID_p2p_def setToken_def updateCLIState_def)
qed


end
