(* ===== verification/Programs.thy ===== *)
theory Programs
  imports Server Config_Service Discovery_Service Identity Agent_Tunnel
begin

text \<open>
  The main programs: the three servers (\<open>src/services/{identity,discovery,config}/cmd/server/main.go\<close>)
  and the agent (\<open>src/services/agent/cmd/agent/main.go\<close>), with the choice of credentials
  (\<open>src/pkg/tlsutil\<close>) and the connection to the identity service (\<open>NewClient\<close> of \<open>src/pkg/auth\<close>).
  A program either exits with a message or runs with what it has built;
  then come the cleanup turns, the signals, the metrics endpoints, the shutdown and, for the agent,
  its connections (\<open>New\<close> and \<open>Close\<close> of \<open>client.go\<close>) and the turns of its loops. The
  reflection service, log lines and closing the stores are left out.
\<close>

section \<open>Credentials\<close>

text \<open>\<open>TLS_Server\<close> holds a certificate, \<open>TLS_Client\<close> the pool of accepted roots. Reading key
  pairs and PEM files is the TLS library's.\<close>

datatype credentials = Insecure | TLS_Server string | TLS_Client string

definition ServerCredentials :: "(string \<Rightarrow> string \<Rightarrow> string result) \<Rightarrow> string \<Rightarrow> string \<Rightarrow> credentials result" where
  "ServerCredentials LoadX509KeyPair certFile keyFile =
     (case LoadX509KeyPair certFile keyFile of
        Inl err \<Rightarrow> Inl (Wrapped ''failed to load server cert'' err)
      | Inr cert \<Rightarrow> Inr (TLS_Server cert))"

definition ClientCredentials :: "(string \<Rightarrow> string result) \<Rightarrow> (string \<Rightarrow> string option) \<Rightarrow> string \<Rightarrow> credentials result" where
  "ClientCredentials ReadFile AppendCertsFromPEM caFile =
     (case ReadFile caFile of
        Inl err \<Rightarrow> Inl (Wrapped ''failed to read CA cert'' err)
      | Inr caCert \<Rightarrow>
          (case AppendCertsFromPEM caCert of
             None \<Rightarrow> Inl (Plain ''failed to parse CA cert'')
           | Some certPool \<Rightarrow> Inr (TLS_Client certPool)))"

section \<open>The surroundings of a program\<close>

text \<open>\<open>pe_dial\<close> is \<open>grpc.NewClient\<close> for the identity service, \<open>pe_db\<close> is \<open>sqlx.Connect\<close> and \<open>pe_ping\<close> the
  ping of the connection, the Redis argument below opens the other store, \<open>pe_listen\<close> is
  \<open>net.Listen\<close>.\<close>

record program_env =
  pe_ReadFile :: "string \<Rightarrow> string result"
  pe_exists :: "string \<Rightarrow> bool"
  pe_getenv :: "string \<Rightarrow> string"
  pe_LoadX509KeyPair :: "string \<Rightarrow> string \<Rightarrow> string result"
  pe_AppendCertsFromPEM :: "string \<Rightarrow> string option"
  pe_dial :: "string \<Rightarrow> credentials \<Rightarrow> identity_rpc result"
  pe_db :: "string \<Rightarrow> go_error option"
  pe_ping :: "string \<Rightarrow> go_error option"
  pe_listen :: "string \<Rightarrow> go_error option"

datatype 'p program = Exits string go_error | Runs 'p

record grpc_server =
  gs_creds :: credentials
  gs_addr :: string
  gs_limiter :: Limiter

definition getenv_or :: "program_env \<Rightarrow> string \<Rightarrow> string \<Rightarrow> string" where
  "getenv_or P k d = (if pe_getenv P k = '''' then d else pe_getenv P k)"

text \<open>\<open>auth.NewClient\<close>.\<close>

definition auth_NewClient :: "program_env \<Rightarrow> string \<Rightarrow> string \<Rightarrow> identity_rpc result" where
  "auth_NewClient P identityAddr caFile =
     (case (if caFile \<noteq> '''' then ClientCredentials (pe_ReadFile P) (pe_AppendCertsFromPEM P) caFile else Inr Insecure) of
        Inl err \<Rightarrow> Inl (Wrapped ''failed to load TLS creds'' err)
      | Inr creds \<Rightarrow>
          (case pe_dial P identityAddr creds of
             Inl err \<Rightarrow> Inl (Wrapped ''failed to connect to identity service'' err)
           | Inr identity \<Rightarrow> Inr identity))"

text \<open>The part that the three servers share: limiter, credentials, listener.\<close>

definition start_server :: "program_env \<Rightarrow> int \<Rightarrow> grpc_server program" where
  "start_server P GRPCPort =
     (let limiter = rl_New 100 time_Minute;
          certFile = getenv_or P ''TLS_CERT'' ''../../certs/server-cert.pem'';
          keyFile = getenv_or P ''TLS_KEY'' ''../../certs/server-key.pem'';
          addr = '':'' @ itoa GRPCPort in
      case (if pe_exists P certFile then ServerCredentials (pe_LoadX509KeyPair P) certFile keyFile else Inr Insecure) of
        Inl err \<Rightarrow> Exits ''Failed to load TLS'' err
      | Inr creds \<Rightarrow>
          (case pe_listen P addr of
             Some err \<Rightarrow> Exits (''Failed to listen on '' @ addr) err
           | None \<Rightarrow> Runs \<lparr>gs_creds = creds, gs_addr = addr, gs_limiter = limiter\<rparr>))"

text \<open>The client of the identity service in the config and the discovery server; a failure leaves
  them without authentication.\<close>

definition identity_client :: "program_env \<Rightarrow> identity_rpc option" where
  "identity_client P =
     (case auth_NewClient P (getenv_or P ''IDENTITY_ADDR'' ''localhost:8001'') '''' of
        Inl _ \<Rightarrow> None
      | Inr c \<Rightarrow> Some c)"

text \<open>The end of a server: \<open>GracefulStop\<close> waits for the calls in flight, of which the remaining times are
  given; after ten seconds those left are cut off. The result tells whether it was graceful, and
  which calls were answered.\<close>

definition stop_server :: "duration list \<Rightarrow> bool \<times> duration list" where
  "stop_server calls =
     (let timeout = 10 * time_Second in
      if \<forall>d \<in> set calls. d < timeout then (True, calls) else (False, filter (\<lambda>d. d < timeout) calls))"

section \<open>The metrics endpoints\<close>

text \<open>In the identity and the config server a metrics endpoint that cannot listen ends the program; the
  discovery server goes on with a warning.\<close>

definition identity_metrics :: "program_env \<Rightarrow> unit program" where
  "identity_metrics P =
     (case pe_listen P '':9090'' of Some err \<Rightarrow> Exits ''Failed to start metrics server'' err | None \<Rightarrow> Runs ())"

definition config_metrics :: "program_env \<Rightarrow> unit program" where
  "config_metrics P =
     (case pe_listen P '':9092'' of Some err \<Rightarrow> Exits ''Failed to start metrics server'' err | None \<Rightarrow> Runs ())"

definition discovery_metrics :: "program_env \<Rightarrow> go_error option" where
  "discovery_metrics P =
     (let metricsPort = (if pe_getenv P ''METRICS_PORT'' = '''' then ''9091'' else pe_getenv P ''METRICS_PORT'') in
      pe_listen P ('':'' @ metricsPort))"

section \<open>The identity server\<close>

text \<open>\<open>storage.New\<close>.\<close>

definition storage_New :: "program_env \<Rightarrow> string \<Rightarrow> go_error option" where
  "storage_New P databaseURL =
     (case pe_db P databaseURL of
        Some err \<Rightarrow> Some (Wrapped ''failed to connect to database'' err)
      | None \<Rightarrow>
          (case pe_ping P databaseURL of
             Some err \<Rightarrow> Some (Wrapped ''failed to ping database'' err)
           | None \<Rightarrow> None))"

definition identity_main ::
  "program_env \<Rightarrow> (string \<Rightarrow> ids_Config result) \<Rightarrow> (IdentityService \<times> grpc_server) program" where
  "identity_main P unmarshal =
     (case ids_LoadFromEnv (pe_ReadFile P ''../../configs/identity.dev.yaml'') unmarshal (pe_getenv P) of
        Inl err \<Rightarrow> Exits ''Failed to load config'' err
      | Inr cfg \<Rightarrow>
          (case storage_New P (ic_DatabaseURL cfg) of
             Some err \<Rightarrow> Exits ''Failed to connect to database'' err
           | None \<Rightarrow>
               (case start_server P (ic_GRPCPort cfg) of
                  Exits m err \<Rightarrow> Exits m err
                | Runs srv \<Rightarrow>
                    Runs (ids_New (ic_JWTSecret cfg) (ic_NetworkSecret cfg) (ic_TokenDuration cfg), srv))))"

text \<open>At the shutdown signal the expired tokens are deleted; a failure is only logged.\<close>

definition identity_shutdown :: "fault \<Rightarrow> instant \<Rightarrow> identity_db \<Rightarrow> identity_db" where
  "identity_shutdown f now d = snd (CleanupExpiredTokens f now d)"

section \<open>The discovery server\<close>

definition discovery_main ::
  "program_env \<Rightarrow> (string \<Rightarrow> dsc_Config result) \<Rightarrow> (string \<Rightarrow> 'r redis) \<Rightarrow> 'r
    \<Rightarrow> (dsc_Config \<times> DiscoveryHandler \<times> grpc_server) program \<times> 'r" where
  "discovery_main P unmarshal redis r =
     (case dsc_Load (pe_ReadFile P ''../../configs/discovery.dev.yaml'') unmarshal (pe_getenv P) of
        Inl err \<Rightarrow> (Exits ''Failed to load config'' err, r)
      | Inr cfg \<Rightarrow>
          (case reg_New (redis (ds_RedisURL cfg)) (ds_HeartbeatTTL cfg) r of
             (Inl err, r1) \<Rightarrow> (Exits ''Failed to connect to Redis'' err, r1)
           | (Inr reg, r1) \<Rightarrow>
               (case start_server P (ds_GRPCPort cfg) of
                  Exits m err \<Rightarrow> (Exits m err, r1)
                | Runs srv \<Rightarrow> (Runs (cfg, NewDiscoveryHandler reg (identity_client P), srv), r1))))"

text \<open>The cleanup goroutine: \<open>time.NewTicker\<close> panics unless the interval is positive. A turn logs
  what the cleanup returned.\<close>

definition cleanup_ticker :: "int \<Rightarrow> duration outcome" where
  "cleanup_ticker HeartbeatTTL =
     (let cleanupInterval = int64 (int64 (HeartbeatTTL * 2) * time_Second) in
      if cleanupInterval \<le> 0 then Panicked else Returned cleanupInterval)"

datatype cleanup_log = CleanupFailed go_error | CleanupRemoved int

definition cleanup_turn :: "'r redis \<Rightarrow> instant \<Rightarrow> 'r \<Rightarrow> cleanup_log option \<times> 'r" where
  "cleanup_turn R now r =
     (case CleanupStale R now r of
        (Inl err, r1) \<Rightarrow> (Some (CleanupFailed err), r1)
      | (Inr n, r1) \<Rightarrow> (if n > 0 then Some (CleanupRemoved n) else None, r1))"

section \<open>The config server\<close>

definition config_main ::
  "program_env \<Rightarrow> (string \<Rightarrow> cfg_Config result) \<Rightarrow> (string \<Rightarrow> 'r redis) \<Rightarrow> 'r
    \<Rightarrow> (ConfigHandler \<times> grpc_server) program \<times> 'r" where
  "config_main P unmarshal redis r =
     (case cfg_Load (pe_ReadFile P ''../../configs/config.dev.yaml'') unmarshal (pe_getenv P) of
        Inl err \<Rightarrow> (Exits ''Failed to load config'' err, r)
      | Inr cfg \<Rightarrow>
          (case alloc_New (redis (cf_RedisURL cfg)) (cf_NetworkCIDR cfg) r of
             (Inl err, r1) \<Rightarrow> (Exits ''Failed to initialize allocator'' err, r1)
           | (Inr alloc, r1) \<Rightarrow>
               (case start_server P (cf_GRPCPort cfg) of
                  Exits m err \<Rightarrow> (Exits m err, r1)
                | Runs srv \<Rightarrow>
                    (Runs (NewConfigHandler alloc (identity_client P) (cf_NetworkCIDR cfg) (cf_MTU cfg) (cf_DNSServers cfg), srv),
                     r1))))"

text \<open>The signals a config server gets, each with what the configuration file loads as at that
  time; any but SIGHUP ends the loop.\<close>

datatype signal = SIGINT | SIGTERM | SIGHUP

fun config_signals :: "(signal \<times> cfg_Config result) list \<Rightarrow> ConfigHandler \<Rightarrow> ConfigHandler \<times> bool" where
  "config_signals [] h = (h, False)"
| "config_signals ((sig, loaded) # sigs) h =
     (if sig = SIGHUP then config_signals sigs (cfg_on_SIGHUP loaded h) else (h, True))"

section \<open>The agent\<close>

text \<open>The client's three connections, or an error and the connections closed on the way.\<close>

definition client_New ::
  "(string \<Rightarrow> string result) \<Rightarrow> (string \<Rightarrow> string option) \<Rightarrow> (string \<Rightarrow> credentials \<Rightarrow> 'c result)
    \<Rightarrow> string \<Rightarrow> string \<Rightarrow> string \<Rightarrow> string \<Rightarrow> ('c \<times> 'c \<times> 'c) result \<times> 'c list" where
  "client_New ReadFile AppendCertsFromPEM dial identityAddr discoveryAddr configAddr caFile =
     (case (if caFile \<noteq> '''' then ClientCredentials ReadFile AppendCertsFromPEM caFile else Inr Insecure) of
        Inl err \<Rightarrow> (Inl (Wrapped ''failed to load TLS CA cert'' err), [])
      | Inr transportCreds \<Rightarrow>
          (case dial identityAddr transportCreds of
             Inl err \<Rightarrow> (Inl (Wrapped ''identity connection failed'' err), [])
           | Inr identityConn \<Rightarrow>
               (case dial discoveryAddr transportCreds of
                  Inl err \<Rightarrow> (Inl (Wrapped ''discovery connection failed'' err), [identityConn])
                | Inr discoveryConn \<Rightarrow>
                    (case dial configAddr transportCreds of
                       Inl err \<Rightarrow> (Inl (Wrapped ''config connection failed'' err), [identityConn, discoveryConn])
                     | Inr configConn \<Rightarrow> (Inr (identityConn, discoveryConn, configConn), [])))))"

definition client_Close :: "'c \<times> 'c \<times> 'c \<Rightarrow> 'c list" where
  "client_Close c = (case c of (identityConn, discoveryConn, configConn) \<Rightarrow> [identityConn, discoveryConn, configConn])"

text \<open>The connections opened for some addresses until the first failure.\<close>

fun dialled :: "(string \<Rightarrow> 'c result) \<Rightarrow> string list \<Rightarrow> 'c list" where
  "dialled dial [] = []"
| "dialled dial (a # as) = (case dial a of Inl _ \<Rightarrow> [] | Inr c \<Rightarrow> c # dialled dial as)"

lemma client_New_keeps_or_closes:
  assumes "client_New ReadFile pem dial ia da ca caFile = (res, closed)"
    and "(if caFile \<noteq> '''' then ClientCredentials ReadFile pem caFile else Inr Insecure) = Inr creds"
  shows "dialled (\<lambda>a. dial a creds) [ia, da, ca] = (case res of Inl err \<Rightarrow> closed | Inr c \<Rightarrow> client_Close c)
    \<and> (\<forall>c. res = Inr c \<longrightarrow> closed = [])"
  using assms(1) unfolding client_New_def assms(2) by (auto simp: client_Close_def split: sum.splits)

text \<open>The program takes no notice of its arguments. Once \<open>Start\<close> has ended without an error the loops
  run, \<open>turns\<close> being their turns until the signal; then \<open>Stop\<close>. A panic in a goroutine ends the
  program. A failing \<open>Start\<close> ends it without \<open>Stop\<close>.\<close>

definition own_peerID :: "Agent \<Rightarrow> string" where
  "own_peerID a = (case a_p2p_mgr a of None \<Rightarrow> '''' | Some m \<Rightarrow> PeerID_p2p m)"

definition run_loops ::
  "'w agent_env \<Rightarrow> ag_Config \<Rightarrow> string \<Rightarrow> turn list \<Rightarrow> Bridge \<Rightarrow> Agent \<Rightarrow> 'w \<Rightarrow> Agent outcome \<times> 'w" where
  "run_loops E cfg networkCIDR turns b a w =
     (case heartbeat_ticker cfg of
        Panicked \<Rightarrow> (Panicked, w)
      | Returned _ \<Rightarrow>
          (case sync_ticker cfg of
             Panicked \<Rightarrow> (Panicked, w)
           | Returned _ \<Rightarrow>
               (case loops_run E networkCIDR (own_peerID a) turns (loops_start b a) w of
                  (Panicked, w1) \<Rightarrow> (Panicked, w1)
                | (Returned s, w1) \<Rightarrow> (Returned ((lp_agent s)\<lparr>a_bridge := Some (lp_bridge s)\<rparr>), w1))))"

definition agent_main ::
  "(string \<Rightarrow> string result) \<Rightarrow> (string \<Rightarrow> ag_Config result) \<Rightarrow> (string \<Rightarrow> string) \<Rightarrow> (string \<Rightarrow> string option)
    \<Rightarrow> (string \<Rightarrow> credentials \<Rightarrow> 'c result) \<Rightarrow> (bool \<Rightarrow> 'w \<Rightarrow> wg_Manager \<times> 'w) \<Rightarrow> 'w agent_env
    \<Rightarrow> (nat \<Rightarrow> string list list \<Rightarrow> string list list) \<Rightarrow> turn list \<Rightarrow> string list \<Rightarrow> 'w \<Rightarrow> Agent program outcome \<times> 'w" where
  "agent_main ReadFile unmarshal getenv AppendCertsFromPEM dial newManager E sched turns args w =
     (case ag_Load (ReadFile ''../../configs/agent.dev.yaml'') unmarshal getenv of
        Inl err \<Rightarrow> (Returned (Exits ''Failed to load config'' err), w)
      | Inr cfg \<Rightarrow>
          (case fst (client_New ReadFile AppendCertsFromPEM dial (ac_IdentityAddr cfg) (ac_DiscoveryAddr cfg) (ac_ConfigAddr cfg)
                       (ac_TLSCACert cfg)) of
             Inl err \<Rightarrow> (Returned (Exits ''Failed to create agent'' err), w)
           | Inr _ \<Rightarrow>
               (case newManager (ac_DryRun cfg = Some True) w of
                  (wgMgr, w1) \<Rightarrow>
                    (case Start E sched (New_Agent cfg wgMgr (os_goos (ae_os E))) w1 of
                       (Panicked, a, w2) \<Rightarrow> (Panicked, w2)
                     | (Returned (StartFailed err), a, w2) \<Rightarrow> (Returned (Exits ''Agent start failed'' err), w2)
                     | (Returned (Running networkCIDR pending b), a, w2) \<Rightarrow>
                         (case run_loops E cfg networkCIDR turns b a w2 of
                            (Panicked, w3) \<Rightarrow> (Panicked, w3)
                          | (Returned a1, w3) \<Rightarrow> (case Stop E a1 w3 of (a2, w4) \<Rightarrow> (Returned (Runs a2), w4)))))))"

end
