(* ===== verification/CLI_State.thy ===== *)
theory CLI_State
  imports Agent Json
begin

text \<open>
  What the commands of the CLI share: the state file (\<open>src/cli/internal/state\<close>), the configuration
  file (\<open>src/cli/internal/cliconfig\<close>) and the outgoing token and timeout of a call
  (\<open>src/cli/internal/grpcclient\<close>). The state file is the one the agent updates; both programs
  declare the same structure, \<^typ>\<open>cliState\<close>. The file system and the processes are parameters. A
  file holds a state or something that does not parse: the text of the file is left out.
\<close>

section \<open>The host\<close>

datatype state_file = NoFile | Unreadable go_error | Unparsable go_error | StateFile cliState

datatype file_read = FileMissing | FileError go_error | FileText string

datatype remove_error = NotExist | RemoveFailed go_error

text \<open>\<open>cl_processExists\<close> is the answer to signal 0 (on Windows: that the process can be opened);
  \<open>cl_interrupt\<close> sends SIGTERM (on Windows: an interrupt), \<open>cl_kill\<close> kills; \<open>cl_start\<close> starts a
  command with its output going to a file, in a session of its own.\<close>

record 'w cli_env =
  cl_goos :: goos
  cl_TempDir :: string
  cl_home :: string
  cl_now :: "'w \<Rightarrow> instant"
  cl_sleep :: "duration \<Rightarrow> 'w \<Rightarrow> 'w"
  cl_ReadState :: "'w \<Rightarrow> state_file"
  cl_WriteState :: "cliState \<Rightarrow> 'w \<Rightarrow> go_error option \<times> 'w"
  cl_RemoveState :: "'w \<Rightarrow> remove_error option \<times> 'w"
  cl_MkdirAll :: "string \<Rightarrow> 'w \<Rightarrow> go_error option \<times> 'w"
  cl_ReadFile :: "string \<Rightarrow> 'w \<Rightarrow> file_read"
  cl_OpenLog :: "string \<Rightarrow> 'w \<Rightarrow> go_error option \<times> 'w"
  cl_FindProcess :: "int \<Rightarrow> 'w \<Rightarrow> go_error option"
  cl_processExists :: "int \<Rightarrow> 'w \<Rightarrow> bool"
  cl_interrupt :: "int \<Rightarrow> 'w \<Rightarrow> go_error option \<times> 'w"
  cl_kill :: "int \<Rightarrow> 'w \<Rightarrow> go_error option \<times> 'w"
  cl_start :: "string list \<Rightarrow> string \<Rightarrow> 'w \<Rightarrow> int result \<times> 'w"
  cl_LookPath :: "string \<Rightarrow> 'w \<Rightarrow> string result"
  cl_Executable :: "string result"
  cl_Stat :: "string \<Rightarrow> 'w \<Rightarrow> bool"
  cl_Abs :: "string \<Rightarrow> string"

section \<open>The state file\<close>

definition state_Path :: "'w cli_env \<Rightarrow> string" where
  "state_Path E = path_join (cl_goos E) (path_join (cl_goos E) (cl_TempDir E) ''gordion'') ''state.json''"

definition DefaultLogPath :: "'w cli_env \<Rightarrow> string" where
  "DefaultLogPath E = path_join (cl_goos E) (path_join (cl_goos E) (cl_TempDir E) ''gordion'') ''agent.log''"

definition state_Write :: "'w cli_env \<Rightarrow> cliState \<Rightarrow> 'w \<Rightarrow> go_error option \<times> 'w" where
  "state_Write E s w =
     (case cl_MkdirAll E (path_join (cl_goos E) (cl_TempDir E) ''gordion'') w of
        (Some err, w1) \<Rightarrow> (Some (Wrapped ''create state dir'' err), w1)
      | (None, w1) \<Rightarrow> cl_WriteState E s w1)"

definition state_Read :: "'w cli_env \<Rightarrow> 'w \<Rightarrow> cliState option result" where
  "state_Read E w =
     (case cl_ReadState E w of
        NoFile \<Rightarrow> Inr None
      | Unreadable err \<Rightarrow> Inl err
      | Unparsable err \<Rightarrow> Inl (Wrapped ''parse state file'' err)
      | StateFile s \<Rightarrow> Inr (Some s))"

definition state_Delete :: "'w cli_env \<Rightarrow> 'w \<Rightarrow> go_error option \<times> 'w" where
  "state_Delete E w =
     (case cl_RemoveState E w of
        (None, w1) \<Rightarrow> (None, w1)
      | (Some NotExist, w1) \<Rightarrow> (None, w1)
      | (Some (RemoveFailed err), w1) \<Rightarrow> (Some err, w1))"

definition IsRunning :: "'w cli_env \<Rightarrow> cliState option \<Rightarrow> 'w \<Rightarrow> bool" where
  "IsRunning E s w =
     (case s of
        None \<Rightarrow> False
      | Some s \<Rightarrow>
          if cs_PID s = 0 then False
          else case cl_FindProcess E (cs_PID s) w of
            Some _ \<Rightarrow> False
          | None \<Rightarrow> cl_processExists E (cs_PID s) w)"

section \<open>The configuration file\<close>

record cli_Config =
  cg_IdentityAddr :: string
  cg_DiscoveryAddr :: string
  cg_ConfigAddr :: string
  cg_NetworkSecret :: string
  cg_TLSCACert :: string
  cg_LogLevel :: string
  cg_DryRun :: "bool option"
  cg_WireGuardPort :: int
  cg_P2PPort :: int
  cg_IsExitNode :: bool
  cg_UseExitNode :: bool
  cg_ExitNodeID :: string
  cg_ExitNodeDNS :: string

definition DefaultPaths :: "'w cli_env \<Rightarrow> string list" where
  "DefaultPaths E =
     [''configs/agent.dev.yaml'', ''../configs/agent.dev.yaml'',
      path_join (cl_goos E) (path_join (cl_goos E) (cl_home E) ''.gordion'') ''config.yaml'',
      ''/etc/gordion/config.yaml'']"

definition cli_applyDefaults :: "cli_Config \<Rightarrow> cli_Config" where
  "cli_applyDefaults c = c\<lparr>
     cg_IdentityAddr := (if cg_IdentityAddr c = '''' then ''localhost:8001'' else cg_IdentityAddr c),
     cg_DiscoveryAddr := (if cg_DiscoveryAddr c = '''' then ''localhost:8002'' else cg_DiscoveryAddr c),
     cg_ConfigAddr := (if cg_ConfigAddr c = '''' then ''localhost:8003'' else cg_ConfigAddr c),
     cg_WireGuardPort := (if cg_WireGuardPort c = 0 then 51820 else cg_WireGuardPort c),
     cg_P2PPort := (if cg_P2PPort c = 0 then 4001 else cg_P2PPort c),
     cg_ExitNodeDNS := (if cg_ExitNodeDNS c = '''' then ''1.1.1.1, 1.0.0.1'' else cg_ExitNodeDNS c)\<rparr>"

text \<open>The loop over the candidates; the first that exists decides. The YAML decoder is an argument.\<close>

fun cli_load_loop :: "(string \<Rightarrow> file_read) \<Rightarrow> (string \<Rightarrow> cli_Config result) \<Rightarrow> string list \<Rightarrow> cli_Config result" where
  "cli_load_loop read unmarshal [] = Inl (Plain ''no config file found'')"
| "cli_load_loop read unmarshal (path # paths) =
     (if path = '''' then cli_load_loop read unmarshal paths
      else case read path of
        FileMissing \<Rightarrow> cli_load_loop read unmarshal paths
      | FileError err \<Rightarrow> Inl (Wrapped (''read config '' @ path) err)
      | FileText data \<Rightarrow>
          (case unmarshal data of
             Inl err \<Rightarrow> Inl (Wrapped (''parse config '' @ path) err)
           | Inr cfg \<Rightarrow> Inr (cli_applyDefaults cfg)))"

definition cli_Load :: "'w cli_env \<Rightarrow> (string \<Rightarrow> cli_Config result) \<Rightarrow> string \<Rightarrow> 'w \<Rightarrow> cli_Config result" where
  "cli_Load E unmarshal cfgFile w =
     cli_load_loop (\<lambda>path. cl_ReadFile E path w) unmarshal (if cfgFile = '''' then DefaultPaths E else [cfgFile])"

section \<open>Calls\<close>

text \<open>The token as outgoing metadata, and the timeout.\<close>

definition ContextWithToken :: "string \<Rightarrow> (string \<times> string) list" where
  "ContextWithToken token = (if token = '''' then [] else [(''authorization'', token)])"

definition WithTimeout :: "duration \<Rightarrow> duration" where
  "WithTimeout timeout = (if timeout = 0 then 5 * time_Second else timeout)"

section \<open>Lemmas\<close>

lemma IsRunning_None [simp]: "\<not> IsRunning E None w"
  by (simp add: IsRunning_def)

lemma cli_load_loop_skips:
  "\<forall>p \<in> set paths. p = '''' \<or> read p = FileMissing \<Longrightarrow>
   cli_load_loop read unmarshal (paths @ rest) = cli_load_loop read unmarshal rest"
  by (induction paths) auto

end
