(* ===== verification/CLI_Display.thy ===== *)
theory CLI_Display
  imports CLI_State
begin

text \<open>
  What the CLI prints (\<open>src/cli/cmd\<close>): the peers (\<open>peers.go\<close>, \<open>exitnode.go\<close>), the status
  (\<open>status.go\<close>), the log (\<open>logs.go\<close>), the version and the configuration that \<open>init\<close> writes. Colours
  are kept as the values the code chooses; styles, column widths and headings are left out.
\<close>

section \<open>Peers\<close>

text \<open>The ellipsis takes three bytes; the string is cut at bytes.\<close>

definition ellipsis :: string where
  "ellipsis = [CHR 0xE2, CHR 0x80, CHR 0xA6]"

definition truncate_cell :: "string \<Rightarrow> nat \<Rightarrow> string" where
  "truncate_cell s n = (if length s \<le> n then s else take (n - 1) s @ ellipsis)"

datatype dot = GreenDot | AmberDot | GrayRing

definition onlineDot :: "int \<Rightarrow> int \<Rightarrow> dot" where
  "onlineDot lastSeen now =
     (let age = int64 (now - lastSeen) in
      if age < 60 then GreenDot else if age < 300 then AmberDot else GrayRing)"

definition formatLastSeen :: "int \<Rightarrow> int \<Rightarrow> string" where
  "formatLastSeen lastSeen now =
     (let age = int64 (now - lastSeen) in
      if age < 5 then ''just now''
      else if age < 60 then itoa age @ ''s ago''
      else if age < 3600 then itoa (age div 60) @ ''m ago''
      else itoa (age div 3600) @ ''h ago'')"

record PeerJSON =
  pj_NodeID :: string
  pj_IPAddress :: string
  pj_Region :: string
  pj_LastSeen :: int
  pj_IsExitNode :: bool
  pj_Online :: bool

definition peer_row_json :: "PeerJSON \<Rightarrow> json" where
  "peer_row_json p = JObj
     [(''node_id'', JStr (pj_NodeID p)), (''ip_address'', JStr (pj_IPAddress p)), (''region'', JStr (pj_Region p)),
      (''last_seen'', JNum (itoa (pj_LastSeen p))), (''is_exit_node'', JBool (pj_IsExitNode p)),
      (''online'', JBool (pj_Online p))]"

definition printPeersJSON :: "instant \<Rightarrow> ProtoPeer list \<Rightarrow> PeerJSON list" where
  "printPeersJSON now peers =
     map (\<lambda>p. \<lparr>pj_NodeID = pp_NodeId p, pj_IPAddress = pp_IpAddress p, pj_Region = pp_Region p,
                pj_LastSeen = pp_LastSeen p, pj_IsExitNode = pp_IsExitNode p,
                pj_Online = (int64 (unix now - pp_LastSeen p) < 60)\<rparr>) peers"

text \<open>A printed row: dot, node, address, region, age, and whether it is marked.\<close>

type_synonym peer_row = "dot \<times> string \<times> string \<times> string \<times> string \<times> bool"

definition printPeers :: "instant \<Rightarrow> ProtoPeer list \<Rightarrow> peer_row list" where
  "printPeers now peers =
     map (\<lambda>p. (onlineDot (pp_LastSeen p) (unix now), truncate_cell (pp_NodeId p) 20, truncate_cell (pp_IpAddress p) 14,
                truncate_cell (pp_Region p) 10, formatLastSeen (pp_LastSeen p) (unix now), pp_IsExitNode p)) peers"

text \<open>The exit nodes; the mark is on the active one, or on all of them in automatic mode.\<close>

definition printExitNodes :: "instant \<Rightarrow> cliState option \<Rightarrow> ProtoPeer list \<Rightarrow> peer_row list" where
  "printExitNodes now s exits =
     (let activeID = (case s of Some s \<Rightarrow> if cs_UseExitNode s then cs_ExitNodeID s else '''' | None \<Rightarrow> '''') in
      map (\<lambda>p. (onlineDot (pp_LastSeen p) (unix now), truncate_cell (pp_NodeId p) 22, truncate_cell (pp_IpAddress p) 14,
                 '''', formatLastSeen (pp_LastSeen p) (unix now),
                 case s of None \<Rightarrow> False
                 | Some s \<Rightarrow> cs_UseExitNode s \<and> (activeID = '''' \<or> activeID = pp_NodeId p))) exits)"

section \<open>Status\<close>

record StatusOutput =
  so_Connected :: bool
  so_PID :: int
  so_VPNAddr :: string
  so_UptimeSec :: int
  so_IsExitNode :: bool
  so_UseExitNode :: bool
  so_ExitNodeID :: string
  so_LogFile :: string
  so_ConfigFile :: string

text \<open>Go's integer division truncates; whole seconds of a duration (which the code takes by way of
  a floating-point number).\<close>

definition whole_seconds :: "duration \<Rightarrow> int" where
  "whole_seconds d = quot d time_Second"

definition printStatusJSON :: "instant \<Rightarrow> cliState option \<Rightarrow> bool \<Rightarrow> StatusOutput" where
  "printStatusJSON now s running =
     (let out = \<lparr>so_Connected = running, so_PID = 0, so_VPNAddr = '''', so_UptimeSec = 0, so_IsExitNode = False,
                 so_UseExitNode = False, so_ExitNodeID = '''', so_LogFile = '''', so_ConfigFile = ''''\<rparr> in
      case s of
        Some s \<Rightarrow>
          if running then
            out\<lparr>so_PID := cs_PID s, so_VPNAddr := cs_VPNAddr s, so_UptimeSec := whole_seconds (now - cs_StartedAt s),
                so_IsExitNode := cs_IsExitNode s, so_UseExitNode := cs_UseExitNode s, so_ExitNodeID := cs_ExitNodeID s,
                so_LogFile := cs_LogFile s, so_ConfigFile := cs_ConfigFile s\<rparr>
          else out
      | None \<Rightarrow> out)"

text \<open>The fields marked \<open>omitempty\<close> are left out when empty.\<close>

definition StatusOutput_json :: "StatusOutput \<Rightarrow> json" where
  "StatusOutput_json out = JObj (
     [(''connected'', JBool (so_Connected out))]
     @ (if so_PID out = 0 then [] else [(''pid'', JNum (itoa (so_PID out)))])
     @ (if so_VPNAddr out = '''' then [] else [(''vpn_addr'', JStr (so_VPNAddr out))])
     @ (if so_UptimeSec out = 0 then [] else [(''uptime_sec'', JNum (itoa (so_UptimeSec out)))])
     @ [(''is_exit_node'', JBool (so_IsExitNode out)), (''use_exit_node'', JBool (so_UseExitNode out))]
     @ (if so_ExitNodeID out = '''' then [] else [(''exit_node_id'', JStr (so_ExitNodeID out))])
     @ (if so_LogFile out = '''' then [] else [(''log_file'', JStr (so_LogFile out))])
     @ (if so_ConfigFile out = '''' then [] else [(''config_file'', JStr (so_ConfigFile out))]))"

text \<open>A duration rounded to seconds, halves away from zero.\<close>

definition round_seconds :: "duration \<Rightarrow> int" where
  "round_seconds d = quot (if d < 0 then d - 500000000 else d + 500000000) time_Second"

definition formatDuration :: "int \<Rightarrow> string" where
  "formatDuration secs =
     (let h = quot secs 3600; m = rem (quot secs 60) 60; s = rem secs 60 in
      if h > 0 then itoa h @ ''h '' @ itoa m @ ''m '' @ itoa s @ ''s''
      else if m > 0 then itoa m @ ''m '' @ itoa s @ ''s''
      else itoa s @ ''s'')"

definition orDash :: "string \<Rightarrow> string" where
  "orDash s = (if TrimSpace s = '''' then [CHR 0xE2, CHR 0x80, CHR 0x94] else s)"

definition printConnected :: "instant \<Rightarrow> cliState \<Rightarrow> (string \<times> string) list" where
  "printConnected now s =
     [(''VPN Address'', orDash (cs_VPNAddr s)), (''Uptime'', formatDuration (round_seconds (now - cs_StartedAt s))),
      (''PID'', itoa (cs_PID s))]
     @ (if cs_IsExitNode s then [(''Role'', ''Exit Node (routing internet traffic)'')]
        else if cs_UseExitNode s then [(''Exit Node'', if cs_ExitNodeID s = '''' then ''auto'' else cs_ExitNodeID s)]
        else [(''Mode'', ''Mesh VPN (no exit node)'')])
     @ (if cs_ConfigFile s \<noteq> '''' then [(''Config'', cs_ConfigFile s)] else [])
     @ (if cs_LogFile s \<noteq> '''' then [(''Logs'', cs_LogFile s)] else [])"

section \<open>Log\<close>

text \<open>The lines and the error of the scanner are arguments.\<close>

definition printLast :: "string list \<Rightarrow> go_error option \<Rightarrow> int \<Rightarrow> string list result outcome" where
  "printLast lines scan_error n =
     (case scan_error of
        Some err \<Rightarrow> Returned (Inl err)
      | None \<Rightarrow>
          if lines = [] then Returned (Inr [''  (log file is empty)''])
          else
            (let start = int (length lines) - n; start = (if start < 0 then 0 else start) in
             if start > int (length lines) then Panicked
             else Returned (Inr (drop (nat start) lines))))"

definition containsAny :: "string \<Rightarrow> string list \<Rightarrow> bool" where
  "containsAny s keywords =
     list_ex (\<lambda>k. length s \<ge> length k
       \<and> list_ex (\<lambda>i. take (length k) (drop i s) = k) [0..<Suc (length s - length k)]) keywords"

datatype log_colour = RedLine | AmberLine | BlueLine | GrayLine | PlainLine

definition formatLogLine :: "string \<Rightarrow> log_colour \<times> string" where
  "formatLogLine line =
     (if containsAny line [''ERROR'', ''error'', ''ERR''] then RedLine
      else if containsAny line [''WARN'', ''warn'', ''WRN''] then AmberLine
      else if containsAny line [''INFO'', ''info'', ''INF''] then BlueLine
      else if containsAny line [''DEBUG'', ''debug'', ''DBG''] then GrayLine
      else PlainLine, ''  '' @ line)"

text \<open>\<open>tailFollow\<close>: \<open>chunks\<close> are the texts that are added to the file between two reads that come to its
  end. Such a read returns what there is of an unfinished line together with \<open>io.EOF\<close>, and the loop
  drops it.\<close>

definition follow_chunk :: "string \<Rightarrow> (log_colour \<times> string) list" where
  "follow_chunk chunk = map (\<lambda>l. formatLogLine (l @ [CHR 0x0A])) (butlast (split_on (CHR 0x0A) chunk))"

definition tailFollow :: "string list \<Rightarrow> (log_colour \<times> string) list" where
  "tailFollow chunks = concat (map follow_chunk chunks)"

lemma split_on_lines:
  "\<forall>l \<in> set ls. CHR 0x0A \<notin> set l \<Longrightarrow> CHR 0x0A \<notin> set r \<Longrightarrow>
   split_on (CHR 0x0A) (concat (map (\<lambda>l. l @ [CHR 0x0A]) ls) @ r) = ls @ [r]"
  by (induction ls) (simp_all add: split_on_plain split_on_append)

text \<open>A chunk of whole lines is shown line by line; what follows its last line end is not shown.\<close>

lemma follow_chunk_lines:
  assumes "\<forall>l \<in> set ls. CHR 0x0A \<notin> set l" and "CHR 0x0A \<notin> set r"
  shows "follow_chunk (concat (map (\<lambda>l. l @ [CHR 0x0A]) ls) @ r) = map (\<lambda>l. formatLogLine (l @ [CHR 0x0A])) ls"
  unfolding follow_chunk_def split_on_lines [OF assms] by simp

lemma tailFollow_split_line:
  assumes "CHR 0x0A \<notin> set a" "CHR 0x0A \<notin> set b"
  shows "tailFollow [a @ b @ [CHR 0x0A]] = [formatLogLine (a @ b @ [CHR 0x0A])]
    \<and> tailFollow [a, b @ [CHR 0x0A]] = [formatLogLine (b @ [CHR 0x0A])]"
  using follow_chunk_lines [of "[a @ b]" "[]"] follow_chunk_lines [of "[]" a] follow_chunk_lines [of "[b]" "[]"] assms
  by (simp add: tailFollow_def)

section \<open>The generated configuration\<close>

definition quoted_line :: "string \<Rightarrow> string \<Rightarrow> string" where
  "quoted_line k v = k @ [CHR 0x22] @ v @ [CHR 0x22]"

text \<open>The comment lines and the settings; the first argument is the path that the caller passes for
  the private key.\<close>

definition buildDefaultConfig_lines :: "string \<Rightarrow> string \<Rightarrow> string \<Rightarrow> string list" where
  "buildDefaultConfig_lines privKeyPath pubKey secret =
     [''# Gordion VPN '' @ [CHR 0xE2, CHR 0x80, CHR 0x94] @ '' Agent Configuration'',
      ''# Generated by `gordion init`'', ''# '',
      ''# '' @ [CHR 0xE2, CHR 0x9A, CHR 0xA0] @ '' private_key_file contains your WireGuard private key.'',
      ''#   Do NOT commit it to version control.'', '''',
      ''# Control plane addresses (change to your server IPs/hostnames)'',
      quoted_line ''identity_addr:  '' ''localhost:8001'',
      quoted_line ''discovery_addr: '' ''localhost:8002'',
      quoted_line ''config_addr:    '' ''localhost:8003'', '''',
      ''# Network authorization password (matching Identity service NETWORK_SECRET)'',
      quoted_line ''network_secret: '' secret, '''',
      quoted_line ''log_level: '' ''info'', ''heartbeat_interval: 25'', '''',
      ''# WireGuard'', ''wireguard_port: 51820'',
      quoted_line ''private_key_file: '' privKeyPath,
      quoted_line ''# public_key: '' pubKey,
      ''dry_run: true   # set false for a real tunnel (requires WireGuard installed)'', '''',
      ''# libp2p'', ''p2p_port: 4001'', '''',
      ''# TLS (leave empty for insecure local dev)'',
      quoted_line ''# tls_ca_cert: '' ''certs/ca-cert.pem'', '''',
      ''# Exit Node'', ''is_exit_node:  false'', ''use_exit_node: false'',
      quoted_line ''exit_node_id:  '' '''', quoted_line ''exit_node_dns: '' ''1.1.1.1, 1.0.0.1'']"

definition buildDefaultConfig :: "string \<Rightarrow> string \<Rightarrow> string \<Rightarrow> string" where
  "buildDefaultConfig privKeyPath pubKey secret = Join nl (buildDefaultConfig_lines privKeyPath pubKey secret) @ nl"

section \<open>Lemmas\<close>

lemma containsAny_iff: "containsAny s ks \<longleftrightarrow> (\<exists>k \<in> set ks. Contains s k)"
proof -
  have "(length s \<ge> length k \<and> list_ex (\<lambda>i. take (length k) (drop i s) = k) [0..<Suc (length s - length k)])
      \<longleftrightarrow> (\<exists>a b. s = a @ k @ b)" for k
  proof
    assume "length s \<ge> length k \<and> list_ex (\<lambda>i. take (length k) (drop i s) = k) [0..<Suc (length s - length k)]"
    then have "\<exists>i. take (length k) (drop i s) = k" unfolding list_ex_iff by blast
    then obtain i where "take (length k) (drop i s) = k" by blast
    then have "s = take i s @ k @ drop (length k) (drop i s)"
      by (metis append_take_drop_id)
    then show "\<exists>a b. s = a @ k @ b" by blast
  next
    assume "\<exists>a b. s = a @ k @ b"
    then obtain a b where "s = a @ k @ b" by blast
    then show "length s \<ge> length k \<and> list_ex (\<lambda>i. take (length k) (drop i s) = k) [0..<Suc (length s - length k)]"
      by (auto simp: list_ex_iff intro!: bexI [of _ "length a"])
  qed
  then show ?thesis by (simp add: containsAny_def list_ex_iff Contains_iff)
qed

lemma length_truncate_cell: "0 < n \<Longrightarrow> length (truncate_cell s n) \<le> n + 2"
  by (simp add: truncate_cell_def ellipsis_def)

lemma printLast_lines:
  assumes "0 \<le> n" and "lines \<noteq> []"
  shows "printLast lines None n = Returned (Inr (drop (length lines - nat n) lines))"
  using assms by (auto simp: printLast_def Let_def nat_diff_distrib' intro: arg_cong2 [where f = drop])

lemma printLast_negative:
  assumes "n < 0" and "lines \<noteq> []"
  shows "printLast lines None n = Panicked"
  using assms by (simp add: printLast_def)

lemma formatDuration_parts:
  assumes "0 \<le> secs"
  shows "secs = 3600 * quot secs 3600 + 60 * rem (quot secs 60) 60 + rem secs 60"
proof -
  have "secs div 3600 = secs div 60 div 60" by (simp add: div_mult2_eq [symmetric] zdiv_zmult2_eq [symmetric])
  moreover have "secs = 60 * (secs div 60) + secs mod 60" by simp
  moreover have "secs div 60 = 60 * (secs div 60 div 60) + secs div 60 mod 60" by simp
  ultimately have "secs = 3600 * (secs div 3600) + 60 * (secs div 60 mod 60) + secs mod 60" by linarith
  with assms show ?thesis by (simp add: quot_nonneg rem_nonneg pos_imp_zdiv_nonneg_iff)
qed

end
