(* ===== verification/CLI_Control.thy ===== *)
theory CLI_Control
  imports CLI_Display
begin

text \<open>
  The commands of the CLI that control the agent (\<open>src/cli/cmd\<close>): \<open>up\<close>, \<open>down\<close>, \<open>restart\<close>,
  \<open>status\<close>, and the two that change the exit node, \<open>exit-node set\<close> and \<open>exit-node off\<close>. A command
  returns its error, what it prints and the world it leaves. \<open>down\<close> waits in a loop; its result is
  an option, \<open>None\<close> when it never returns.
\<close>

section \<open>Output\<close>

datatype cli_out = OutOK string | OutWarn string | OutText string | OutJSON json
  | OutTable "(string \<times> string) list" | OutRows "peer_row list"

type_synonym 'w command = "go_error option \<times> cli_out list \<times> 'w"

section \<open>Status\<close>

definition status_cmd :: "'w cli_env \<Rightarrow> bool \<Rightarrow> 'w \<Rightarrow> 'w command" where
  "status_cmd E outputJSON w =
     (case state_Read E w of
        Inl err \<Rightarrow> (Some (Wrapped ''read state'' err), [], w)
      | Inr s \<Rightarrow>
          (let running = IsRunning E s w;
               (s, w) = (if s \<noteq> None \<and> \<not> running then (None, snd (state_Delete E w)) else (s, w)) in
           if outputJSON then (None, [OutJSON (StatusOutput_json (printStatusJSON (cl_now E w) s running))], w)
           else case s of
             None \<Rightarrow> (None, [OutText ''Disconnected'', OutText ''Run `gordion up` to connect.''], w)
           | Some st \<Rightarrow> (None, [OutText ''Connected'', OutTable (printConnected (cl_now E w) st)], w)))"

section \<open>Starting the agent\<close>

definition findAgentBinary :: "'w cli_env \<Rightarrow> 'w \<Rightarrow> string result" where
  "findAgentBinary E w =
     (let name = (if cl_goos E = Windows then ''gordion-agent.exe'' else ''gordion-agent'');
          notFound = Inl (Plain (''agent binary '' @ name @ '' not found in PATH'')) in
      case cl_LookPath E name w of
        Inr p \<Rightarrow> Inr p
      | Inl _ \<Rightarrow>
          (case cl_Executable E of
             Inl _ \<Rightarrow> notFound
           | Inr dir \<Rightarrow>
               let sibling = path_join (cl_goos E) dir name in
               if cl_Stat E sibling w then Inr sibling else notFound))"

definition resolvedConfigPath :: "'w cli_env \<Rightarrow> string \<Rightarrow> 'w \<Rightarrow> string" where
  "resolvedConfigPath E cfgFile w =
     (if cfgFile = '''' then
        (case find (\<lambda>p. cl_Stat E p w) (DefaultPaths E) of Some p \<Rightarrow> cl_Abs E p | None \<Rightarrow> '''')
      else cl_Abs E cfgFile)"

definition agentArgs :: "string \<Rightarrow> string list" where
  "agentArgs cfgFile = (if cfgFile \<noteq> '''' then [''--config'', cfgFile] else [])"

text \<open>The state that \<open>up\<close> writes for a new agent.\<close>

definition new_state :: "int \<Rightarrow> instant \<Rightarrow> string \<Rightarrow> string \<Rightarrow> cli_Config \<Rightarrow> cliState" where
  "new_state pid now logPath cfgPath cfg =
     \<lparr>cs_PID = pid, cs_VPNAddr = '''', cs_Token = '''', cs_LogFile = logPath, cs_StartedAt = now,
      cs_ConfigFile = cfgPath, cs_IsExitNode = cg_IsExitNode cfg, cs_UseExitNode = cg_UseExitNode cfg,
      cs_ExitNodeID = cg_ExitNodeID cfg\<rparr>"

definition up_messages :: "int \<Rightarrow> string \<Rightarrow> cli_Config \<Rightarrow> cli_out list" where
  "up_messages pid logPath cfg =
     [OutOK (''Gordion VPN started (PID '' @ itoa pid @ '')'')]
     @ (if logPath \<noteq> '''' then [OutText logPath] else [])
     @ (if cg_IsExitNode cfg then [OutOK ''This node is an exit node''] else [])
     @ (if cg_UseExitNode cfg
        then [OutOK (''Exit node: '' @ (if cg_ExitNodeID cfg = '''' then ''auto'' else cg_ExitNodeID cfg))] else [])
     @ [OutText ''Run `gordion status` to check connection.'']"

text \<open>From the opening of the log file on.\<close>

definition launch :: "'w cli_env \<Rightarrow> string \<Rightarrow> cli_Config \<Rightarrow> string \<Rightarrow> 'w \<Rightarrow> 'w command" where
  "launch E cfgFile cfg agentBin w =
     (case cl_OpenLog E (DefaultLogPath E) w of
        (opened, w2) \<Rightarrow>
          (let logPath = (if opened = None then DefaultLogPath E else '''');
               out = (if opened = None then [] else [OutWarn ''Could not open log file, agent will run without logs''])
                     @ [OutText ''Starting Gordion VPN...''] in
           case cl_start E (agentBin # agentArgs cfgFile) logPath w2 of
             (Inl err, w3) \<Rightarrow> (Some (Wrapped ''failed to start agent'' err), out, w3)
           | (Inr pid, w3) \<Rightarrow>
               (case state_Write E (new_state pid (cl_now E w3) logPath (resolvedConfigPath E cfgFile w3) cfg) w3 of
                  (written, w4) \<Rightarrow>
                    (None, out @ (if written = None then [] else [OutWarn ''Could not write state file''])
                       @ up_messages pid logPath cfg, w4))))"

definition up_cmd :: "'w cli_env \<Rightarrow> (string \<Rightarrow> cli_Config result) \<Rightarrow> string \<Rightarrow> 'w \<Rightarrow> 'w command" where
  "up_cmd E unmarshal cfgFile w =
     (if (case state_Read E w of Inr s \<Rightarrow> IsRunning E s w | Inl _ \<Rightarrow> False)
      then (None, [OutWarn ''Gordion is already running''], w)
      else case cli_Load E unmarshal cfgFile w of
        Inl err \<Rightarrow> (Some (Wrapped ''load config'' err), [], w)
      | Inr cfg \<Rightarrow>
          (case findAgentBinary E w of
             Inl err \<Rightarrow> (Some err, [], w)
           | Inr agentBin \<Rightarrow>
               (case cl_MkdirAll E (path_join (cl_goos E) (cl_TempDir E) ''gordion'') w of
                  (Some err, w1) \<Rightarrow> (Some (Wrapped ''create log dir'' err), [], w1)
                | (None, w1) \<Rightarrow> launch E cfgFile cfg agentBin w1)))"

section \<open>Stopping the agent\<close>

definition poll_interval :: duration where
  "poll_interval = 300000000"

partial_function (option) wait_loop :: "'w cli_env \<Rightarrow> cliState \<Rightarrow> instant \<Rightarrow> 'w \<Rightarrow> 'w option" where
  "wait_loop E s deadline w =
     (if cl_now E w < deadline then
        (if \<not> IsRunning E (Some s) w then Some w
         else wait_loop E s deadline (cl_sleep E poll_interval w))
      else Some w)"

text \<open>After the interrupt has been sent.\<close>

definition finish_down :: "'w cli_env \<Rightarrow> cliState \<Rightarrow> 'w \<Rightarrow> cli_out list \<times> 'w" where
  "finish_down E s w =
     (let (out, w) = (if IsRunning E (Some s) w
                      then ([OutWarn ''Agent did not stop gracefully''], snd (cl_kill E (cs_PID s) w)) else ([], w)) in
      (out @ [OutOK ''Gordion VPN stopped''], snd (state_Delete E w)))"

definition down_cmd :: "'w cli_env \<Rightarrow> 'w \<Rightarrow> 'w command option" where
  "down_cmd E w =
     (case state_Read E w of
        Inl err \<Rightarrow> Some (Some (Wrapped ''read state'' err), [], w)
      | Inr None \<Rightarrow> Some (None, [OutWarn ''Gordion is not running (no state file found)''], w)
      | Inr (Some s) \<Rightarrow>
          if \<not> IsRunning E (Some s) w then
            Some (None, [OutWarn (''Gordion process (PID '' @ itoa (cs_PID s) @ '') is not running'')], snd (state_Delete E w))
          else
            (let out = [OutText (''Stopping Gordion VPN agent (PID '' @ itoa (cs_PID s) @ '')...'')] in
             case cl_FindProcess E (cs_PID s) w of
               Some err \<Rightarrow> Some (Some (Wrapped ''find process'' err), out, w)
             | None \<Rightarrow>
                 (case cl_interrupt E (cs_PID s) w of
                    (Some err, w1) \<Rightarrow> Some (Some (Wrapped ''send stop signal'' err), out, w1)
                  | (None, w1) \<Rightarrow>
                      (case wait_loop E s (cl_now E w1 + 10 * time_Second) w1 of
                         None \<Rightarrow> None
                       | Some w2 \<Rightarrow> (case finish_down E s w2 of (out2, w3) \<Rightarrow> Some (None, out @ out2, w3))))))"

definition restart_cmd :: "'w cli_env \<Rightarrow> (string \<Rightarrow> cli_Config result) \<Rightarrow> string \<Rightarrow> 'w \<Rightarrow> 'w command option" where
  "restart_cmd E unmarshal cfgFile w =
     (case down_cmd E w of
        None \<Rightarrow> None
      | Some (err, out, w1) \<Rightarrow>
          (case up_cmd E unmarshal cfgFile w1 of
             (err2, out2, w2) \<Rightarrow>
               Some (err2, out @ (if err = None then [] else [OutWarn ''Could not stop'']) @ out2, w2)))"

section \<open>Choosing the exit node\<close>

text \<open>\<open>exit-node set\<close> and \<open>exit-node off\<close> change the state file of a running agent.\<close>

definition change_exit ::
  "'w cli_env \<Rightarrow> (cliState \<Rightarrow> cliState) \<Rightarrow> cli_out list \<Rightarrow> 'w \<Rightarrow> 'w command" where
  "change_exit E f out w =
     (case state_Read E w of
        Inl err \<Rightarrow> (Some (Wrapped ''read state'' err), [], w)
      | Inr s \<Rightarrow>
          (case s of
             Some st \<Rightarrow>
               if \<not> IsRunning E s w then (Some (Plain ''Gordion is not running''), [], w)
               else (case state_Write E (f st) w of
                       (Some err, w1) \<Rightarrow> (Some (Wrapped ''write state'' err), [], w1)
                     | (None, w1) \<Rightarrow> (None, out, w1))
           | None \<Rightarrow> (Some (Plain ''Gordion is not running''), [], w)))"

definition restart_hint :: cli_out where
  "restart_hint = OutText ''Restart the agent for changes to take effect: gordion down && gordion up''"

definition exitNodeSet_cmd :: "'w cli_env \<Rightarrow> string list \<Rightarrow> 'w \<Rightarrow> 'w command" where
  "exitNodeSet_cmd E args w =
     (let targetID = (case args of [] \<Rightarrow> '''' | a # _ \<Rightarrow> a) in
      change_exit E (\<lambda>s. s\<lparr>cs_UseExitNode := True, cs_ExitNodeID := targetID\<rparr>)
        [OutOK (''Exit node set to '' @ (if targetID = '''' then ''auto-select'' else targetID)), restart_hint] w)"

definition exitNodeOff_cmd :: "'w cli_env \<Rightarrow> 'w \<Rightarrow> 'w command" where
  "exitNodeOff_cmd E w =
     change_exit E (\<lambda>s. s\<lparr>cs_UseExitNode := False, cs_ExitNodeID := ''''\<rparr>)
       [OutOK ''Exit node disabled'', restart_hint] w"

section \<open>A host that works\<close>

text \<open>
  What the commands rely on, for a host whose disk works and whose process ids are not reused.
  \<open>saved\<close> is the state in the file, \<open>agents\<close> the ids of the agents that run. While a command
  sleeps, agents may end and update the state file, of which they keep the process id.
\<close>

definition file_pid :: "cliState option \<Rightarrow> int option" where
  "file_pid = map_option cs_PID"

locale cli_host =
  fixes E :: "'w cli_env" and saved :: "'w \<Rightarrow> cliState option" and agents :: "'w \<Rightarrow> int set"
  assumes read: "cl_ReadState E w = (case saved w of None \<Rightarrow> NoFile | Some s \<Rightarrow> StateFile s)"
    and writing: "cl_WriteState E s w = (err, w') \<Longrightarrow> err = None \<and> saved w' = Some s \<and> agents w' = agents w"
    and remove: "cl_RemoveState E w = (rerr, w') \<Longrightarrow> saved w' = None \<and> agents w' = agents w"
    and mkdir: "cl_MkdirAll E dir w = (err, w') \<Longrightarrow> err = None \<and> saved w' = saved w \<and> agents w' = agents w"
    and openlog: "cl_OpenLog E l w = (err, w') \<Longrightarrow> saved w' = saved w \<and> agents w' = agents w"
    and find: "p \<in> agents w \<Longrightarrow> cl_FindProcess E p w = None"
    and exists: "cl_processExists E p w \<longleftrightarrow> p \<in> agents w"
    and agent_ids: "(0 :: int) \<notin> agents w"
    and sleep: "cl_now E w + d \<le> cl_now E (cl_sleep E d w)" "agents (cl_sleep E d w) \<subseteq> agents w"
      "file_pid (saved (cl_sleep E d w)) = file_pid (saved w)"
    and interrupt: "p \<in> agents w \<Longrightarrow> cl_interrupt E p w = (err, w') \<Longrightarrow>
      err = None \<and> agents w' \<subseteq> agents w \<and> file_pid (saved w') = file_pid (saved w)"
    and kill: "cl_kill E p w = (err, w') \<Longrightarrow> agents w' = agents w - {p} \<and> saved w' = saved w"
    and start: "cl_start E cmd l w = (Inr p, w') \<Longrightarrow> agents w' = insert p (agents w) \<and> saved w' = saved w"
      "cl_start E cmd l w = (Inl failure, w') \<Longrightarrow> agents w' = agents w \<and> saved w' = saved w"
begin

lemma state_Read_file [simp]: "state_Read E w = Inr (saved w)"
  by (simp add: state_Read_def read split: option.split)

lemma state_Write_ok: "state_Write E s w = (err, w') \<Longrightarrow> err = None \<and> saved w' = Some s \<and> agents w' = agents w"
  by (auto simp: state_Write_def split: prod.splits option.splits dest!: mkdir writing)

lemma state_Delete_ok:
  "saved (snd (state_Delete E w)) = None" "agents (snd (state_Delete E w)) = agents w"
  by (auto simp: state_Delete_def split: prod.splits option.splits remove_error.splits dest!: remove)

lemma running_iff: "IsRunning E s w \<longleftrightarrow> (\<exists>st. s = Some st \<and> cs_PID st \<in> agents w)"
  using agent_ids [of w] find [of _ w] by (auto simp: IsRunning_def exists split: option.splits)

text \<open>The wait ends: every turn brings the deadline nearer.\<close>

lemma wait_loop_returns:
  "\<exists>w'. wait_loop E s deadline w = Some w' \<and> agents w' \<subseteq> agents w \<and> file_pid (saved w') = file_pid (saved w)"
proof (induction "nat (deadline - cl_now E w)" arbitrary: w rule: less_induct)
  case less
  show ?case
  proof (cases "cl_now E w < deadline \<and> IsRunning E (Some s) w")
    case True
    let ?w = "cl_sleep E poll_interval w"
    have "cl_now E w < cl_now E ?w"
      using sleep(1) [of w poll_interval] by (simp add: poll_interval_def)
    with True less [of ?w] obtain w' where "wait_loop E s deadline ?w = Some w'"
      "agents w' \<subseteq> agents ?w" "file_pid (saved w') = file_pid (saved ?w)" by auto
    with True sleep(2) [of poll_interval w] sleep(3) [of poll_interval w] show ?thesis
      by (subst wait_loop.simps) auto
  next
    case False
    then show ?thesis by (subst wait_loop.simps) auto
  qed
qed

text \<open>At most one agent, the one in the state file.\<close>

definition on_record :: "'w \<Rightarrow> bool" where
  "on_record w \<longleftrightarrow> (\<forall>p \<in> agents w. file_pid (saved w) = Some p)"

lemma on_record_mono:
  "on_record w \<Longrightarrow> agents w' \<subseteq> agents w \<Longrightarrow> file_pid (saved w') = file_pid (saved w) \<Longrightarrow> on_record w'"
  by (auto simp: on_record_def)

lemma not_running: "on_record w \<Longrightarrow> \<not> IsRunning E (saved w) w \<Longrightarrow> agents w = {}"
  by (auto simp: on_record_def running_iff file_pid_def)

lemma finish_down_ok:
  "saved (snd (finish_down E s w)) = None \<and> agents (snd (finish_down E s w)) \<subseteq> agents w - {cs_PID s}"
proof (cases "IsRunning E (Some s) w")
  case True
  obtain err w' where k: "cl_kill E (cs_PID s) w = (err, w')" by (cases "cl_kill E (cs_PID s) w")
  with True kill [OF k] state_Delete_ok [of w'] show ?thesis by (simp add: finish_down_def)
next
  case False
  with state_Delete_ok [of w] show ?thesis by (auto simp: finish_down_def running_iff)
qed

text \<open>What \<open>down\<close> does on every branch.\<close>

lemma down_ok:
  "\<exists>out w'. down_cmd E w = Some (None, out, w') \<and> saved w' = None
     \<and> agents w' \<subseteq> agents w - set_option (file_pid (saved w))"
proof (cases "saved w")
  case None
  then show ?thesis by (simp add: down_cmd_def file_pid_def)
next
  case (Some s)
  show ?thesis
  proof (cases "IsRunning E (Some s) w")
    case False
    with Some state_Delete_ok [of w] show ?thesis
      by (auto simp: down_cmd_def running_iff file_pid_def)
  next
    case True
    then have pid: "cs_PID s \<in> agents w" by (simp add: running_iff)
    obtain err w1 where i: "cl_interrupt E (cs_PID s) w = (err, w1)" by (cases "cl_interrupt E (cs_PID s) w")
    note int = interrupt [OF pid i]
    obtain w2 where w2: "wait_loop E s (cl_now E w1 + 10 * time_Second) w1 = Some w2" "agents w2 \<subseteq> agents w1"
      using wait_loop_returns by blast
    obtain out2 w3 where f: "finish_down E s w2 = (out2, w3)" by (cases "finish_down E s w2")
    from finish_down_ok [of s w2] f int w2(2) Some have "saved w3 = None"
      "agents w3 \<subseteq> agents w - set_option (file_pid (saved w))" by (auto simp: file_pid_def)
    with Some True find [OF pid] i int w2(1) f show ?thesis by (simp add: down_cmd_def)
  qed
qed

lemma launch_ok:
  assumes "launch E cfgFile cfg bin w = (err, out, w')"
  shows "(err = None \<and> (\<exists>pid now log path. saved w' = Some (new_state pid now log path cfg) \<and> agents w' = insert pid (agents w)))
       \<or> (err \<noteq> None \<and> saved w' = saved w \<and> agents w' = agents w)"
proof -
  obtain opened w2 where o: "cl_OpenLog E (DefaultLogPath E) w = (opened, w2)" by (cases "cl_OpenLog E (DefaultLogPath E) w")
  let ?log = "if opened = None then DefaultLogPath E else ''''"
  obtain r w3 where s: "cl_start E (bin # agentArgs cfgFile) ?log w2 = (r, w3)" by fastforce
  show ?thesis
  proof (cases r)
    case (Inl e)
    with assms o s openlog [OF o] start(2) show ?thesis by (auto simp: launch_def Let_def)
  next
    case (Inr pid)
    let ?st = "new_state pid (cl_now E w3) ?log (resolvedConfigPath E cfgFile w3) cfg"
    obtain e4 w4 where wr: "state_Write E ?st w3 = (e4, w4)" by (cases "state_Write E ?st w3")
    have "w' = w4" "err = None" using assms o s Inr wr by (auto simp: launch_def Let_def)
    with state_Write_ok [OF wr] start(1) [OF s [unfolded Inr]] openlog [OF o] show ?thesis by blast
  qed
qed

text \<open>What \<open>up\<close> does: nothing beside a warning when the recorded agent runs, otherwise it starts one
  and records it, or fails and leaves things as they were.\<close>

lemma up_running: "IsRunning E (saved w) w \<Longrightarrow> up_cmd E unm cfgFile w = (None, [OutWarn ''Gordion is already running''], w)"
  by (simp add: up_cmd_def)

lemma up_ok:
  assumes "up_cmd E unm cfgFile w = (err, out, w')" and "\<not> IsRunning E (saved w) w"
  shows "(err = None \<and> (\<exists>cfg pid now log path. cli_Load E unm cfgFile w = Inr cfg
            \<and> saved w' = Some (new_state pid now log path cfg) \<and> agents w' = insert pid (agents w)))
       \<or> (err \<noteq> None \<and> saved w' = saved w \<and> agents w' = agents w)"
proof (cases "cli_Load E unm cfgFile w")
  case (Inl e)
  with assms show ?thesis by (auto simp: up_cmd_def)
next
  case (Inr cfg)
  show ?thesis
  proof (cases "findAgentBinary E w")
    case (Inl e)
    with assms Inr show ?thesis by (auto simp: up_cmd_def)
  next
    case bin: (Inr bin)
    obtain e1 w1 where m: "cl_MkdirAll E (path_join (cl_goos E) (cl_TempDir E) ''gordion'') w = (e1, w1)" by fastforce
    with assms Inr bin mkdir [OF m] have "launch E cfgFile cfg bin w1 = (err, out, w')"
      by (simp add: up_cmd_def)
    from launch_ok [OF this] mkdir [OF m] Inr show ?thesis by auto
  qed
qed

lemma change_exit_ok:
  assumes "change_exit E f out w = (err, out', w')" and "\<And>s. cs_PID (f s) = cs_PID s"
  shows "agents w' = agents w \<and> file_pid (saved w') = file_pid (saved w)"
proof (cases "saved w")
  case None
  with assms show ?thesis by (auto simp: change_exit_def)
next
  case (Some st)
  obtain e1 w1 where "state_Write E (f st) w = (e1, w1)" by (cases "state_Write E (f st) w")
  with Some assms state_Write_ok [OF this] show ?thesis
    by (auto simp: change_exit_def file_pid_def split: if_splits)
qed

lemma status_ok:
  assumes "status_cmd E j w = (err, out, w')"
  shows "err = None \<and> agents w' = agents w
    \<and> (if IsRunning E (saved w) w then w' = w else saved w' = None)"
  using assms state_Delete_ok [of w]
  by (cases "saved w") (auto simp: status_cmd_def Let_def split: if_splits)

lemma up_keeps:
  assumes "on_record w" and "up_cmd E unm cfgFile w = (err, out, w')"
  shows "on_record w'"
proof (cases "IsRunning E (saved w) w")
  case True
  with assms show ?thesis by (simp add: up_running)
next
  case False
  with up_ok [OF assms(2)] not_running [OF assms(1)] show ?thesis
    by (auto simp: on_record_def file_pid_def new_state_def)
qed

lemma restart_ok:
  assumes "on_record w"
  shows "\<exists>err out w' w1. restart_cmd E unm cfgFile w = Some (err, out, w') \<and> on_record w'
    \<and> agents w1 = {} \<and> saved w1 = None \<and> (\<exists>out1. up_cmd E unm cfgFile w1 = (err, out1, w'))"
proof -
  obtain out1 w1 where d: "down_cmd E w = Some (None, out1, w1)" "saved w1 = None"
    "agents w1 \<subseteq> agents w - set_option (file_pid (saved w))" using down_ok by blast
  with assms have "agents w1 = {}" by (auto simp: on_record_def)
  moreover from this have "on_record w1" by (simp add: on_record_def)
  moreover obtain err out2 w2 where u: "up_cmd E unm cfgFile w1 = (err, out2, w2)" by (metis prod_cases3)
  ultimately show ?thesis using up_keeps [OF _ u] d by (auto simp: restart_cmd_def)
qed

end

section \<open>A host in memory\<close>

text \<open>An agent that is asked to stop does so after \<open>k\<close> polls, or never; while a command sleeps the
  agent on record connects and writes its address and token.\<close>

record host =
  ho_now :: instant
  ho_state :: "cliState option"
  ho_agents :: "int list"
  ho_next :: int
  ho_stopping :: "(int \<times> nat) option"

definition host_agents :: "host \<Rightarrow> int set" where
  "host_agents h = {p \<in> set (ho_agents h). 0 < p}"

definition host_sleep :: "duration \<Rightarrow> host \<Rightarrow> host" where
  "host_sleep d h =
     h\<lparr>ho_now := ho_now h + d,
       ho_agents := (case ho_stopping h of Some (p, 0) \<Rightarrow> removeAll p (ho_agents h) | _ \<Rightarrow> ho_agents h),
       ho_stopping := (case ho_stopping h of Some (p, Suc n) \<Rightarrow> Some (p, n) | _ \<Rightarrow> None),
       ho_state := map_option (\<lambda>s. if cs_PID s \<in> set (ho_agents h)
          then s\<lparr>cs_VPNAddr := ''10.8.0.2'', cs_Token := ''token''\<rparr> else s) (ho_state h)\<rparr>"

definition host_start :: "host \<Rightarrow> int result \<times> host" where
  "host_start h =
     (let p = 1 + \<bar>ho_next h\<bar> in (Inr p, h\<lparr>ho_agents := p # ho_agents h, ho_next := p\<rparr>))"

definition host_env :: "nat option \<Rightarrow> host cli_env" where
  "host_env k = \<lparr>cl_goos = Linux, cl_TempDir = ''/tmp'', cl_home = ''/root'', cl_now = ho_now, cl_sleep = host_sleep,
     cl_ReadState = (\<lambda>h. case ho_state h of None \<Rightarrow> NoFile | Some s \<Rightarrow> StateFile s),
     cl_WriteState = (\<lambda>s h. (None, h\<lparr>ho_state := Some s\<rparr>)),
     cl_RemoveState = (\<lambda>h. (if ho_state h = None then Some NotExist else None, h\<lparr>ho_state := None\<rparr>)),
     cl_MkdirAll = (\<lambda>dir h. (None, h)), cl_ReadFile = (\<lambda>p h. FileText p), cl_OpenLog = (\<lambda>l h. (None, h)),
     cl_FindProcess = (\<lambda>p h. None), cl_processExists = (\<lambda>p h. p \<in> set (ho_agents h) \<and> 0 < p),
     cl_interrupt = (\<lambda>p h. (None, h\<lparr>ho_stopping := map_option (\<lambda>n. (p, n)) k\<rparr>)),
     cl_kill = (\<lambda>p h. (None, h\<lparr>ho_agents := removeAll p (ho_agents h)\<rparr>)),
     cl_start = (\<lambda>cmd l h. host_start h), cl_LookPath = (\<lambda>n h. Inr (''/usr/bin/'' @ n)),
     cl_Executable = Inr ''/usr/bin'', cl_Stat = (\<lambda>p h. False), cl_Abs = (\<lambda>p. p)\<rparr>"

interpretation memory_host: cli_host "host_env k" ho_state host_agents
  by unfold_locales
    (auto simp: host_env_def host_agents_def host_sleep_def host_start_def file_pid_def Let_def option.map_comp comp_def
      split: option.splits prod.splits nat.splits intro!: option.map_cong0)

section \<open>Histories\<close>

text \<open>Commands and times between them in which agents may end.\<close>

datatype cli_event = Up string | Down | Restart string | ShowStatus bool | ExitSet "string list" | ExitOff | Pass duration

fun cli_step :: "'w cli_env \<Rightarrow> (string \<Rightarrow> cli_Config result) \<Rightarrow> cli_event \<Rightarrow> 'w \<Rightarrow> 'w option" where
  "cli_step E unm (Up f) w = Some (snd (snd (up_cmd E unm f w)))"
| "cli_step E unm Down w = map_option (snd \<circ> snd) (down_cmd E w)"
| "cli_step E unm (Restart f) w = map_option (snd \<circ> snd) (restart_cmd E unm f w)"
| "cli_step E unm (ShowStatus j) w = Some (snd (snd (status_cmd E j w)))"
| "cli_step E unm (ExitSet args) w = Some (snd (snd (exitNodeSet_cmd E args w)))"
| "cli_step E unm ExitOff w = Some (snd (snd (exitNodeOff_cmd E w)))"
| "cli_step E unm (Pass d) w = Some (cl_sleep E d w)"

fun cli_run :: "'w cli_env \<Rightarrow> (string \<Rightarrow> cli_Config result) \<Rightarrow> cli_event list \<Rightarrow> 'w \<Rightarrow> 'w option" where
  "cli_run E unm [] w = Some w"
| "cli_run E unm (e # es) w = (case cli_step E unm e w of None \<Rightarrow> None | Some w' \<Rightarrow> cli_run E unm es w')"

context cli_host
begin

lemma step_keeps:
  assumes "on_record w"
  shows "\<exists>w'. cli_step E unm e w = Some w' \<and> on_record w'"
proof (cases e)
  case (Up f)
  obtain err out w' where u: "up_cmd E unm f w = (err, out, w')" by (metis prod_cases3)
  with up_keeps [OF assms u] Up show ?thesis by simp
next
  case Down
  with down_ok [of w] assms show ?thesis by (force simp: on_record_def)
next
  case (Restart f)
  with restart_ok [OF assms, of unm f] show ?thesis by auto
next
  case (ShowStatus j)
  obtain err out w' where s: "status_cmd E j w = (err, out, w')" by (metis prod_cases3)
  with status_ok [OF s] not_running [OF assms] assms ShowStatus show ?thesis
    by (auto simp: on_record_def split: if_splits)
next
  case (ExitSet args)
  obtain err out w' where s: "exitNodeSet_cmd E args w = (err, out, w')" by (metis prod_cases3)
  with change_exit_ok [OF s [unfolded exitNodeSet_cmd_def Let_def]] on_record_mono [OF assms] ExitSet
  show ?thesis by simp
next
  case ExitOff
  obtain err out w' where s: "exitNodeOff_cmd E w = (err, out, w')" by (metis prod_cases3)
  with change_exit_ok [OF s [unfolded exitNodeOff_cmd_def]] on_record_mono [OF assms] ExitOff
  show ?thesis by simp
next
  case (Pass d)
  with on_record_mono [OF assms sleep(2) sleep(3)] show ?thesis by simp
qed

lemma run_keeps: "on_record w \<Longrightarrow> \<exists>w'. cli_run E unm es w = Some w' \<and> on_record w'"
proof (induction es arbitrary: w)
  case (Cons e es)
  obtain w1 where "cli_step E unm e w = Some w1" "on_record w1" using step_keeps [OF Cons.prems] by blast
  with Cons.IH show ?case by simp
qed simp

end

section \<open>Properties\<close>

text \<open>C8. The CLI never runs two agents. On a host that works, after any sequence of commands and
  pauses in which agents may end by themselves, every command has returned, and an agent that runs
  is the one whose process id is in the state file.\<close>

theorem cli_one_agent:
  assumes "cli_host E saved agents" and "agents w = {}"
  shows "\<exists>w'. cli_run E unmarshal evs w = Some w'
    \<and> (\<forall>p \<in> agents w'. \<exists>s. saved w' = Some s \<and> cs_PID s = p)"
proof -
  have "cli_host.on_record saved agents w" using assms(2) by (simp add: cli_host.on_record_def [OF assms(1)])
  from cli_host.run_keeps [OF assms(1) this] show ?thesis
    by (auto simp: cli_host.on_record_def [OF assms(1)] file_pid_def)
qed

definition demo_cli_Config :: cli_Config where
  "demo_cli_Config = \<lparr>cg_IdentityAddr = '''', cg_DiscoveryAddr = '''', cg_ConfigAddr = '''', cg_NetworkSecret = '''',
     cg_TLSCACert = '''', cg_LogLevel = ''info'', cg_DryRun = None, cg_WireGuardPort = 0, cg_P2PPort = 0,
     cg_IsExitNode = False, cg_UseExitNode = False, cg_ExitNodeID = '''', cg_ExitNodeDNS = ''''\<rparr>"

definition empty_host :: host where
  "empty_host = \<lparr>ho_now = 0, ho_state = None, ho_agents = [], ho_next = 99, ho_stopping = None\<rparr>"

theorem cli_one_agent_witness:
  "\<exists>w'. cli_run (host_env (Some 2)) (\<lambda>_. Inr demo_cli_Config)
      [Up '''', Up '''', ExitSet [''n7''], Restart '''', Pass 5, ShowStatus True] empty_host = Some w'
    \<and> (\<forall>p \<in> host_agents w'. \<exists>s. ho_state w' = Some s \<and> cs_PID s = p)"
  by (rule cli_one_agent [OF memory_host.cli_host_axioms]) (simp add: empty_host_def host_agents_def)


definition running_host :: host where
  "running_host = \<lparr>ho_now = 0, ho_state = Some (new_state 100 0 ''/tmp/gordion/agent.log'' '''' demo_cli_Config),
     ho_agents = [100], ho_next = 100, ho_stopping = None\<rparr>"




text \<open>C38. The choice of an exit node does not survive the restart that it asks for. \<open>exit-node set\<close>
  writes the choice to the state file and says that it takes effect on a restart; but a restart
  deletes that file and writes what the configuration says, whatever was chosen.\<close>

theorem cli_restart_forgets_exit_choice:
  assumes "cli_host E saved agents"
    and "\<forall>p \<in> agents w. \<exists>s. saved w = Some s \<and> cs_PID s = p"
    and "exitNodeSet_cmd E args w = (None, out1, w1)"
    and "\<And>v. cli_Load E unmarshal cfgFile v = Inr cfg"
    and "restart_cmd E unmarshal cfgFile w1 = Some (None, out2, w2)"
  shows "\<exists>s. saved w2 = Some s \<and> cs_UseExitNode s = cg_UseExitNode cfg \<and> cs_ExitNodeID s = cg_ExitNodeID cfg"
proof -
  note host = assms(1)
  have "cli_host.on_record saved agents w"
    using assms(2) by (auto simp: cli_host.on_record_def [OF host] file_pid_def)
  moreover have "agents w1 = agents w \<and> file_pid (saved w1) = file_pid (saved w)"
    by (rule cli_host.change_exit_ok [OF host assms(3) [unfolded exitNodeSet_cmd_def Let_def]]) simp
  ultimately have "cli_host.on_record saved agents w1"
    using cli_host.on_record_mono [OF host, of w w1] by blast
  from cli_host.restart_ok [OF host this, of unmarshal cfgFile] obtain err out w' w0 out0 where
    r: "restart_cmd E unmarshal cfgFile w1 = Some (err, out, w')" "agents w0 = {}" "saved w0 = None"
      "up_cmd E unmarshal cfgFile w0 = (err, out0, w')" by blast
  from r(1) assms(5) have "err = None" "w' = w2" by simp_all
  with r have fresh: "saved w0 = None" "up_cmd E unmarshal cfgFile w0 = (None, out0, w2)" by simp_all
  from fresh(1) have idle: "\<not> IsRunning E (saved w0) w0" by simp
  obtain cfg' pid now log path where "cli_Load E unmarshal cfgFile w0 = Inr cfg'"
    "saved w2 = Some (new_state pid now log path cfg')"
    using cli_host.up_ok [OF host fresh(2) idle] by blast
  with assms(4) [of w0] show ?thesis by (simp add: new_state_def)
qed

text \<open>The exit node is on record before the restart, and gone after it.\<close>

lemma memory_up:
  "ho_state v = None \<Longrightarrow> fst (up_cmd (host_env k) (\<lambda>_. Inr demo_cli_Config) ''a.yaml'' v) = None"
  by (simp add: up_cmd_def cli_Load_def findAgentBinary_def host_env_def launch_def host_start_def Let_def
      state_Read_def state_Write_def split: prod.split)

definition chosen_host :: host where
  "chosen_host = running_host\<lparr>ho_state :=
    Some ((new_state 100 0 ''/tmp/gordion/agent.log'' '''' demo_cli_Config)\<lparr>cs_UseExitNode := True, cs_ExitNodeID := ''n7''\<rparr>)\<rparr>"

lemma memory_exit_set:
  "exitNodeSet_cmd (host_env k) [''n7''] running_host = (None, [OutOK ''Exit node set to n7'', restart_hint], chosen_host)"
  by (simp add: exitNodeSet_cmd_def change_exit_def state_Read_def state_Write_def running_host_def IsRunning_def
      host_env_def new_state_def chosen_host_def Let_def)

lemma memory_restart:
  "\<exists>out w2. restart_cmd (host_env k) (\<lambda>_. Inr demo_cli_Config) ''a.yaml'' w1 = Some (None, out, w2)"
proof -
  obtain out1 v where d: "down_cmd (host_env k) w1 = Some (None, out1, v)" "ho_state v = None"
    using memory_host.down_ok [of k w1] by blast
  obtain e o2 x where u: "up_cmd (host_env k) (\<lambda>_. Inr demo_cli_Config) ''a.yaml'' v = (e, o2, x)" by (metis prod_cases3)
  with memory_up [OF d(2), of k] d show ?thesis by (simp add: restart_cmd_def)
qed

theorem cli_restart_forgets_exit_choice_witness:
  "map_option cs_ExitNodeID (ho_state chosen_host) = Some ''n7''
   \<and> (\<exists>out w2. restart_cmd (host_env (Some 0)) (\<lambda>_. Inr demo_cli_Config) ''a.yaml'' chosen_host = Some (None, out, w2)
        \<and> map_option cs_ExitNodeID (ho_state w2) = Some '''')"
proof -
  obtain out w2 where r: "restart_cmd (host_env (Some 0)) (\<lambda>_. Inr demo_cli_Config) ''a.yaml'' chosen_host = Some (None, out, w2)"
    using memory_restart by blast
  have load: "cli_Load (host_env (Some 0)) (\<lambda>_. Inr demo_cli_Config) ''a.yaml'' v = Inr (cli_applyDefaults demo_cli_Config)" for v
    by (simp add: cli_Load_def host_env_def)
  have "\<forall>p \<in> host_agents running_host. \<exists>s. ho_state running_host = Some s \<and> cs_PID s = p"
    by (simp add: running_host_def host_agents_def new_state_def)
  from cli_restart_forgets_exit_choice [OF memory_host.cli_host_axioms this memory_exit_set load r]
  show ?thesis using r by (auto simp: chosen_host_def cli_applyDefaults_def demo_cli_Config_def)
qed

end
