(* ===== verification/CLI_Query.thy ===== *)
theory CLI_Query
  imports CLI_Control
begin

text \<open>
  The other commands of the CLI (\<open>src/cli/cmd\<close>): \<open>peers\<close> and \<open>exit-node list\<close>, which ask the
  discovery service, \<open>doctor\<close>, \<open>logs\<close>, \<open>init\<close> and \<open>version\<close>. The calls of the services are
  parameters, as are the text grpc makes of an error and the reading of the log.
\<close>

section \<open>Asking the services\<close>

text \<open>The address comes first; \<open>cq_ListPeers\<close> carries the outgoing metadata. \<open>cq_Error\<close> is the text
  of an error.\<close>

record 'w cli_calls =
  cq_Dial :: "string \<Rightarrow> go_error option"
  cq_ListPeers :: "string \<Rightarrow> (string \<times> string) list \<Rightarrow> ListPeersRequest \<Rightarrow> 'w \<Rightarrow> ListPeersResponse result"
  cq_ValidateToken :: "string \<Rightarrow> ValidateTokenRequest \<Rightarrow> 'w \<Rightarrow> ValidateTokenResponse result"
  cq_GetConfig :: "string \<Rightarrow> GetConfigRequest \<Rightarrow> 'w \<Rightarrow> GetConfigResponse result"
  cq_ListenUDP :: "string \<Rightarrow> 'w \<Rightarrow> go_error option"
  cq_ListenTCP :: "string \<Rightarrow> 'w \<Rightarrow> go_error option"
  cq_Error :: "go_error \<Rightarrow> string"

text \<open>The token in the state file, if it can be read.\<close>

definition saved_state :: "'w cli_env \<Rightarrow> 'w \<Rightarrow> cliState option" where
  "saved_state E w = (case state_Read E w of Inl _ \<Rightarrow> None | Inr s \<Rightarrow> s)"

definition saved_token :: "'w cli_env \<Rightarrow> 'w \<Rightarrow> string" where
  "saved_token E w = (case saved_state E w of None \<Rightarrow> '''' | Some s \<Rightarrow> cs_Token s)"

text \<open>The listing as both commands ask for it.\<close>

definition fetch_peers ::
  "'w cli_env \<Rightarrow> 'w cli_calls \<Rightarrow> (string \<Rightarrow> cli_Config result) \<Rightarrow> string \<Rightarrow> int \<Rightarrow> 'w \<Rightarrow> ProtoPeer list result" where
  "fetch_peers E Q unmarshal cfgFile limit w =
     (case cli_Load E unmarshal cfgFile w of
        Inl err \<Rightarrow> Inl (Wrapped ''load config'' err)
      | Inr cfg \<Rightarrow>
          (case cq_Dial Q (cg_DiscoveryAddr cfg) of
             Some err \<Rightarrow> Inl (Wrapped (''connect to Discovery ('' @ cg_DiscoveryAddr cfg @ '')'') err)
           | None \<Rightarrow>
               (case cq_ListPeers Q (cg_DiscoveryAddr cfg) (ContextWithToken (saved_token E w))
                       \<lparr>lpq_Region = '''', lpq_Limit = limit\<rparr> w of
                  Inl err \<Rightarrow> Inl (Wrapped ''ListPeers'' err)
                | Inr resp \<Rightarrow> Inr (lpr_Peers resp))))"

definition peers_cmd ::
  "'w cli_env \<Rightarrow> 'w cli_calls \<Rightarrow> (string \<Rightarrow> cli_Config result) \<Rightarrow> string \<Rightarrow> bool \<Rightarrow> int \<Rightarrow> 'w \<Rightarrow> go_error option \<times> cli_out list" where
  "peers_cmd E Q unmarshal cfgFile outputJSON peersLimit w =
     (case fetch_peers E Q unmarshal cfgFile peersLimit w of
        Inl err \<Rightarrow> (Some err, [])
      | Inr peers \<Rightarrow>
          if peers = [] then (None, [if outputJSON then OutJSON (JArr []) else OutText ''No peers found in the network.''])
          else if outputJSON then (None, [OutJSON (JArr (map peer_row_json (printPeersJSON (cl_now E w) peers)))])
          else (None, [OutText (itoa (int (length peers)) @ '' peer(s) in network''), OutRows (printPeers (cl_now E w) peers)]))"

definition exitNodeList_cmd ::
  "'w cli_env \<Rightarrow> 'w cli_calls \<Rightarrow> (string \<Rightarrow> cli_Config result) \<Rightarrow> string \<Rightarrow> 'w \<Rightarrow> go_error option \<times> cli_out list" where
  "exitNodeList_cmd E Q unmarshal cfgFile w =
     (case fetch_peers E Q unmarshal cfgFile 100 w of
        Inl err \<Rightarrow> (Some err, [])
      | Inr peers \<Rightarrow>
          let exits = filter pp_IsExitNode peers in
          if exits = [] then
            (None, [OutText ''No exit nodes available in the network.'',
                    OutText ''To create one: start an agent with  is_exit_node: true  on a VPS.''])
          else (None, [OutText (itoa (int (length exits)) @ '' exit node(s) available''),
                       OutRows (printExitNodes (cl_now E w) (saved_state E w) exits)]))"

section \<open>Doctor\<close>

record CheckResult =
  ck_Name :: string
  ck_OK :: bool
  ck_Message :: string

definition check :: "string \<Rightarrow> bool \<Rightarrow> string \<Rightarrow> CheckResult" where
  "check name ok msg = \<lparr>ck_Name = name, ck_OK = ok, ck_Message = msg\<rparr>"

definition isGRPCAlive :: "(go_error \<Rightarrow> string) \<Rightarrow> go_error option \<Rightarrow> bool" where
  "isGRPCAlive text err =
     (case err of
        None \<Rightarrow> True
      | Some e \<Rightarrow> list_ex (Contains (text e)) [''Unauthenticated'', ''InvalidArgument'', ''PermissionDenied'', ''NotFound''])"

definition grpcCheck :: "'w cli_calls \<Rightarrow> string \<Rightarrow> string \<Rightarrow> go_error option \<Rightarrow> CheckResult" where
  "grpcCheck Q name addr fn =
     (case cq_Dial Q addr of
        Some err \<Rightarrow> check name False (''cannot connect to '' @ addr @ '': '' @ cq_Error Q err)
      | None \<Rightarrow>
          (case fn of
             Some err \<Rightarrow>
               if isGRPCAlive (cq_Error Q) (Some err) then check name True (''OK ('' @ addr @ '')'')
               else check name False (''unreachable ('' @ addr @ ''): '' @ cq_Error Q err)
           | None \<Rightarrow> check name True (''OK ('' @ addr @ '')'')))"

definition call_error :: "'a result \<Rightarrow> go_error option" where
  "call_error r = (case r of Inl e \<Rightarrow> Some e | Inr _ \<Rightarrow> None)"

text \<open>The checks of the three services; no token goes with the listing.\<close>

definition service_checks :: "'w cli_calls \<Rightarrow> cli_Config \<Rightarrow> 'w \<Rightarrow> CheckResult list" where
  "service_checks Q cfg w =
     [grpcCheck Q ''Identity Service'' (cg_IdentityAddr cfg)
        (call_error (cq_ValidateToken Q (cg_IdentityAddr cfg) \<lparr>vtq_Token = ''probe''\<rparr> w)),
      grpcCheck Q ''Discovery Service'' (cg_DiscoveryAddr cfg)
        (call_error (cq_ListPeers Q (cg_DiscoveryAddr cfg) [] \<lparr>lpq_Region = '''', lpq_Limit = 1\<rparr> w)),
      grpcCheck Q ''Config Service'' (cg_ConfigAddr cfg)
        (call_error (cq_GetConfig Q (cg_ConfigAddr cfg) \<lparr>gcq_Token = ''probe'', gcq_ConfigVersion = 0\<rparr> w))]"

definition runChecks :: "'w cli_env \<Rightarrow> 'w cli_calls \<Rightarrow> cli_Config \<Rightarrow> 'w \<Rightarrow> CheckResult list" where
  "runChecks E Q cfg w =
     (let s = saved_state E w; running = IsRunning E s w;
          port = itoa (cg_WireGuardPort cfg); p2p = itoa (cg_P2PPort cfg) in
      [if running then check ''Agent process'' True (''Running (PID '' @ itoa (case s of Some s \<Rightarrow> cs_PID s | None \<Rightarrow> 0) @ '')'')
       else check ''Agent process'' False ''Not running'']
      @ service_checks Q cfg w
      @ [if running then check ''WireGuard port'' True (''Port '' @ port @ '' in use by agent (expected)'')
         else (case cq_ListenUDP Q ('':'' @ port) w of
                 Some err \<Rightarrow> check ''WireGuard port'' False (''Port '' @ port @ '' unavailable: '' @ cq_Error Q err)
               | None \<Rightarrow> check ''WireGuard port'' True (''Port '' @ port @ '' is free'')),
         case cq_ListenTCP Q ('':'' @ p2p) w of
           Some err \<Rightarrow>
             if s = None then check ''P2P port'' False (''Port '' @ p2p @ '' unavailable: '' @ cq_Error Q err)
             else check ''P2P port'' True (''Port '' @ p2p @ '' OK'')
         | None \<Rightarrow> check ''P2P port'' True (''Port '' @ p2p @ '' OK''),
         case cl_LookPath E (if cl_goos E = Windows then ''wg.exe'' else ''wg'') w of
           Inl _ \<Rightarrow> check ''WireGuard binary'' False ''Not found in PATH''
         | Inr _ \<Rightarrow> check ''WireGuard binary'' True ''Found in PATH''])"

definition doctor_cmd ::
  "'w cli_env \<Rightarrow> 'w cli_calls \<Rightarrow> (string \<Rightarrow> cli_Config result) \<Rightarrow> string \<Rightarrow> 'w \<Rightarrow> CheckResult list result" where
  "doctor_cmd E Q unmarshal cfgFile w =
     (case cli_Load E unmarshal cfgFile w of
        Inl err \<Rightarrow> Inl (Wrapped ''load config'' err)
      | Inr cfg \<Rightarrow> Inr (runChecks E Q cfg w))"

definition allOK :: "CheckResult list \<Rightarrow> bool" where
  "allOK results = list_all ck_OK results"

section \<open>Logs\<close>

text \<open>\<open>scan\<close> gives the lines of a file and the scanner's error. With \<open>--follow\<close> the command shows what
  is added to the file, until it is interrupted: \<open>follow\<close> gives the additions.\<close>

definition logs_path :: "'w cli_env \<Rightarrow> 'w \<Rightarrow> string" where
  "logs_path E w =
     (case saved_state E w of
        Some s \<Rightarrow> if cs_LogFile s \<noteq> '''' then cs_LogFile s else DefaultLogPath E
      | None \<Rightarrow> DefaultLogPath E)"

definition logs_cmd ::
  "'w cli_env \<Rightarrow> (string \<Rightarrow> string list \<times> go_error option) \<Rightarrow> string list option \<Rightarrow> int \<Rightarrow> 'w
    \<Rightarrow> (log_colour \<times> string) list result outcome" where
  "logs_cmd E scan follow logsLines w =
     (case cl_ReadFile E (logs_path E w) w of
        FileMissing \<Rightarrow> Returned (Inr [(AmberLine, ''No log file found at: '' @ logs_path E w)])
      | FileError err \<Rightarrow> Returned (Inl (Wrapped ''open log file'' err))
      | FileText t \<Rightarrow>
          (case follow of
             Some chunks \<Rightarrow> Returned (Inr (tailFollow chunks))
           | None \<Rightarrow>
               (case printLast (fst (scan t)) (snd (scan t)) logsLines of
                  Panicked \<Rightarrow> Panicked
                | Returned (Inl err) \<Rightarrow> Returned (Inl err)
                | Returned (Inr ls) \<Rightarrow> Returned (Inr (map formatLogLine ls)))))"

section \<open>Init\<close>

text \<open>\<open>ic_rand\<close> is \<open>rand.Read\<close>, \<open>ic_X25519\<close> the multiplication with the base point, \<open>ic_WriteFile\<close>
  writes a file with a mode, \<open>ic_Dir\<close> is \<open>filepath.Dir\<close>.\<close>

record 'w init_calls =
  ic_rand :: "nat \<Rightarrow> 'w \<Rightarrow> 8 word list result \<times> 'w"
  ic_X25519 :: "8 word list \<Rightarrow> 8 word list result"
  ic_WriteFile :: "string \<Rightarrow> string \<Rightarrow> nat \<Rightarrow> 'w \<Rightarrow> go_error option \<times> 'w"
  ic_Dir :: "string \<Rightarrow> string"

definition generateWireGuardKeys :: "'w init_calls \<Rightarrow> 'w \<Rightarrow> (string \<times> string) result \<times> 'w" where
  "generateWireGuardKeys I w =
     (case ic_rand I 32 w of
        (Inl err, w1) \<Rightarrow> (Inl err, w1)
      | (Inr b, w1) \<Rightarrow>
          (let priv = clamp b in
           case ic_X25519 I priv of
             Inl e \<Rightarrow> (Inl e, w1)
           | Inr pub \<Rightarrow> (Inr (b64_encode priv, b64_encode pub), w1)))"

text \<open>A write that must succeed before the next step.\<close>

definition after :: "(go_error option \<times> 'w) \<Rightarrow> string \<Rightarrow> ('w \<Rightarrow> go_error option \<times> 'w) \<Rightarrow> go_error option \<times> 'w" where
  "after r what k = (case r of (Some err, w) \<Rightarrow> (Some (Wrapped what err), w) | (None, w) \<Rightarrow> k w)"

definition init_keysDir :: "'w cli_env \<Rightarrow> string" where
  "init_keysDir E = path_join (cl_goos E) (path_join (cl_goos E) (cl_home E) ''.gordion'') ''keys''"

definition init_outFile :: "'w cli_env \<Rightarrow> string \<Rightarrow> string" where
  "init_outFile E cfgFile = (if cfgFile \<noteq> '''' then cfgFile else path_join (cl_goos E) ''configs'' ''agent.yaml'')"

definition init_cmd ::
  "'w cli_env \<Rightarrow> 'w init_calls \<Rightarrow> string \<Rightarrow> bool \<Rightarrow> string \<Rightarrow> 'w \<Rightarrow> go_error option \<times> 'w" where
  "init_cmd E I cfgFile initForce initSecret w =
     (let keysDir = init_keysDir E;
          privKeyFile = path_join (cl_goos E) keysDir ''private.key'';
          pubKeyFile = path_join (cl_goos E) keysDir ''public.key'';
          outFile = init_outFile E cfgFile;
          outDir = (if cfgFile \<noteq> '''' then ic_Dir I outFile else ''configs'') in
      if cl_Stat E outFile w \<and> \<not> initForce then (None, w)
      else case generateWireGuardKeys I w of
        (Inl err, w1) \<Rightarrow> (Some (Wrapped ''generate keypair'' err), w1)
      | (Inr (privKey, pubKey), w1) \<Rightarrow>
          after (cl_MkdirAll E keysDir w1) ''create keys dir'' (\<lambda>w2.
          after (ic_WriteFile I privKeyFile (privKey @ nl) 384 w2) ''write private key'' (\<lambda>w3.
          after (ic_WriteFile I pubKeyFile (pubKey @ nl) 420 w3) ''write public key'' (\<lambda>w4.
          after (cl_MkdirAll E outDir w4) ''create config dir'' (\<lambda>w5.
          after (ic_WriteFile I outFile (buildDefaultConfig pubKeyFile pubKey initSecret) 384 w5) ''write config'' (\<lambda>w6.
            (None, w6)))))))"

section \<open>Version\<close>

definition version_json :: "string \<Rightarrow> string \<Rightarrow> string \<Rightarrow> string \<Rightarrow> json" where
  "version_json version os arch goVer =
     JObj [(''version'', JStr version), (''os'', JStr os), (''arch'', JStr arch), (''go_version'', JStr goVer)]"

end
