(* ===== verification/System.thy ===== *)
theory System
  imports Programs CLI_Query
begin

text \<open>
  The programs together: an identity server behind its interceptors answers the validation calls of
  the discovery server; what one node registers reaches the listing, the configuration file and the
  terminal of another; the loops of an agent against the registry's leases; the state file between
  agent and CLI.
\<close>

section \<open>Validation over the wire\<close>

definition validate_handler ::
  "jwt_lib \<Rightarrow> IdentityService \<Rightarrow> fault \<Rightarrow> ValidateTokenRequest \<Rightarrow> (identity_db, ValidateTokenResponse) handler" where
  "validate_handler J s f req ctx sv =
     (case idh_ValidateToken J s f (sv_clock sv) req (sv_state sv) of
        (res, ms) \<Rightarrow> (res, sv\<lparr>sv_metrics := sv_metrics sv @ ms\<rparr>))"

definition empty_context :: rpc_context where
  "empty_context = \<lparr>ctx_metadata = None, ctx_value = Map.empty\<rparr>"

text \<open>The reply to a service whose connection has the address \<open>addr\<close>, when the identity server is
  in a given state.\<close>

definition wire_ValidateToken ::
  "(go_error \<Rightarrow> string) \<Rightarrow> jwt_lib \<Rightarrow> IdentityService \<Rightarrow> fault \<Rightarrow> string \<Rightarrow> Limiter \<times> identity_db server \<Rightarrow> identity_rpc" where
  "wire_ValidateToken code_text J s f addr ls req =
     fst (serve code_text ''identity'' ''/identity.v1.IdentityService/ValidateToken'' (Some addr)
            (validate_handler J s f req) empty_context ls)"

lemma identity_main_limiter: "identity_main P unm = Runs (s, srv) \<Longrightarrow> gs_limiter srv = rl_New 100 time_Minute"
  by (auto simp: identity_main_def start_server_def Let_def split: sum.splits option.splits program.splits)

lemma last_request_refused:
  assumes "1 \<le> maxReqs l" and "clients l ip = None" and "\<forall>u \<in> set (ts @ [v]). u \<le> t + interval l"
    and "maxReqs l \<le> int (length ts) + 1"
  shows "\<not> fst (rl_Allow v ip (snd (rl_run (map (\<lambda>u. Req u ip) (t # ts)) l)))"
proof
  assume ok: "fst (rl_Allow v ip (snd (rl_run (map (\<lambda>u. Req u ip) (t # ts)) l)))"
  let ?w = "\<lparr>win_count = 1, win_resetAt = t + interval l\<rparr>"
  let ?l = "l\<lparr>clients := (clients l)(ip \<mapsto> ?w)\<rparr>" and ?q = "\<lambda>us. map (\<lambda>u. Req u ip) us"
  have first: "rl_Allow t ip l = (True, ?l)" using assms(2) by (simp add: rl_defs)
  have count: "length (filter id (rl_answers (?q us) ?l)) = min (length us) (nat (maxReqs l - 1))"
    if "\<forall>u \<in> set us. u \<le> t + interval l" for us
    using rl_window_count [of ?l ip ?w us] assms(1) that by simp
  have "rl_answers (?q (ts @ [v])) ?l = rl_answers (?q ts) ?l @ [True]"
    using ok first by (simp add: rl_run_append split_beta)
  then have "length (filter id (rl_answers (?q (ts @ [v])) ?l)) = length (filter id (rl_answers (?q ts) ?l)) + 1"
    by simp
  with count [of ts] count [of "ts @ [v]"] assms(1,3,4) show False by auto
qed

section \<open>Configuration lines\<close>

lemma render_peer_line:
  assumes "p \<in> set (wc_Peers cfg)" and "wp_PublicKey p = a @ nl @ l @ nl @ b" and "one_line l"
  shows "l \<in> set (text_lines (render cfg))"
proof -
  from assms(1) obtain ps1 ps2 where ps: "wc_Peers cfg = ps1 @ p # ps2" by (meson split_list)
  have "\<exists>s t. render cfg = s @ nl @ l @ nl @ t"
  proof (intro exI)
    show "render cfg = (''[Interface]'' @ nl @ ''PrivateKey = '' @ wc_PrivateKey cfg @ nl
     @ ''ListenPort = '' @ itoa (wc_ListenPort cfg) @ nl @ ''Address = '' @ wc_Address cfg @ nl
     @ ''MTU = '' @ itoa (wc_MTU cfg) @ nl
     @ (if wc_DNS cfg \<noteq> '''' then ''DNS = '' @ wc_DNS cfg else '''') @ nl @ nl
     @ concat (map render_peer ps1) @ ''[Peer]'' @ nl @ ''PublicKey = '' @ a) @ nl @ l @ nl
     @ (b @ nl @ ''Endpoint = '' @ wp_Endpoint p @ nl @ ''AllowedIPs = '' @ wp_AllowedIPs p @ nl
        @ ''PersistentKeepalive = 25'' @ nl @ nl @ concat (map render_peer ps2))"
      by (simp add: render_def ps render_peer_def [of p] assms(2))
  qed
  with in_text_lines_middle [OF assms(3)] show ?thesis by metis
qed

section \<open>The registry without registrations\<close>

lemma lease_run_no_register:
  assumes "lease_at t L n = None" and "\<forall>x \<in> set xs. \<forall>p. snd x = ORegister p \<longrightarrow> NodeID p \<noteq> n"
    and "in_order t xs" and "\<forall>x \<in> set xs. fst x \<le> u" and "t \<le> u"
  shows "lease_at u (lease_run ttl xs L) n = None"
  using assms
proof (induction xs arbitrary: t L)
  case Nil
  then show ?case by (auto simp: lease_at_def split: option.splits prod.splits)
next
  case (Cons y xs)
  obtain t' x where y: "y = (t', x)" by fastforce
  from Cons.prems y have "t \<le> t'" by simp
  with Cons.prems(1) have gone: "lease_at t' L n = None"
    by (auto simp: lease_at_def split: option.splits prod.splits)
  have "lease_at t' (lease_step ttl t' x L) n = None"
  proof (cases x)
    case (ORegister p)
    with Cons.prems(2) y have "NodeID p \<noteq> n" by simp
    with ORegister gone show ?thesis by (simp add: lease_at_def)
  next
    case (OHeartbeat m)
    with gone show ?thesis by (auto simp: lease_at_def split: option.splits prod.splits)
  qed (use gone in \<open>auto simp: lease_at_def split: option.splits prod.splits\<close>)
  with Cons.IH [of t'] Cons.prems y show ?case by simp
qed

section \<open>What the loops of an agent do not call\<close>

text \<open>The surroundings of an agent in which registering with the discovery service and writing the
  state file do something else.\<close>

definition altered ::
  "(RegisterPeerRequest \<Rightarrow> 'w \<Rightarrow> RegisterPeerResponse result \<times> 'w) \<Rightarrow> (cliState \<Rightarrow> 'w \<Rightarrow> 'w) \<Rightarrow> 'w agent_env \<Rightarrow> 'w agent_env" where
  "altered reg save E = E\<lparr>ae_rpcs := (ae_rpcs E)\<lparr>rpc_RegisterPeer := reg\<rparr>, ae_saveState := save\<rparr>"

lemma altered_sel [simp]:
  "ae_rpcs (altered reg save E) = (ae_rpcs E)\<lparr>rpc_RegisterPeer := reg\<rparr>" "ae_os (altered reg save E) = ae_os E"
  "ae_peerInfo (altered reg save E) = ae_peerInfo E" "ae_connect (altered reg save E) = ae_connect E"
  "ae_ping (altered reg save E) = ae_ping E" "ae_NewStream (altered reg save E) = ae_NewStream E"
  "ae_listen (altered reg save E) = ae_listen E" "ae_wait (altered reg save E) = ae_wait E"
  "ae_sleep (altered reg save E) = ae_sleep E"
  "ae_order (altered reg save E) = ae_order E"
  by (simp_all add: altered_def)

lemma guarded_altered [simp]: "guarded (R\<lparr>rpc_RegisterPeer := reg\<rparr>) call cb w = guarded R call cb w"
  by (simp add: guarded_def)

lemma calls_altered [simp]:
  "c_Register (R\<lparr>rpc_RegisterPeer := reg\<rparr>) = c_Register R"
  "c_GetPeerPublicKey (R\<lparr>rpc_RegisterPeer := reg\<rparr>) = c_GetPeerPublicKey R"
  "c_DiscoverPeers (R\<lparr>rpc_RegisterPeer := reg\<rparr>) = c_DiscoverPeers R"
  "c_Heartbeat (R\<lparr>rpc_RegisterPeer := reg\<rparr>) = c_Heartbeat R"
  by (simp_all add: fun_eq_iff c_Register_def c_GetPeerPublicKey_def c_DiscoverPeers_def c_Heartbeat_def)

lemma connect_altered [simp]: "connect_peer (altered reg save E) = connect_peer E"
  by (simp add: fun_eq_iff connect_peer_def split: list.split sum.split option.split prod.split)

lemmas branches = prod.split sum.split outcome.split option.split bool.split

lemma online_loop_altered [simp]: "online_loop (altered reg save E) ps on a w = online_loop E ps on a w"
  by (induction ps arbitrary: on a w) (simp_all split: branches)

lemma add_loop_altered [simp]: "add_loop (altered reg save E) cidr ex ps on b a w = add_loop E cidr ex ps on b a w"
proof (induction on arbitrary: b a w)
  case (Cons x on)
  then show ?case by (cases x) (simp add: Let_def split: branches)
qed simp

lemma remove_loop_altered [simp]: "remove_loop (altered reg save E) on as a w = remove_loop E on as a w"
proof (induction as arbitrary: a w)
  case (Cons x as)
  then show ?case by (cases x) (simp split: branches)
qed simp

lemma syncPeers_altered [simp]: "syncPeers (altered reg save E) cidr b a w = syncPeers E cidr b a w"
  by (simp add: syncPeers_def Let_def split: branches)

lemma heartbeat_tick_altered [simp]: "heartbeat_tick (altered reg save E) n a w = heartbeat_tick E n a w"
  by (simp add: heartbeat_tick_def Let_def split: branches)

lemma retry_loop_altered [simp]: "retry_loop (altered reg save E) k pid n i a w = retry_loop E k pid n i a w"
  by (induction n arbitrary: i a w) (simp_all add: Let_def split: branches)

lemma refresh_turn_altered [simp]: "refresh_turn (altered reg save E) pid a w = refresh_turn E pid a w"
  by (simp add: refresh_turn_def retryRegister_def split: branches)

section \<open>Properties\<close>

text \<open>C26. A peer whose lease has once run out is never listed again while its agent goes on. No turn of
  the agent's loops (heartbeats, renewing the token, synchronising) registers with the discovery
  service: each does the same whatever such a call would do. And in any history after the lease
  has run out in which the peer is not registered, a listing does not show it, its heartbeats
  notwithstanding.\<close>

theorem system_lapsed_peer_stays_hidden:
  assumes laws: "redis_laws R live mem up" and up: "up r0"
    and start: "\<And>u n. live u r0 (peerKeyPrefix @ n) = None" "\<And>u. live u r0 peersSetKey = None"
      "\<And>n. mem r0 (peerKeyPrefix @ n) = {}"
    and ttl: "0 < reg_ttl g" and ops: "\<forall>x \<in> set (xs @ ys). op_ok x" "in_order t0 (xs @ ys)"
    and lapsed: "lease_at t (lease_run (reg_ttl g) xs Map.empty) n = None"
    and later: "\<forall>x \<in> set xs. fst x \<le> t" "in_order t ys" "\<forall>x \<in> set ys. fst x \<le> u" "t0 \<le> t" "t \<le> u"
    and silent: "\<forall>x \<in> set ys. \<forall>p. snd x = ORegister p \<longrightarrow> NodeID p \<noteq> n"
  shows "(\<exists>ps r' ms. ListOnlinePeers R u (reg_run R g (xs @ ys) r0) = (Inr ps, r', ms) \<and> n \<notin> NodeID ` set ps)
    \<and> heartbeat_tick (altered reg save E) k a w = heartbeat_tick E k a w
    \<and> refresh_turn (altered reg save E) peerID a w = refresh_turn E peerID a w
    \<and> syncPeers (altered reg save E) cidr b a w = syncPeers E cidr b a w"
proof -
  let ?r = "reg_run R g (xs @ ys) r0" and ?L = "lease_run (reg_ttl g) (xs @ ys) Map.empty"
  have rel0: "reg_rel live mem t0 Map.empty r0" using start by (rule empty_rel)
  have now: "\<forall>x \<in> set (xs @ ys). fst x \<le> u" "t0 \<le> u" using later by auto
  from redis_laws.reg_run_rel [OF laws rel0 up ttl ops now] have upr: "up ?r" and rel: "reg_rel live mem u ?L ?r"
    by simp_all
  have "lease_run ttl (xs @ ys) L = lease_run ttl ys (lease_run ttl xs L)" for ttl L
    by (induction ttl xs L rule: lease_run.induct) simp_all
  then have gone: "lease_at u ?L n = None"
    using lease_run_no_register [OF lapsed silent later(2,3,5)] by simp
  obtain res r' ms where l: "ListOnlinePeers R u ?r = (res, r', ms)" using prod_cases3 by blast
  obtain ps where ps: "res = Inr ps" "set ps = ran (lease_at u ?L)"
    using redis_laws.reg_List_rel [OF laws rel upr l] by metis
  have "n \<notin> NodeID ` set ps"
  proof
    assume "n \<in> NodeID ` set ps"
    then obtain p m where "lease_at u ?L m = Some p" "NodeID p = n" using ps(2) by (auto simp: ran_def)
    with reg_relD(5) [OF rel, of u m p] gone show False by simp
  qed
  with l ps(1) show ?thesis by simp
qed

text \<open>A peer can be online and shown offline. A peer that sends its heartbeats in time is listed,
  but the listing carries the time of its registration; so \<open>gordion peers --json\<close> reports it online
  in the first minute after it registered and offline from then on.\<close>

theorem system_listed_peer_shown_offline:
  assumes laws: "redis_laws R live mem up" and up: "up r0"
    and start: "\<And>u n. live u r0 (peerKeyPrefix @ n) = None" "\<And>u. live u r0 peersSetKey = None"
      "\<And>n. mem r0 (peerKeyPrefix @ n) = {}"
    and ttl: "0 < reg_ttl g" and ok: "peer_ok (stamped t0 p)"
    and gaps: "gaps_below (reg_ttl g) t0 (us @ [now])"
    and range: "0 \<le> unix t0" "unix now < 2 ^ 63"
  shows "\<exists>ps r' ms row. ListOnlinePeers R now
        (reg_run R g ((t0, ORegister p) # map (\<lambda>u. (u, OHeartbeat (NodeID p))) us) r0) = (Inr ps, r', ms)
    \<and> row \<in> set (printPeersJSON now (map proto_peer ps)) \<and> pj_NodeID row = NodeID p
    \<and> pj_Online row = (unix now - unix t0 < 60)"
proof -
  let ?xs = "(t0, ORegister p) # map (\<lambda>u. (u, OHeartbeat (NodeID p))) us"
  let ?L = "lease_run (reg_ttl g) ?xs Map.empty" and ?r = "reg_run R g ?xs r0"
  have rel0: "reg_rel live mem t0 Map.empty r0" using start by (rule empty_rel)
  have xs: "\<forall>x \<in> set ?xs. op_ok x" "in_order t0 ?xs" "\<forall>x \<in> set ?xs. fst x \<le> now" "t0 \<le> now"
    using gaps_below_order [OF gaps] ok by auto
  from redis_laws.reg_run_rel [OF laws rel0 up ttl xs] have upr: "up ?r" and rel: "reg_rel live mem now ?L ?r" by simp_all
  have "lease_at now ?L (NodeID p) = Some (stamped t0 p)"
    using lease_run_heartbeats [of _ "NodeID p" "stamped t0 p" t0 "reg_ttl g" us now] gaps ttl by simp
  then have in_ran: "stamped t0 p \<in> ran (lease_at now ?L)" by (rule ranI)
  obtain res r' ms where l: "ListOnlinePeers R now ?r = (res, r', ms)" using prod_cases3 by blast
  obtain ps where ps: "res = Inr ps" "set ps = ran (lease_at now ?L)"
    using redis_laws.reg_List_rel [OF laws rel upr l] by metis
  have "unix t0 \<le> unix now" using xs(4) by (rule unix_mono)
  with range have "int64 (unix now - unix t0) = unix now - unix t0" by (intro int64_id) simp_all
  moreover have "pp_LastSeen (proto_peer (stamped t0 p)) = unix t0" "pp_NodeId (proto_peer (stamped t0 p)) = NodeID p"
    by (simp_all add: proto_peer_def split: prod.split)
  ultimately show ?thesis using l ps in_ran by (auto simp: printPeersJSON_def)
qed


text \<open>C25. A node chooses what the others route to it. The discovery service takes the address of a
  registration as it comes: for any text without a colon, every listing in time has it as the
  address of the node, and an agent that adds the node (not as its exit node) sends it the
  traffic for that text with \<open>/32\<close> added, so \<open>0.0.0.0/0,10.8.0.9\<close> attracts all traffic.\<close>

theorem system_claimed_address_is_routed:
  assumes "redis_laws R live mem up" "up r" "reg_rel live mem t L r" "0 < reg_ttl (dh_registry h)"
    and "rpq_Token req \<noteq> ''''" "rpq_IpAddress req \<noteq> ''''" "resolveNodeID (dh_authClient h) (rpq_Token req) = Inr n"
      "peer_ok (stamped t (peer_of_request n req))" "- (2 ^ 31) \<le> rpq_Port req" "rpq_Port req < 2 ^ 31"
    and "tokenFromMetadata ctx \<noteq> ''''" "resolveNodeID (dh_authClient h) (tokenFromMetadata ctx) = Inr m"
    and "t \<le> u" "u < t + reg_ttl (dh_registry h)"
    and plain: "CHR '':'' \<notin> set (rpq_IpAddress req)" and other: "n \<noteq> exitNodeID"
  shows "\<exists>ok r1 resp r2 ms p. RegisterPeer R h t req r = (Inr ok, r1)
    \<and> ListPeers R h u ctx \<lparr>lpq_Region = '''', lpq_Limit = 0\<rparr> r1 = (Inr resp, r2, ms)
    \<and> p \<in> set (lpr_Peers resp) \<and> pp_NodeId p = n
    \<and> allowed_ips cidr exitNodeID (pp_NodeId p) (pp_IpAddress p) = rpq_IpAddress req @ ''/32''"
proof -
  from register_then_list [OF assms(1-14), of "''''"] obtain r1 resp r2 ms p where
    "RegisterPeer R h t req r = (Inr \<lparr>rpr_Success = True, rpr_Message = ''peer registered''\<rparr>, r1)"
    "ListPeers R h u ctx \<lparr>lpq_Region = '''', lpq_Limit = 0\<rparr> r1 = (Inr resp, r2, ms)"
    "p \<in> set (lpr_Peers resp)" "pp_NodeId p = n" "pp_IpAddress p = rpq_IpAddress req"
    using plain by auto
  moreover have "allowed_ips cidr exitNodeID n (rpq_IpAddress req) = rpq_IpAddress req @ ''/32''"
    using assms(6) other by (simp add: allowed_ips_def)
  ultimately show ?thesis by fastforce
qed

text \<open>C39. The discovery server's own rate limit at the identity server stops heartbeats. The identity
  server counts the calls of one connection; after 100 validations within a minute a heartbeat
  with any token, however valid, is refused as unauthenticated and does not renew the lease.\<close>

theorem system_validation_throttled:
  assumes "identity_main P unmarshal = Runs (s, srv)"
    and "l = snd (rl_run (map (\<lambda>u. Req u addr) (t # ts)) (gs_limiter srv))" "99 \<le> length ts"
    and "\<forall>u \<in> set ts. u \<le> t + time_Minute" "sv_clock sv \<le> t + time_Minute"
    and "dh_authClient h = Some (wire_ValidateToken code_text J s f addr (l, sv))" "hbq_Token req \<noteq> ''''"
  shows "Heartbeat R h now req r
    = (Inl (Status Unauthenticated ''auth failed'' (Some (Wrapped ''identity service error''
          (Status ResourceExhausted ''rate limit exceeded'' None)))), r)"
proof -
  have "\<not> fst (rl_Allow (sv_clock sv) addr l)"
    unfolding assms(2) identity_main_limiter [OF assms(1)]
    by (rule last_request_refused) (use assms(3-5) in \<open>auto simp: rl_New_def\<close>)
  then have "wire_ValidateToken code_text J s f addr (l, sv) q = rejected" for q
    by (simp add: wire_ValidateToken_def serve_cases limiter_key_def)
  with assms(6,7) show ?thesis
    by (simp add: Heartbeat_def resolveNodeID_def auth_ValidateToken_def rejected_def)
qed

text \<open>With its certificates in place the identity server is out of reach of the others. The
  config and the discovery server always connect to it without TLS; if a client without TLS gets
  only errors from a server with TLS, then, when the identity server has found its certificates,
  the discovery server refuses every registration, listing and heartbeat that carries a token,
  and sends nothing to Redis.\<close>

theorem system_tls_refuses_everyone:
  assumes "identity_main P unmarshal = Runs (s, srv)" and "gs_creds srv \<noteq> Insecure"
    and plaintext: "\<And>addr. gs_creds srv \<noteq> Insecure \<Longrightarrow> \<exists>rpc. pe_dial P addr Insecure = Inr rpc \<and> (\<forall>req. \<exists>e. rpc req = Inl e)"
    and "discovery_main P unmarshal' redis r0 = (Runs (cfg, h, srv'), r1)"
  shows "(\<exists>e. RegisterPeer R h now preq r = (Inl e, r)) \<and> (\<exists>e. ListPeers R h now ctx lreq r = (Inl e, r, []))
    \<and> (\<exists>e. Heartbeat R h now hreq r = (Inl e, r))"
proof -
  from assms(4) have h: "dh_authClient h = identity_client P"
    by (auto simp: discovery_main_def NewDiscoveryHandler_def split: sum.splits prod.splits program.splits)
  obtain rpc where rpc: "identity_client P = Some rpc" "\<And>req. \<exists>e. rpc req = Inl e"
    using plaintext [OF assms(2), of "getenv_or P ''IDENTITY_ADDR'' ''localhost:8001''"]
    by (auto simp: identity_client_def auth_NewClient_def)
  have "\<exists>e. resolveNodeID (dh_authClient h) tok = Inl e" for tok
    using rpc(2) [of "\<lparr>vtq_Token = tok\<rparr>"] by (auto simp: h rpc(1) resolveNodeID_def auth_ValidateToken_def)
  then obtain err where "\<And>tok. resolveNodeID (dh_authClient h) tok = Inl (err tok)" by metis
  then show ?thesis by (simp add: RegisterPeer_def ListPeers_def Heartbeat_def Let_def)
qed

text \<open>The CLI is locked out when the first token expires. The agent renews its token but the turn
  that does so writes no state file, so the CLI goes on with the first token; once the identity
  service no longer accepts it, the commands that list peers fail.\<close>

theorem system_cli_token_goes_stale:
  assumes "\<And>md q v. cq_ListPeers Q addr md q v
      = fst (ListPeers R h now \<lparr>ctx_metadata = Some (\<lambda>k. [x. (k', x) \<leftarrow> md, k' = k]), ctx_value = Map.empty\<rparr> q r)"
    and "dh_authClient h = Some (\<lambda>q. fst (idh_ValidateToken J s f now q d))"
    and row: "find (\<lambda>t. t_Token t = TrimPrefix (saved_token CE w) ''Bearer '') (db_tokens d) = Some t" "t_ExpiresAt t < now"
    and "cli_Load CE unmarshal cfgFile w = Inr cfg" "cg_DiscoveryAddr cfg = addr" "cq_Dial Q addr = None"
    and "f = NoFault"
  shows "(\<exists>e. fetch_peers CE Q unmarshal cfgFile limit w = Inl (Wrapped ''ListPeers'' e))
    \<and> refresh_turn (altered reg save E) peerID a v = refresh_turn E peerID a v"
proof -
  let ?tok = "TrimPrefix (saved_token CE w) ''Bearer ''"
  have expired: "GetTokenByValue f ?tok d = Inr t"
    using row(1) assms(8) by (simp add: GetTokenByValue_def run_query_def)
  have "\<not> (\<exists>n ms. ids_ValidateToken J s f now ?tok d = (Inr (n, True), ms))"
    using expired row(2) by (auto simp: ids_ValidateToken_def split: sum.splits option.splits claim.splits)
  then have "\<exists>e. resolveNodeID (dh_authClient h) ?tok = Inl e"
    by (auto simp: assms(2) resolveNodeID_def auth_ValidateToken_def idh_ValidateToken_def
        split: sum.split prod.split)
  then show ?thesis
    using assms(1,5-7)
    by (auto simp: fetch_peers_def ContextWithToken_def ListPeers_def tokenFromMetadata_def Let_def)
qed

section \<open>The properties at work\<close>

abbreviation demo_altered :: "instant agent_env" where
  "demo_altered \<equiv> altered (\<lambda>q w. (Inl (Plain ''not called''), w)) (\<lambda>s w. w) (Agent.demo_env [])"

theorem system_lapsed_peer_stays_hidden_witness:
  "(\<exists>ps r' ms. ListOnlinePeers mem_redis (50 * time_Second) (reg_run mem_redis demo_reg
        ([(0, ORegister demo_peer)] @ [(40 * time_Second, OHeartbeat (NodeID demo_peer))]) db_empty) = (Inr ps, r', ms)
      \<and> NodeID demo_peer \<notin> NodeID ` set ps)
    \<and> heartbeat_tick demo_altered 1 (demo_agent []) 0 = heartbeat_tick (Agent.demo_env []) 1 (demo_agent []) 0
    \<and> refresh_turn demo_altered '''' (demo_agent []) 0 = refresh_turn (Agent.demo_env []) '''' (demo_agent []) 0
    \<and> syncPeers demo_altered ''10.8.0.0/24'' (NewBridge ''h'' 51820 51920) (demo_agent []) 0
      = syncPeers (Agent.demo_env []) ''10.8.0.0/24'' (NewBridge ''h'' 51820 51920) (demo_agent []) 0"
  by (rule system_lapsed_peer_stays_hidden [OF mem_store.redis_laws_axioms, where ?t0.0 = 0 and t = "40 * time_Second"])
    (simp_all add: demo_start demo_peer_ok unix_def time_Second_def lease_at_def stamped_def demo_peer_ok [of 0, unfolded stamped_def unix_def, simplified])

theorem system_listed_peer_shown_offline_witness:
  "\<exists>ps r' ms row. ListOnlinePeers mem_redis (80 * time_Second) (reg_run mem_redis demo_reg
        ((0, ORegister demo_peer) # map (\<lambda>u. (u, OHeartbeat (NodeID demo_peer)))
           [20 * time_Second, 40 * time_Second, 60 * time_Second]) db_empty) = (Inr ps, r', ms)
    \<and> row \<in> set (printPeersJSON (80 * time_Second) (map proto_peer ps)) \<and> pj_NodeID row = NodeID demo_peer
    \<and> pj_Online row = (unix (80 * time_Second) - unix 0 < 60)"
  by (rule system_listed_peer_shown_offline [OF mem_store.redis_laws_axioms])
    (simp_all add: demo_start demo_peer_ok unix_def time_Second_def)


theorem system_claimed_address_is_routed_witness:
  "\<exists>ok r1 resp r2 ms p.
      RegisterPeer mem_redis demo_dsc 0 (demo_req\<lparr>rpq_IpAddress := ''0.0.0.0/0,10.8.0.9''\<rparr>) db_empty = (Inr ok, r1)
    \<and> ListPeers mem_redis demo_dsc 5 demo_ctx \<lparr>lpq_Region = '''', lpq_Limit = 0\<rparr> r1 = (Inr resp, r2, ms)
    \<and> p \<in> set (lpr_Peers resp) \<and> pp_NodeId p = ''abcdefgh''
    \<and> allowed_ips ''10.8.0.0/24'' '''' (pp_NodeId p) (pp_IpAddress p) = ''0.0.0.0/0,10.8.0.9/32''"
proof -
  let ?req = "demo_req\<lparr>rpq_IpAddress := ''0.0.0.0/0,10.8.0.9''\<rparr>"
  have "utf8_valid ''abcdefgh''" "utf8_valid (''0.0.0.0/0,10.8.0.9:'' @ itoa 51820)" "utf8_valid ''1.0.0''" "utf8_valid ''''"
    by (intro utf8_valid_ascii; simp add: itoa_def dec_nat.simps)+
  then have ok: "peer_ok (stamped 0 (peer_of_request ''abcdefgh'' ?req))"
    by (simp add: peer_ok_def stamped_def peer_of_request_def unix_def)
  have rel: "reg_rel db_live db_mem 0 Map.empty db_empty" by (rule empty_rel) (simp_all add: demo_start)
  show ?thesis
    using system_claimed_address_is_routed [OF mem_store.redis_laws_axioms _ rel, of demo_dsc ?req "''abcdefgh''" demo_ctx
        "''12345678''" 5 "''''" "''10.8.0.0/24''"] ok
    by (simp add: demo_start NewDiscoveryHandler_def time_Second_def resolveNodeID_def tokenFromMetadata_def
        TrimPrefix_def unix_def)
qed

text \<open>Programs that find their certificates, or none.\<close>

definition demo_programs :: "bool \<Rightarrow> identity_rpc \<Rightarrow> program_env" where
  "demo_programs certs rpc = \<lparr>pe_ReadFile = (\<lambda>p. Inr p), pe_exists = (\<lambda>p. certs), pe_getenv = (\<lambda>k. ''''),
     pe_LoadX509KeyPair = (\<lambda>c k. Inr c), pe_AppendCertsFromPEM = (\<lambda>c. Some c), pe_dial = (\<lambda>a c. Inr rpc),
     pe_db = (\<lambda>u. None), pe_ping = (\<lambda>u. None), pe_listen = (\<lambda>a. None)\<rparr>"

definition demo_identity_Config :: ids_Config where
  "demo_identity_Config = \<lparr>ic_GRPCPort = 8001, ic_DatabaseURL = ''db'', ic_LogLevel = ''info'', ic_JWTSecret = ''jwt'',
     ic_TokenDuration = 24, ic_NetworkSecret = ''net''\<rparr>"

definition demo_discovery_Config :: dsc_Config where
  "demo_discovery_Config = \<lparr>ds_GRPCPort = 8002, ds_RedisURL = '''', ds_LogLevel = '''', ds_HeartbeatTTL = 30\<rparr>"

lemma demo_identity_main:
  "\<exists>creds. identity_main (demo_programs certs rpc) (\<lambda>t. Inr demo_identity_Config)
      = Runs (demo_service, \<lparr>gs_creds = creds, gs_addr = '':'' @ itoa 8001, gs_limiter = rl_New 100 time_Minute\<rparr>)
    \<and> (certs \<longrightarrow> creds \<noteq> Insecure)"
  by (simp add: identity_main_def storage_New_def demo_programs_def demo_identity_Config_def ids_LoadFromEnv_def ids_Load_def
      ids_Validate_def start_server_def getenv_or_def ServerCredentials_def demo_service_def Let_def)

theorem system_validation_throttled_witness:
  "\<exists>l. Heartbeat mem_redis (NewDiscoveryHandler demo_reg
      (Some (wire_ValidateToken (\<lambda>e. ''Unknown'') demo_jwt demo_service NoFault ''10.0.0.5:4711''
         (l, \<lparr>sv_clock = 30 * time_Second, sv_random = (\<lambda>n. 0), sv_log = [], sv_metrics = [], sv_state = demo_db\<rparr>))))
      0 \<lparr>hbq_Token = demo_token ''n'' 86400, hbq_Bandwidth = 0\<rparr> db_empty
    = (Inl (Status Unauthenticated ''auth failed'' (Some (Wrapped ''identity service error''
          (Status ResourceExhausted ''rate limit exceeded'' None)))), db_empty)"
proof -
  obtain creds where main: "identity_main (demo_programs True (\<lambda>q. Inl (Plain ''closed''))) (\<lambda>t. Inr demo_identity_Config)
      = Runs (demo_service, \<lparr>gs_creds = creds, gs_addr = '':'' @ itoa 8001, gs_limiter = rl_New 100 time_Minute\<rparr>)"
    using demo_identity_main [of True] by blast
  show ?thesis
    by (intro exI, rule system_validation_throttled [OF main refl, where t = 0 and ts = "replicate 99 0"])
      (simp_all add: time_Minute_def time_Second_def NewDiscoveryHandler_def demo_token_n)
qed

theorem system_tls_refuses_everyone_witness:
  "\<exists>h. (\<exists>e. RegisterPeer mem_redis h 0 demo_req db_empty = (Inl e, db_empty))
    \<and> (\<exists>e. ListPeers mem_redis h 0 demo_ctx \<lparr>lpq_Region = '''', lpq_Limit = 0\<rparr> db_empty = (Inl e, db_empty, []))
    \<and> (\<exists>e. Heartbeat mem_redis h 0 \<lparr>hbq_Token = ''12345678'', hbq_Bandwidth = 0\<rparr> db_empty = (Inl e, db_empty))"
proof -
  let ?P = "demo_programs True (\<lambda>q. Inl (Plain ''closed''))"
  obtain creds where main: "identity_main ?P (\<lambda>t. Inr demo_identity_Config)
      = Runs (demo_service, \<lparr>gs_creds = creds, gs_addr = '':'' @ itoa 8001, gs_limiter = rl_New 100 time_Minute\<rparr>)"
    and creds: "creds \<noteq> Insecure"
    using demo_identity_main [of True] by blast
  have "\<exists>cfg h srv r1. discovery_main ?P (\<lambda>t. Inr demo_discovery_Config) (\<lambda>u. mem_redis) db_empty = (Runs (cfg, h, srv), r1)"
    by (simp add: discovery_main_def demo_programs_def demo_discovery_Config_def dsc_Load_def dsc_setDefaults_def
        start_server_def getenv_or_def ServerCredentials_def reg_New_def mem_redis_def Let_def db_empty_def attempt_def next_faults_def)
  then obtain cfg h srv r1 where disc:
    "discovery_main ?P (\<lambda>t. Inr demo_discovery_Config) (\<lambda>u. mem_redis) db_empty = (Runs (cfg, h, srv), r1)" by blast
  show ?thesis
    by (intro exI [of _ h], rule system_tls_refuses_everyone [OF main _ _ disc])
      (simp_all add: creds demo_programs_def)
qed

definition demo_calls :: "host cli_calls" where
  "demo_calls = \<lparr>cq_Dial = (\<lambda>a. None),
     cq_ListPeers = (\<lambda>a md q w. fst (ListPeers mem_redis (NewDiscoveryHandler demo_reg
        (Some (\<lambda>v. fst (idh_ValidateToken demo_jwt demo_service NoFault 86400000000001 v demo_db)))) 86400000000001
        \<lparr>ctx_metadata = Some (\<lambda>k. [x. (k', x) \<leftarrow> md, k' = k]), ctx_value = Map.empty\<rparr> q db_empty)),
     cq_ValidateToken = (\<lambda>a q w. Inl (Plain ''closed'')), cq_GetConfig = (\<lambda>a q w. Inl (Plain ''closed'')),
     cq_ListenUDP = (\<lambda>a w. None), cq_ListenTCP = (\<lambda>a w. None), cq_Error = (\<lambda>e. '''')\<rparr>"

definition stale_host :: host where
  "stale_host = empty_host\<lparr>ho_state := Some (zero_cliState\<lparr>cs_Token := demo_token ''n'' 86400\<rparr>)\<rparr>"

theorem system_cli_token_goes_stale_witness:
  "(\<exists>e. fetch_peers (host_env None) demo_calls (\<lambda>t. Inr demo_cli_Config) ''agent.yaml'' 50 stale_host
      = Inl (Wrapped ''ListPeers'' e))
    \<and> refresh_turn demo_altered '''' (demo_agent []) 0 = refresh_turn (Agent.demo_env []) '''' (demo_agent []) 0"
proof -
  have tok: "saved_token (host_env None) stale_host = demo_token ''n'' 86400"
    by (simp add: saved_token_def saved_state_def state_Read_def host_env_def stale_host_def)
  have load: "cli_Load (host_env None) (\<lambda>t. Inr demo_cli_Config) ''agent.yaml'' stale_host = Inr (cli_applyDefaults demo_cli_Config)"
    by (simp add: cli_Load_def host_env_def)
  show ?thesis
    by (rule system_cli_token_goes_stale [where R = mem_redis and r = db_empty and now = 86400000000001 and d = demo_db
          and J = demo_jwt and s = demo_service and f = NoFault and Q = demo_calls
          and h = "NewDiscoveryHandler demo_reg (Some (\<lambda>v. fst (idh_ValidateToken demo_jwt demo_service NoFault 86400000000001 v demo_db)))"
          and t = "hd (db_tokens demo_db)", OF _ _ _ _ load])
      (simp_all add: demo_calls_def NewDiscoveryHandler_def tok demo_db_def demo_token_n TrimPrefix_def)
qed


section \<open>Stopping an agent that waits\<close>

context cli_host
begin

text \<open>While the agent on record does not end, the wait goes on until its deadline.\<close>

lemma wait_loop_busy:
  "(\<And>j. j \<le> m \<Longrightarrow> cs_PID s \<in> agents ((cl_sleep E poll_interval ^^ j) w)) \<Longrightarrow>
   deadline \<le> cl_now E w + int m * poll_interval \<Longrightarrow>
   \<exists>j \<le> m. wait_loop E s deadline w = Some ((cl_sleep E poll_interval ^^ j) w)"
proof (induction m arbitrary: w)
  case 0
  then have "wait_loop E s deadline w = Some w" by (subst wait_loop.simps) simp
  then show ?case by simp
next
  case (Suc m)
  let ?w = "cl_sleep E poll_interval w"
  have again: "(cl_sleep E poll_interval ^^ j) ?w = (cl_sleep E poll_interval ^^ Suc j) w" for j
    by (simp only: funpow_Suc_right comp_apply)
  show ?case
  proof (cases "cl_now E w < deadline")
    case True
    have "IsRunning E (Some s) w" using Suc.prems(1) [of 0] by (simp add: running_iff)
    then have turn: "wait_loop E s deadline w = wait_loop E s deadline ?w" using True by (subst wait_loop.simps) simp
    have "\<exists>j \<le> m. wait_loop E s deadline ?w = Some ((cl_sleep E poll_interval ^^ j) ?w)"
    proof (rule Suc.IH)
      show "cs_PID s \<in> agents ((cl_sleep E poll_interval ^^ j) ?w)" if "j \<le> m" for j
        unfolding again by (rule Suc.prems(1)) (use that in simp)
      show "deadline \<le> cl_now E ?w + int m * poll_interval"
        using Suc.prems(2) sleep(1) [of w poll_interval] by (simp add: algebra_simps)
    qed
    then show ?thesis unfolding turn again by (meson Suc_le_mono)
  next
    case False
    then have "wait_loop E s deadline w = Some ((cl_sleep E poll_interval ^^ 0) w)" by (subst wait_loop.simps) simp
    then show ?thesis by blast
  qed
qed

lemma down_kills_busy:
  assumes "saved w = Some s" "cs_PID s \<in> agents w" "cl_interrupt E (cs_PID s) w = (err, w1)"
    and "\<And>j. j \<le> 34 \<Longrightarrow> cs_PID s \<in> agents ((cl_sleep E poll_interval ^^ j) w1)"
  shows "\<exists>out w'. down_cmd E w = Some (None, out, w') \<and> OutWarn ''Agent did not stop gracefully'' \<in> set out
    \<and> cs_PID s \<notin> agents w'"
proof -
  have run: "IsRunning E (Some s) w" using assms(2) by (simp add: running_iff)
  have "cl_now E w1 + 10 * time_Second \<le> cl_now E w1 + int 34 * poll_interval" by (simp add: time_Second_def poll_interval_def)
  from wait_loop_busy [OF assms(4) this] obtain j where j: "j \<le> 34"
    and l: "wait_loop E s (cl_now E w1 + 10 * time_Second) w1 = Some ((cl_sleep E poll_interval ^^ j) w1)" by blast
  let ?w2 = "(cl_sleep E poll_interval ^^ j) w1"
  have run2: "IsRunning E (Some s) ?w2" using assms(4) [OF j] by (simp add: running_iff)
  obtain out2 w3 where f: "finish_down E s ?w2 = (out2, w3)" by fastforce
  have "OutWarn ''Agent did not stop gracefully'' \<in> set out2" "cs_PID s \<notin> agents w3"
    using f run2 finish_down_ok(1) [of s ?w2] finish_down_ok [of s ?w2] by (auto simp: finish_down_def Let_def split: prod.splits)
  with run find [OF assms(2)] interrupt [OF assms(2,3)] assms(1,3) l f show ?thesis
    by (auto simp: down_cmd_def)
qed

end

lemma heartbeat_backoff_long: "3 \<le> n \<Longrightarrow> 16 * time_Second \<le> heartbeat_backoff (n + 1)"
proof -
  assume "3 \<le> n"
  then have "4 * 4 \<le> (n + 1) * (n + 1)" by (intro mult_mono) simp_all
  then show ?thesis by (simp add: heartbeat_backoff_def time_Second_def)
qed


definition backoff_host :: host where
  "backoff_host = \<lparr>ho_now = 0, ho_state = Some (zero_cliState\<lparr>cs_PID := 7\<rparr>), ho_agents = [7], ho_next = 7, ho_stopping = None\<rparr>"

lemma backoff_host_sleeps: "j \<le> 60 \<Longrightarrow>
  7 \<in> host_agents ((host_sleep d ^^ j) (backoff_host\<lparr>ho_stopping := Some (7, 60)\<rparr>))
  \<and> ho_stopping ((host_sleep d ^^ j) (backoff_host\<lparr>ho_stopping := Some (7, 60)\<rparr>)) = (Some (7, 60 - j))"
proof (induction j)
  case 0
  show ?case by (simp add: backoff_host_def host_agents_def)
next
  case (Suc j)
  moreover have "60 - j = Suc (60 - Suc j)" using Suc.prems by simp
  ultimately show ?case by (auto simp: host_sleep_def host_agents_def)
qed


end
