(* ===== verification/Metrics.thy ===== *)
theory Metrics
  imports Prelude
begin

text \<open>
  The collectors that the services register with Prometheus (\<open>src/pkg/metrics/metrics.go\<close>): their
  names, kinds and label names. The client library panics when two collectors have one name and
  when a call gives another number of label values than the collector has labels; a call of a
  method that the kind does not have is a type error there. Help texts and the buckets of the
  histograms are left out.
\<close>

datatype collector_kind = Counter | Gauge | Histogram

record collector =
  co_name :: string
  co_kind :: collector_kind
  co_labels :: "string list"

definition RequestsTotal :: collector where
  "RequestsTotal = \<lparr>co_name = ''gordion_grpc_requests_total'', co_kind = Counter,
     co_labels = [''service'', ''method'', ''status'']\<rparr>"

definition RequestDuration :: collector where
  "RequestDuration = \<lparr>co_name = ''gordion_grpc_request_duration_seconds'', co_kind = Histogram,
     co_labels = [''service'', ''method'']\<rparr>"

definition ActiveConnections :: collector where
  "ActiveConnections = \<lparr>co_name = ''gordion_active_connections'', co_kind = Gauge, co_labels = [''service'']\<rparr>"

definition DBQueriesTotal :: collector where
  "DBQueriesTotal = \<lparr>co_name = ''gordion_db_queries_total'', co_kind = Counter,
     co_labels = [''service'', ''operation'', ''status'']\<rparr>"

definition DBQueryDuration :: collector where
  "DBQueryDuration = \<lparr>co_name = ''gordion_db_query_duration_seconds'', co_kind = Histogram,
     co_labels = [''service'', ''operation'']\<rparr>"

definition ActivePeers :: collector where
  "ActivePeers = \<lparr>co_name = ''gordion_active_peers_total'', co_kind = Gauge, co_labels = [''is_exit_node'']\<rparr>"

text \<open>The two without labels are plain collectors.\<close>

definition AllocatedIPs :: collector where
  "AllocatedIPs = \<lparr>co_name = ''gordion_allocated_ips_total'', co_kind = Gauge, co_labels = []\<rparr>"

definition TokensIssuedTotal :: collector where
  "TokensIssuedTotal = \<lparr>co_name = ''gordion_jwt_tokens_issued_total'', co_kind = Counter, co_labels = []\<rparr>"

definition AuthFailuresTotal :: collector where
  "AuthFailuresTotal = \<lparr>co_name = ''gordion_auth_failures_total'', co_kind = Counter, co_labels = [''reason'']\<rparr>"

definition collectors :: "collector list" where
  "collectors = [RequestsTotal, RequestDuration, ActiveConnections, DBQueriesTotal, DBQueryDuration, ActivePeers,
     AllocatedIPs, TokensIssuedTotal, AuthFailuresTotal]"

lemmas collector_defs = RequestsTotal_def RequestDuration_def ActiveConnections_def DBQueriesTotal_def
  DBQueryDuration_def ActivePeers_def AllocatedIPs_def TokensIssuedTotal_def AuthFailuresTotal_def

fun accepts :: "collector \<Rightarrow> metric_call \<Rightarrow> bool" where
  "accepts c (Inc n ls) = (n = co_name c \<and> co_kind c \<noteq> Histogram \<and> length ls = length (co_labels c))"
| "accepts c (Dec n ls) = (n = co_name c \<and> co_kind c = Gauge \<and> length ls = length (co_labels c))"
| "accepts c (SetGauge n ls v) = (n = co_name c \<and> co_kind c = Gauge \<and> length ls = length (co_labels c))"
| "accepts c (Observe n ls d) = (n = co_name c \<and> co_kind c = Histogram \<and> length ls = length (co_labels c))"

definition well_typed :: "metric_call \<Rightarrow> bool" where
  "well_typed m \<longleftrightarrow> (\<exists>c \<in> set collectors. accepts c m)"

lemma well_typed_simps [simp]:
  "well_typed (Inc ''gordion_grpc_requests_total'' [a, b, c])"
  "well_typed (Observe ''gordion_grpc_request_duration_seconds'' [a, b] d)"
  "well_typed (Inc ''gordion_active_connections'' [a])"
  "well_typed (Dec ''gordion_active_connections'' [a])"
  "well_typed (Inc ''gordion_db_queries_total'' [a, b, c])"
  "well_typed (Observe ''gordion_db_query_duration_seconds'' [a, b] d)"
  "well_typed (SetGauge ''gordion_active_peers_total'' [a] v)"
  "well_typed (SetGauge ''gordion_allocated_ips_total'' [] v)"
  "well_typed (Inc ''gordion_jwt_tokens_issued_total'' [])"
  "well_typed (Inc ''gordion_auth_failures_total'' [a])"
  by (simp_all add: well_typed_def collectors_def collector_defs)

lemma collectors_distinct: "distinct (map co_name collectors)"
  by (simp add: collectors_def collector_defs)

end
