(* ===== verification/Telemetry.thy ===== *)
theory Telemetry
  imports Metrics Server Config_Service Discovery_Service Identity
begin

text \<open>
  The metric calls of the services against the collectors they are made on. Every handler of the
  three services, the wrapper of the identity storage, the matcher of the discovery service and
  the request metrics are covered; no call can panic for its labels.
\<close>

section \<open>The copies of the request metrics\<close>

text \<open>Each service has its own copy of \<open>MetricsInterceptor\<close>; those of the config and of the discovery
  service follow, in the same words as the one of the identity service.\<close>

definition config_MetricsInterceptor ::
  "(go_error \<Rightarrow> string) \<Rightarrow> string \<Rightarrow> string \<Rightarrow> ('s, 'a) handler \<Rightarrow> ('s, 'a) handler" where
  "config_MetricsInterceptor code_text serviceName method handler ctx s =
     (let start = sv_clock s in
      case handler ctx (put_metric (Inc ''gordion_active_connections'' [serviceName]) s) of
        (resp, s1) \<Rightarrow>
          (let duration = sv_clock s1 - start;
               statusLabel = (case resp of Inl err \<Rightarrow> code_text err | Inr _ \<Rightarrow> ''success'') in
           (resp,
            put_metric (Dec ''gordion_active_connections'' [serviceName])
              (put_metric (Observe ''gordion_grpc_request_duration_seconds'' [serviceName, method] duration)
                (put_metric (Inc ''gordion_grpc_requests_total'' [serviceName, method, statusLabel]) s1)))))"

definition discovery_MetricsInterceptor ::
  "(go_error \<Rightarrow> string) \<Rightarrow> string \<Rightarrow> string \<Rightarrow> ('s, 'a) handler \<Rightarrow> ('s, 'a) handler" where
  "discovery_MetricsInterceptor code_text serviceName method handler ctx s =
     (let start = sv_clock s in
      case handler ctx (put_metric (Inc ''gordion_active_connections'' [serviceName]) s) of
        (resp, s1) \<Rightarrow>
          (let duration = sv_clock s1 - start;
               statusLabel = (case resp of Inl err \<Rightarrow> code_text err | Inr _ \<Rightarrow> ''success'') in
           (resp,
            put_metric (Dec ''gordion_active_connections'' [serviceName])
              (put_metric (Observe ''gordion_grpc_request_duration_seconds'' [serviceName, method] duration)
                (put_metric (Inc ''gordion_grpc_requests_total'' [serviceName, method, statusLabel]) s1)))))"

lemma MetricsInterceptor_copies:
  "config_MetricsInterceptor = MetricsInterceptor" "discovery_MetricsInterceptor = MetricsInterceptor"
  by (simp_all add: fun_eq_iff config_MetricsInterceptor_def discovery_MetricsInterceptor_def MetricsInterceptor_def)

section \<open>The calls of each operation\<close>

abbreviation typed :: "metric_call list \<Rightarrow> bool" where
  "typed ms \<equiv> \<forall>m \<in> set ms. well_typed m"

lemma report_count_typed: "report_count R now r = (r', ms) \<Longrightarrow> typed ms"
  by (auto simp: report_count_def split: prod.splits)

lemma AllocateIP_typed: "AllocateIP R a now n r = Some (x, r', ms) \<Longrightarrow> typed ms"
  by (auto simp: AllocateIP_def assign_ip_def split: prod.splits sum.splits option.splits dest: report_count_typed)

lemma ReleaseIP_typed: "ReleaseIP R now n ip r = (x, r', ms) \<Longrightarrow> typed ms"
  by (auto simp: ReleaseIP_def split: prod.splits option.splits dest: report_count_typed)

lemma ListOnlinePeers_typed: "ListOnlinePeers R now r = (x, r', ms) \<Longrightarrow> typed ms"
  by (auto simp: ListOnlinePeers_def split: prod.splits sum.splits)

lemma config_typed:
  "cfg_RequestIP R h now q1 r = Some (x1, r', ms) \<Longrightarrow> typed ms"
  "cfg_ReleaseIP R h now q2 r = (x2, r', ms) \<Longrightarrow> typed ms"
  by (auto simp: cfg_RequestIP_def cfg_ReleaseIP_def split: if_splits sum.splits prod.splits option.splits
      dest: AllocateIP_typed ReleaseIP_typed)

lemma discovery_typed:
  "ListPeers R h now ctx q r = (x1, r', ms) \<Longrightarrow> typed ms"
  "FindPeer R pick now n r = (x2, r', ms) \<Longrightarrow> typed ms"
  by (auto simp: ListPeers_def FindPeer_def Let_def split: if_splits sum.splits prod.splits dest: ListOnlinePeers_typed)

lemma identity_typed:
  "typed (snd (snd (idh_RegisterNode J s e q1 d)))"
  "typed (snd (idh_ValidateToken J s f now q2 d))"
  "typed (snd (snd (CreateNodeWithMetrics f i now t1 t2 k v p d)))"
  by (auto simp: idh_RegisterNode_def RegisterNode_def idh_ValidateToken_def ids_ValidateToken_def auth_failure_def
      CreateNodeWithMetrics_def recordDBMetrics_def Let_def
      split: if_splits sum.splits prod.splits option.splits claim.splits)

section \<open>Properties\<close>

text \<open>C22. No metric call can panic. The collectors have distinct names, and every call that a handler of
  the services makes, in whatever state and on whatever branch, as well as the calls of the
  storage wrapper, of the matcher and of the interceptors around a handler, is one that a
  registered collector has, with as many label values as the collector has labels.\<close>

theorem metric_calls_well_typed:
  shows "distinct (map co_name collectors)
    \<and> list_all well_typed (snd (snd (idh_RegisterNode J s e q1 d)))
    \<and> list_all well_typed (snd (idh_ValidateToken J s f now q2 d))
    \<and> list_all well_typed (snd (snd (CreateNodeWithMetrics f i now t1 t2 k v p d)))
    \<and> list_all well_typed (snd (snd (ListPeers R dh now ctx q3 r)))
    \<and> list_all well_typed (snd (snd (FindPeer R pick now n r)))
    \<and> list_all well_typed (snd (snd (cfg_ReleaseIP R ch now q4 r)))
    \<and> pred_option (\<lambda>x. list_all well_typed (snd (snd x))) (cfg_RequestIP R ch now q5 r)
    \<and> list_all well_typed (sv_metrics (snd (MetricsInterceptor code_text service method (\<lambda>c s. (resp, s)) ctx
          \<lparr>sv_clock = now, sv_random = rnd, sv_log = [], sv_metrics = [], sv_state = st\<rparr>)))"
proof -
  have "list_all well_typed (sv_metrics (snd (MetricsInterceptor code_text service method (\<lambda>c s. (resp, s)) ctx
          \<lparr>sv_clock = now, sv_random = rnd, sv_log = [], sv_metrics = [], sv_state = st\<rparr>)))"
    by (simp add: MetricsInterceptor_def Let_def put_metric_def split: prod.split)
  moreover have "pred_option (\<lambda>x. list_all well_typed (snd (snd x))) (cfg_RequestIP R ch now q5 r)"
    by (cases "cfg_RequestIP R ch now q5 r") (auto simp: list_all_iff dest: config_typed(1))
  moreover have "list_all well_typed (snd (snd (cfg_ReleaseIP R ch now q4 r)))"
    by (cases "cfg_ReleaseIP R ch now q4 r") (auto simp: list_all_iff dest: config_typed(2))
  moreover have "list_all well_typed (snd (snd (ListPeers R dh now ctx q3 r)))"
    by (cases "ListPeers R dh now ctx q3 r") (auto simp: list_all_iff dest: discovery_typed(1))
  moreover have "list_all well_typed (snd (snd (FindPeer R pick now n r)))"
    by (cases "FindPeer R pick now n r") (auto simp: list_all_iff dest: discovery_typed(2))
  ultimately show ?thesis using identity_typed collectors_distinct by (auto simp: list_all_iff)
qed

end
