(* ===== verification/CLI_Root.thy ===== *)
theory CLI_Root
  imports CLI_Query
begin

text \<open>
  The root of the CLI (\<open>src/cli/cmd/root.go\<close>, \<open>src/cli/main.go\<close>): the exit code of a command, and the
  help pages (\<open>src/cli/cmd/help.go\<close>) as the lines they have. What cobra says of a command (its path,
  its subcommands, the text of its flags) is data here; colours and padding are left out.
\<close>

section \<open>Executing a command\<close>

text \<open>The exit code, and the error that is printed.\<close>

definition cli_Execute :: "go_error option \<Rightarrow> int \<times> go_error option" where
  "cli_Execute result = (case result of None \<Rightarrow> (0, None) | Some err \<Rightarrow> (1, Some err))"

section \<open>Help pages\<close>

record sub_command =
  sc_name :: string
  sc_short :: string
  sc_hidden :: bool

record command_info =
  ci_short :: string
  ci_useLine :: string
  ci_path :: string
  ci_available :: bool
  ci_subs :: "sub_command list"
  ci_local :: "string option"
  ci_inherited :: "string option"

text \<open>\<open>setupHelp\<close> hides two commands of the root; the help functions it sets all render alike.\<close>

definition setupHelp :: "command_info \<Rightarrow> command_info" where
  "setupHelp c = c\<lparr>ci_subs := map (\<lambda>s. if sc_name s = ''completion'' \<or> sc_name s = ''help'' then s\<lparr>sc_hidden := True\<rparr> else s)
     (ci_subs c)\<rparr>"

datatype help_line =
    HBlank
  | HTitle string
  | HShort string
  | HUsage string
  | HRule string int
  | HCommand int string string
  | HFlag string string
  | HText string

definition helpWidth :: int where
  "helpWidth = 72"

text \<open>The heading of a box with the number of dashes after it, and its content.\<close>

definition printBox :: "string \<Rightarrow> help_line list \<Rightarrow> help_line list" where
  "printBox title content =
     (let labelLen = 2 + int (length title) + 2; dashes = helpWidth - labelLen;
          dashes = (if dashes < 4 then 4 else dashes) in
      HRule title dashes # content)"

definition TrimRight :: "char \<Rightarrow> string \<Rightarrow> string" where
  "TrimRight c s = rev (dropWhile (\<lambda>x. x = c) (rev s))"

text \<open>\<open>strings.Index\<close>.\<close>

fun str_Index :: "string \<Rightarrow> string \<Rightarrow> nat option" where
  "str_Index [] k = (if k = [] then Some 0 else None)"
| "str_Index (c # cs) k = (if take (length k) (c # cs) = k then Some 0 else map_option Suc (str_Index cs k))"

fun flag_line :: "string \<Rightarrow> help_line list" where
  "flag_line line =
     (let trimmed = TrimSpace line in
      if trimmed = '''' then []
      else if Contains trimmed ''--help'' then []
      else case str_Index trimmed ''   '' of
        Some (Suc i) \<Rightarrow> [HFlag (TrimSpace (take (Suc i) trimmed)) (TrimSpace (drop (Suc i) trimmed))]
      | _ \<Rightarrow> [HText trimmed])"

definition printFlagLines :: "string \<Rightarrow> help_line list" where
  "printFlagLines usage = concat (map flag_line (split_on (CHR 0x0A) (TrimRight (CHR 0x0A) usage)))"

definition maxCmdLen :: "sub_command list \<Rightarrow> int" where
  "maxCmdLen cmds = fold (\<lambda>c m. if \<not> sc_hidden c \<and> int (length (sc_name c)) > m then int (length (sc_name c)) else m) cmds 0"

definition command_lines :: "sub_command list \<Rightarrow> help_line list" where
  "command_lines subs =
     map (\<lambda>s. HCommand (maxCmdLen subs + 2) (sc_name s) (sc_short s))
       (filter (\<lambda>s. \<not> (sc_hidden s \<or> sc_name s = ''completion'' \<or> sc_name s = ''help'')) subs)"

definition renderHelp :: "string \<Rightarrow> command_info \<Rightarrow> help_line list" where
  "renderHelp version c =
     [HBlank, HTitle version, HShort (ci_short c), HBlank,
      HUsage (if ci_available c then ci_path c @ '' [command]'' else ci_useLine c), HBlank]
     @ (if ci_available c then printBox ''Commands'' (command_lines (ci_subs c)) else [])
     @ (case ci_local c of Some usages \<Rightarrow> printBox ''Options'' (printFlagLines usages) | None \<Rightarrow> [])
     @ (case ci_inherited c of Some usages \<Rightarrow> printBox ''Global Options'' (printFlagLines usages) | None \<Rightarrow> [])
     @ (if ci_available c
        then [HText (''Run '' @ [CHR 0x22] @ ci_path c @ '' [command] --help'' @ [CHR 0x22] @ '' for more information.'')] else [])
     @ [HBlank]"

text \<open>Exactly the visible commands are on the page, each name within the column.\<close>

lemma fold_max_ge:
  "m \<le> fold (\<lambda>c m. if \<not> sc_hidden c \<and> int (length (sc_name c)) > m then int (length (sc_name c)) else m) cmds m
   \<and> (\<forall>c \<in> set cmds. \<not> sc_hidden c \<longrightarrow> int (length (sc_name c))
        \<le> fold (\<lambda>c m. if \<not> sc_hidden c \<and> int (length (sc_name c)) > m then int (length (sc_name c)) else m) cmds m)"
proof (induction cmds arbitrary: m)
  case (Cons c cmds)
  let ?m = "if \<not> sc_hidden c \<and> int (length (sc_name c)) > m then int (length (sc_name c)) else m"
  from Cons [of ?m] show ?case by (auto split: if_splits)
qed simp

lemma command_lines_visible:
  "HCommand n name short \<in> set (command_lines (ci_subs (setupHelp c))) \<longleftrightarrow>
     n = maxCmdLen (ci_subs (setupHelp c)) + 2 \<and> name \<noteq> ''completion'' \<and> name \<noteq> ''help''
     \<and> (\<exists>s \<in> set (ci_subs c). sc_name s = name \<and> sc_short s = short \<and> \<not> sc_hidden s)"
  by (auto simp: command_lines_def setupHelp_def)

lemma command_lines_fit: "HCommand n name short \<in> set (command_lines subs) \<Longrightarrow> int (length name) + 2 \<le> n"
  using fold_max_ge [of 0 subs] by (auto simp: command_lines_def maxCmdLen_def)

end
