(* ===== verification/Spec2Isabelle.thy ===== *)
theory Spec2Isabelle
  imports Circuit_Breaker Rate_Limiter Config_Service Discovery_Service Identity Agent Server Programs System Telemetry CLI_Root
begin

text \<open>
  Gordion VPN: a peer-to-peer mesh VPN in Go. This development models the program under \<open>src/\<close> in
  HOL and proves what makes its parts correct, and where they are not, what they do instead.

  \<^bold>\<open>The program.\<close> Three servers answer over gRPC. The identity service registers a node by its
  WireGuard public key, issues signed tokens and validates them against its PostgreSQL tables. The
  config service announces the network and hands out addresses, with its table in Redis. The
  discovery service keeps the online peers in Redis, each for a time to live that heartbeats
  extend. Config and discovery ask the identity service about every token. On each machine an
  agent registers, requests an address, sets up WireGuard, connects to its peers over libp2p
  streams, and runs loops for heartbeats, for renewing the token and for following the listing of
  peers. A command line tool starts and stops the agent and talks to it through a state file. Every
  call of the agent goes through a circuit breaker; every call to a server through a rate limiter,
  request log, trace ids and metrics.

  \<^bold>\<open>The library.\<close>

    \<^item> \<open>Prelude\<close>: error values, results, panics, fixed-width integers, generic lemmas and the
      collections of simplification rules. \<open>Go_Std\<close>, \<open>Net_IP\<close>, \<open>Json\<close>: the parts of Go's \<open>strconv\<close>,
      \<open>strings\<close>, \<open>net\<close> and \<open>encoding/json\<close> that the code uses, with printing and parsing proved inverse.
    \<^item> \<open>Redis_Spec\<close>: the Redis server as a record of commands over an opaque state, its documented
      laws as the locale \<open>redis_laws\<close>, interpreted by a store in memory.
    \<^item> \<open>Circuit_Breaker\<close> (\<open>pkg/circuitbreaker\<close>), \<open>Rate_Limiter\<close> (\<open>pkg/ratelimit\<close>), \<open>Auth\<close> (\<open>pkg/auth\<close>),
      \<open>Proto\<close> (messages of \<open>pkg/proto\<close>), \<open>Metrics\<close> (\<open>pkg/metrics\<close>), \<open>Server\<close> (\<open>pkg/middleware\<close>, \<open>pkg/tracing\<close>,
      \<open>pkg/healthcheck\<close>, \<open>pkg/grpcutil\<close>, \<open>pkg/config\<close> and the metrics interceptor).
    \<^item> \<open>Allocator\<close> and \<open>Config_Service\<close> (\<open>services/config\<close>), \<open>Registry\<close> and \<open>Discovery_Service\<close>
      (\<open>services/discovery\<close>), \<open>Identity\<close> (\<open>services/identity\<close>).
    \<^item> \<open>Framing\<close> and \<open>Bridge\<close> (\<open>services/agent/internal/p2p\<close>), \<open>Wireguard\<close> (\<open>internal/wireguard\<close> and
      \<open>internal/gateway\<close>), \<open>Agent_Client\<close> (\<open>internal/client\<close>, \<open>internal/config\<close>), \<open>Agent\<close>
      (\<open>internal/agent\<close>), \<open>Agent_Loops\<close> (its goroutines as turns in any order), \<open>Agent_Tunnel\<close> (from
      start-up through any sequence of turns).
    \<^item> \<open>CLI_State\<close>, \<open>CLI_Control\<close>, \<open>CLI_Display\<close>, \<open>CLI_Query\<close>, \<open>CLI_Root\<close> (\<open>cli\<close>).
    \<^item> \<open>Programs\<close> (the four \<open>main.go\<close> and \<open>pkg/tlsutil\<close>), \<open>Telemetry\<close> (metric calls against the
      collectors), \<open>System\<close> (behaviour that spans programs).
\<close>

text \<open>
  \<^bold>\<open>How code becomes definitions.\<close> A struct is a record, an operation a function that returns its
  result and the new state, an error a value of \<open>go_error\<close> (its wrapping kept, the text of formatted
  errors reduced to its constant part), a panic the value \<open>Panicked\<close>. Go's maps are maps, or lists of
  pairs where the order of an iteration matters; then the order is the environment's. Integers are
  unbounded with the conversions of Go written out (\<open>int64\<close>, \<open>int32\<close>), and words where bits count
  (addresses and packet lengths). What lies outside the process (Redis, PostgreSQL's clock and ids, the
  JWT library, libp2p, sockets, files, commands, other processes, the YAML decoder) is a record of
  functions over a world of type \<open>'w\<close>; what the code relies on there is a locale:

    \<^item> \<open>redis_laws\<close>: keys, sets and expiry. The allocator and the registry are proved inside it.
    \<^item> \<open>jwt_laws\<close>: a signed token with a future expiry is accepted with its claims.
    \<^item> \<open>call_guard\<close>: what a caller of the circuit breaker relies on; given by \<open>cb_Execute\<close>.
    \<^item> \<open>out_stream\<close>: a stream that may break in the middle of a write.
    \<^item> \<open>outage\<close>: an identity service that comes back at some instant.
    \<^item> \<open>wg_kernel\<close>, extended by \<open>wg_host\<close>: the \<open>wg\<close> and \<open>wg-quick\<close> commands on an interface.
    \<^item> \<open>cli_host\<close>: the state file and the processes of the machine of the command line tool.

  Each has an interpretation: on the model's own operation where there is one, otherwise on a store,
  stream or machine in memory, with the identity model as the service that the agent calls.
  Mutexes make a body one step; where the code releases a lock in between, the sections are steps
  of their own and the properties range over their interleavings (\<open>cb_reach\<close> for the breaker, the
  sequences of sections of the bridge, \<open>loops_reach\<close> for the agent).

  \<^bold>\<open>Loops and bounds.\<close> Loops over data are structural recursion. The address search and the wait of
  \<open>down\<close> may in principle run for ever, so they are partial functions to an option, and their
  return is proved: the search visits at most the addresses of the network (every prefix length
  except 0), the wait ends with its deadline. The loops of goroutines have no end; the model has
  one function per turn and sequences of turns. Retrying a registration takes the five attempts of
  the code. Two parsers of the standard library take fuel: that of JSON twice the length of its input, which
  is enough for every text the encoder makes, as the round trips prove; that of IPv6 addresses eight
  turns, one for each group of two bytes.

  \<^bold>\<open>What the lemmas show.\<close>

    \<^item> Breaker: its invariant over every history, when it opens and how it recovers, how many probes
      are under way; and that a cancelled probe blocks it.
    \<^item> Limiter: exactly the configured number of requests per window; cleaning up is invisible. Behind
      the interceptors the request metrics count the admitted calls only.
    \<^item> Allocator: the address table stays injective over all histories, the first free address is
      chosen, the search ends; releasing another node's address breaks sharing.
    \<^item> Registry: any history refines a table of leases; a failed read hides a live peer.
    \<^item> Identity: a node is its key; a token is valid from its issue to its expiry and only then, for
      the node it names, whatever else happens in between.
    \<^item> Framing and bridge: what arrives is a prefix of what was sent; ports stay distinct in every
      interleaving; exactly one end opens a stream; and the race that leaks a relay.
    \<^item> WireGuard and gateway: disabling undoes enabling; the lines of the configuration.
    \<^item> Agent: renewing before expiry, riding out an outage, synchronisation with the listing, and over
      every interleaving of its goroutines that the interface has the active peers and no others.
    \<^item> Command line: at most one agent, the one on record; \<open>down\<close> ends it; \<open>status\<close> is truthful.
    \<^item> Metrics: every call fits its collector. System: keys and addresses are taken unchecked, a lapsed
      peer is not registered again, the validation calls of a server share one limit, and an agent
      in its backoff is killed.
\<close>

text \<open>
  \<^bold>\<open>Not modelled.\<close> The logger (a thin wrapper of zerolog; log lines matter only as \<open>Fatal\<close> exits, which
  the main programs have); the per-platform system calls behind signals and detached processes; code
  generated by protoc; the registration of flags, commands and services with cobra and grpc;
  colours, column widths and the buckets of histograms; the effect of cancelling a context inside a
  library call. Redis and PostgreSQL commands are atomic, and one operation of the registry or the
  allocator runs without another client's commands in between; the races this leaves out are
  those between two servers on one Redis. An incoming stream during the agent's start-up is
  delivered after it. Deployment files, scripts and tests hold no logic of the program.
\<close>

end
